(* ===== verification/Prelude.thy ===== *)
theory Prelude
  imports Main "HOL-Library.Word" "HOL-Library.Sublist"
begin

section \<open>Prelude: results, bytes and the string functions of the standard library\<close>

text \<open>
  What every component of the model shares.
  \<^item> \<open>outcome\<close> is the value a Rust call yields: \<open>Ok\<close> or \<open>Err\<close> of its \<open>Result\<close>, \<open>Panic\<close> when it
    unwinds, \<open>Hang\<close> when it has not returned (a lock its own thread holds, or a loop that has
    used up the fuel given to the model). \<open>and_then\<close>, \<open>ques\<close> and \<open>on_return\<close> are the \<open>?\<close>
    operator and \<open>match\<close> on a result, without and with a state.
  \<^item> A byte is a \<open>char\<close>, Isabelle's type of exactly 256 values; \<open>Bytes\<close>, \<open>Vec<u8>\<close>, \<open>String\<close> and
    \<open>&str\<close> are lists of bytes, and a Rust string is the list of its UTF-8 bytes. Numbers keep
    their width: \<open>u8\<close>, \<open>u16\<close>, \<open>u64\<close> and \<open>i32\<close> are words.
  \<^item> The functions of \<open>str\<close> and \<open>u8/i32::from_str\<close> the sources call are defined here, with the
    facts about them that the parsers need.
\<close>

named_theorems outcome_simps \<open>how the result combinators compute\<close>
named_theorems std_simps \<open>facts about the string functions of the standard library\<close>
named_theorems world_frames \<open>what an operation leaves unchanged\<close>

type_synonym u8 = "8 word"
type_synonym u16 = "16 word"
type_synonym u64 = "64 word"
type_synonym i32 = "32 word"
type_synonym bytes = "char list"

subsection \<open>Results\<close>

datatype ('e, 'a) outcome = Ok 'a | Err 'e | Panic | Hang

fun returned :: "('e, 'a) outcome \<Rightarrow> bool" where
  "returned (Ok a) = True"
| "returned (Err e) = True"
| "returned Panic = False"
| "returned Hang = False"

fun is_ok :: "('e, 'a) outcome \<Rightarrow> bool" where
  "is_ok (Ok a) = True"
| "is_ok r = False"

text \<open>The \<open>?\<close> operator on a result.\<close>

fun and_then :: "('e, 'a) outcome \<Rightarrow> ('a \<Rightarrow> ('e, 'b) outcome) \<Rightarrow> ('e, 'b) outcome" where
  "and_then (Ok a) k = k a"
| "and_then (Err e) k = Err e"
| "and_then Panic k = Panic"
| "and_then Hang k = Hang"

fun map_err :: "('e \<Rightarrow> 'f) \<Rightarrow> ('e, 'a) outcome \<Rightarrow> ('f, 'a) outcome" where
  "map_err f (Ok a) = Ok a"
| "map_err f (Err e) = Err (f e)"
| "map_err f Panic = Panic"
| "map_err f Hang = Hang"

text \<open>\<open>Option::ok_or\<close>, and the result of an external call: \<open>Inl\<close> is its error.\<close>

fun ok_or :: "'a option \<Rightarrow> 'e \<Rightarrow> ('e, 'a) outcome" where
  "ok_or None e = Err e"
| "ok_or (Some a) e = Ok a"

fun from_ext :: "('x \<Rightarrow> 'e) \<Rightarrow> 'x + 'a \<Rightarrow> ('e, 'a) outcome" where
  "from_ext f (Inl x) = Err (f x)"
| "from_ext f (Inr a) = Ok a"

text \<open>\<open>iter().map(f).collect::<Result<Vec<_>>>()\<close>: the first error stops it.\<close>

fun collect_results :: "('e, 'a) outcome list \<Rightarrow> ('e, 'a list) outcome" where
  "collect_results [] = Ok []"
| "collect_results (r # rs) =
     and_then r (\<lambda>a. and_then (collect_results rs) (\<lambda>as. Ok (a # as)))"

text \<open>The same operators on a call that also changes a state.\<close>

fun ques :: "('e, 'a) outcome \<times> 's \<Rightarrow> ('a \<Rightarrow> 's \<Rightarrow> ('e, 'b) outcome \<times> 's) \<Rightarrow> ('e, 'b) outcome \<times> 's" where
  "ques (Ok a, s) k = k a s"
| "ques (Err e, s) k = (Err e, s)"
| "ques (Panic, s) k = (Panic, s)"
| "ques (Hang, s) k = (Hang, s)"

text \<open>\<open>match f() { Err(e) => .., Ok(a) => .. }\<close> and \<open>let _ = f();\<close>: goes on in both cases.\<close>

fun on_return :: "('e, 'a) outcome \<times> 's \<Rightarrow> ('e + 'a \<Rightarrow> 's \<Rightarrow> ('f, 'b) outcome \<times> 's)
    \<Rightarrow> ('f, 'b) outcome \<times> 's" where
  "on_return (Ok a, s) k = k (Inr a) s"
| "on_return (Err e, s) k = k (Inl e) s"
| "on_return (Panic, s) k = (Panic, s)"
| "on_return (Hang, s) k = (Hang, s)"

definition err_into :: "('e \<Rightarrow> 'f) \<Rightarrow> ('e, 'a) outcome \<times> 's \<Rightarrow> ('f, 'a) outcome \<times> 's" where
  "err_into f rs = (map_err f (fst rs), snd rs)"

lemma err_into_simps [simp, outcome_simps]:
  "err_into f (Ok a, s) = (Ok a, s)"
  "err_into f (Err e, s) = (Err (f e), s)"
  "err_into f (Panic, s) = (Panic, s)"
  "err_into f (Hang, s) = (Hang, s)"
  by (simp_all add: err_into_def)

lemma and_then_Ok_iff [outcome_simps]: "and_then r k = Ok b \<longleftrightarrow> (\<exists>a. r = Ok a \<and> k a = Ok b)"
  by (cases r) auto

lemma and_then_cong:
  "r = r' \<Longrightarrow> (\<And>a. r = Ok a \<Longrightarrow> k a = k' a) \<Longrightarrow> and_then r k = and_then r' k'"
  by (cases r) auto

lemma and_then_returned:
  "returned r \<Longrightarrow> (\<And>a. r = Ok a \<Longrightarrow> returned (k a)) \<Longrightarrow> returned (and_then r k)"
  by (cases r) auto

lemma ok_or_Ok_iff [simp]: "ok_or x e = Ok a \<longleftrightarrow> x = Some a"
  by (cases x) auto

lemma from_ext_Ok_iff [simp]: "from_ext f x = Ok a \<longleftrightarrow> x = Inr a"
  by (cases x) auto

lemma map_err_Ok_iff [simp]: "map_err f r = Ok a \<longleftrightarrow> r = Ok a"
  by (cases r) auto

lemma is_ok_iff [simp]: "is_ok r \<longleftrightarrow> (\<exists>a. r = Ok a)"
  by (cases r) auto

lemma is_ok_ques: "is_ok (fst (ques (r, s) k)) \<longleftrightarrow> (\<exists>a. r = Ok a \<and> is_ok (fst (k a s)))"
  by (cases r) auto

lemma ques_cases:
  obtains a where "r = Ok a" "ques (r, s) k = k a s"
  | e where "r = Err e" "ques (r, s) k = (Err e, s)"
  | "r = Panic" "ques (r, s) k = (Panic, s)"
  | "r = Hang" "ques (r, s) k = (Hang, s)"
  by (cases r) auto

lemma collect_results_map_Ok [simp, outcome_simps]: "collect_results (map Ok as) = Ok as"
  by (induction as) auto

lemma collect_results_map:
  "(\<And>x. x \<in> set xs \<Longrightarrow> f x = Ok (g x)) \<Longrightarrow> collect_results (map f xs) = Ok (map g xs)"
  by (induction xs) auto

lemma collect_results_returned:
  "(\<And>r. r \<in> set rs \<Longrightarrow> returned r) \<Longrightarrow> returned (collect_results rs)"
  by (induction rs) (auto intro!: and_then_returned)

subsection \<open>Bytes as counters\<close>

lemma u8_bound: "unat (i :: u8) < 256" "\<not> (255 :: u8) < j"
proof -
  have "unat x < 256" for x :: u8 using unsigned_less [where ?'a = nat and w = x] by simp
  from this [of i] this [of j] show "unat i < 256" "\<not> (255 :: u8) < j"
    by (simp_all add: word_less_nat_alt)
qed

lemma unat_Suc_u8: assumes "(i :: u8) \<noteq> 255" shows "unat (i + 1) = unat i + 1"
proof -
  have "unat i \<noteq> 255"
  proof
    assume "unat i = 255"
    then have "word_of_nat (unat i) = (255 :: u8)" by simp
    with assms show False by simp
  qed
  moreover have "unat i < 256" by (rule u8_bound)
  ultimately show ?thesis by (simp add: unat_word_ariths)
qed

lemma unat_pos_Suc: "(k :: u8) > 0 \<Longrightarrow> \<exists>n. unat k = Suc n"
  by (metis gr0_conv_Suc unat_gt_0 word_neq_0_conv)

lemma unat_of_nat_u8: "n < 256 \<Longrightarrow> unat (of_nat n :: u8) = n"
  by (simp add: unat_of_nat)

end
