(* ===== verification/Std_Str.thy ===== *)
theory Std_Str
  imports Prelude
begin

text \<open>
  The functions of the standard library on strings and integers that the sources call:
  splitting and searching, \<open>to_lowercase\<close>, UTF-8 validation and decoding, decimal printing and
  parsing at a width. Each is executable; the lemmas are the facts the packet parsers use.
\<close>

subsection \<open>Splitting and searching\<close>

text \<open>\<open>str::split_once(c)\<close> for an ASCII character.\<close>

fun split_once :: "char \<Rightarrow> bytes \<Rightarrow> (bytes \<times> bytes) option" where
  "split_once c [] = None"
| "split_once c (x # xs) =
     (if x = c then Some ([], xs)
      else map_option (\<lambda>(a, b). (x # a, b)) (split_once c xs))"

text \<open>\<open>slice::split(|b| b == c)\<close>: one segment more than there are separators.\<close>

fun split_on :: "char \<Rightarrow> bytes \<Rightarrow> bytes list" where
  "split_on c [] = [[]]"
| "split_on c (x # xs) =
     (if x = c then [] # split_on c xs
      else (case split_on c xs of [] \<Rightarrow> [[x]] | y # ys \<Rightarrow> (x # y) # ys))"

fun join_with :: "char \<Rightarrow> bytes list \<Rightarrow> bytes" where
  "join_with c [] = []"
| "join_with c [s] = s"
| "join_with c (s # t # ss) = s @ [c] @ join_with c (t # ss)"

fun starts_with_char :: "char \<Rightarrow> bytes \<Rightarrow> bool" where
  "starts_with_char c [] = False"
| "starts_with_char c (x # xs) = (x = c)"

definition ends_with_char :: "char \<Rightarrow> bytes \<Rightarrow> bool" where
  "ends_with_char c s = (s \<noteq> [] \<and> last s = c)"

text \<open>\<open>str::replace(pat, rep)\<close> for a non-empty pattern: leftmost, non-overlapping.\<close>

function replace_all :: "bytes \<Rightarrow> bytes \<Rightarrow> bytes \<Rightarrow> bytes" where
  "replace_all pat rep s =
     (if pat \<noteq> [] \<and> prefix pat s then rep @ replace_all pat rep (drop (length pat) s)
      else (case s of [] \<Rightarrow> [] | x # xs \<Rightarrow> x # replace_all pat rep xs))"
  by pat_completeness auto
termination
  by (relation "measure (\<lambda>(pat, rep, s). length s)") (auto simp: prefix_def)

declare replace_all.simps [simp del]

fun contains_str :: "bytes \<Rightarrow> bytes \<Rightarrow> bool" where
  "contains_str pat [] = (pat = [])"
| "contains_str pat (x # xs) = (prefix pat (x # xs) \<or> contains_str pat xs)"

lemma split_on_not_Nil [simp]: "split_on c s \<noteq> []"
  by (induction s) (auto split: list.splits)

lemma split_once_append [simp, std_simps]:
  "c \<notin> set a \<Longrightarrow> split_once c (a @ c # b) = Some (a, b)"
  by (induction a) auto

lemma split_once_None [simp, std_simps]: "split_once c s = None \<longleftrightarrow> c \<notin> set s"
  by (induction s) auto

lemma split_on_single [simp, std_simps]: "c \<notin> set s \<Longrightarrow> split_on c s = [s]"
  by (induction s) auto

lemma split_on_append [simp, std_simps]:
  "c \<notin> set a \<Longrightarrow> split_on c (a @ c # b) = a # split_on c b"
  by (induction a) auto

lemma split_on_join [std_simps]:
  "ss \<noteq> [] \<Longrightarrow> (\<And>s. s \<in> set ss \<Longrightarrow> c \<notin> set s) \<Longrightarrow> split_on c (join_with c ss) = ss"
  by (induction c ss rule: join_with.induct) auto

lemma join_split_on [simp, std_simps]: "join_with c (split_on c s) = s"
proof (induction s)
  case (Cons x xs)
  then show ?case
    by (cases "split_on c xs" rule: list.exhaust; cases "tl (split_on c xs)") auto
qed simp

lemma length_split_on [std_simps]: "length (split_on c s) = Suc (count_list s c)"
  by (induction s) (auto split: list.splits)

lemma split_on_no_sep: "t \<in> set (split_on c s) \<Longrightarrow> c \<notin> set t"
  by (induction s arbitrary: t) (auto split: list.splits if_splits)

lemma ends_with_char_simps [simp]:
  "ends_with_char c (s @ [x]) = (x = c)"
  "ends_with_char c [] = False"
  "ends_with_char c (a @ x # b) = (if b = [] then x = c else last b = c)"
  by (auto simp: ends_with_char_def)

lemma starts_with_char_iff: "starts_with_char c s \<longleftrightarrow> (\<exists>t. s = c # t)"
  by (cases s) auto

lemma replace_all_Nil [simp, std_simps]: "replace_all pat rep [] = []"
  by (subst replace_all.simps) simp

lemma contains_str_append:
  "pat \<noteq> [] \<Longrightarrow> contains_str pat a \<Longrightarrow> contains_str pat (a @ b)"
  by (induction a) (auto dest: prefix_prefix [where zs = b])

lemma replace_all_absent [std_simps]:
  "\<not> contains_str pat s \<Longrightarrow> replace_all pat rep s = s"
  by (induction s) (auto simp: replace_all.simps [of pat rep "_ # _"])

text \<open>
  A pattern whose first character occurs in it nowhere else cannot straddle the end of a text
  that does not hold it: replacing it in \<open>a @ pat\<close> replaces the last occurrence only.
\<close>

lemma prefix_straddle:
  assumes "prefix (p # ps) (a @ p # ps @ b)" and "p \<notin> set ps" and "a \<noteq> []"
  shows "prefix (p # ps) a"
proof -
  have len: "length (p # ps) \<le> length a"
  proof (rule ccontr)
    assume "\<not> length (p # ps) \<le> length a"
    then have lt: "length a < length (p # ps)" by simp
    from assms(1) obtain r where r: "a @ p # ps @ b = (p # ps) @ r"
      by (auto simp: prefix_def)
    from r lt have "(p # ps) ! length a = (a @ p # ps @ b) ! length a"
      by (simp only: nth_append) simp
    then have "(p # ps) ! length a = p" by simp
    with lt assms(3) have "p \<in> set ps" by (cases a) (auto simp: nth_Cons')
    with assms(2) show False by simp
  qed
  from assms(1) _ len show ?thesis by (rule prefix_length_prefix) simp
qed

lemma replace_all_last [std_simps]:
  assumes "\<not> contains_str (p # ps) a" and "p \<notin> set ps"
  shows "replace_all (p # ps) rep (a @ (p # ps)) = a @ rep"
  using assms
proof (induction a)
  case Nil
  then show ?case by (subst replace_all.simps) simp
next
  case (Cons x xs)
  then have np: "\<not> prefix (p # ps) ((x # xs) @ p # ps)"
    using prefix_straddle [of p ps "x # xs" "[]"] by auto
  with Cons show ?case by (subst replace_all.simps) auto
qed


subsection \<open>Lower case\<close>

text \<open>
  \<open>str::to_lowercase\<close>, for comparisons with ASCII text. Among the scalars outside ASCII only
  U+212A (the Kelvin sign, bytes E2 84 AA) has a lower case that is all ASCII, the letter k; every
  other one keeps a byte above 127 in its lower case, so leaving it as it is decides each
  comparison with an ASCII literal as the standard library does.
\<close>

definition ascii_lower :: "char \<Rightarrow> char" where
  "ascii_lower c =
     (let n = (of_char c :: nat) in if 65 \<le> n \<and> n \<le> 90 then char_of (n + 32) else c)"

fun to_lowercase :: "bytes \<Rightarrow> bytes" where
  "to_lowercase [] = []"
| "to_lowercase (c # cs) =
     (case (c, cs) of
        (CHR 0xE2, CHR 0x84 # CHR 0xAA # rest) \<Rightarrow> CHR ''k'' # to_lowercase rest
      | _ \<Rightarrow> ascii_lower c # to_lowercase cs)"

subsection \<open>UTF-8\<close>

text \<open>
  \<open>utf8_next\<close> reads one scalar value off the front (RFC 3629: no overlong form, no surrogate,
  nothing above U+10FFFF), \<open>utf8_valid\<close> is \<open>str::from_utf8(..).is_ok()\<close>.
\<close>

definition cont_byte :: "char \<Rightarrow> bool" where
  "cont_byte c = (let n = (of_char c :: nat) in 128 \<le> n \<and> n \<le> 191)"

definition cont_value :: "char \<Rightarrow> nat" where
  "cont_value c = of_char c - 128"

fun utf8_two :: "nat \<Rightarrow> bytes \<Rightarrow> (nat \<times> bytes) option" where
  "utf8_two b0 (c1 # r) =
     (if cont_byte c1 then Some ((b0 - 192) * 64 + cont_value c1, r) else None)"
| "utf8_two b0 _ = None"

fun utf8_three :: "nat \<Rightarrow> bytes \<Rightarrow> (nat \<times> bytes) option" where
  "utf8_three b0 (c1 # c2 # r) =
     (if cont_byte c1 \<and> cont_byte c2 \<and> (b0 = 224 \<longrightarrow> 32 \<le> cont_value c1)
         \<and> (b0 = 237 \<longrightarrow> cont_value c1 \<le> 31)
      then Some ((b0 - 224) * 4096 + cont_value c1 * 64 + cont_value c2, r) else None)"
| "utf8_three b0 _ = None"

fun utf8_four :: "nat \<Rightarrow> bytes \<Rightarrow> (nat \<times> bytes) option" where
  "utf8_four b0 (c1 # c2 # c3 # r) =
     (if cont_byte c1 \<and> cont_byte c2 \<and> cont_byte c3 \<and> (b0 = 240 \<longrightarrow> 16 \<le> cont_value c1)
         \<and> (b0 = 244 \<longrightarrow> cont_value c1 \<le> 15)
      then Some ((b0 - 240) * 262144 + cont_value c1 * 4096 + cont_value c2 * 64 + cont_value c3, r)
      else None)"
| "utf8_four b0 _ = None"

fun utf8_next :: "bytes \<Rightarrow> (nat \<times> bytes) option" where
  "utf8_next [] = None"
| "utf8_next (c # r) =
     (let b0 = (of_char c :: nat) in
      if b0 < 128 then Some (b0, r)
      else if 194 \<le> b0 \<and> b0 \<le> 223 then utf8_two b0 r
      else if 224 \<le> b0 \<and> b0 \<le> 239 then utf8_three b0 r
      else if 240 \<le> b0 \<and> b0 \<le> 244 then utf8_four b0 r
      else None)"

lemma utf8_parts_shrink:
  "utf8_two b s = Some (n, r) \<Longrightarrow> length r \<le> length s"
  "utf8_three b s = Some (n, r) \<Longrightarrow> length r \<le> length s"
  "utf8_four b s = Some (n, r) \<Longrightarrow> length r \<le> length s"
  by (auto elim!: utf8_two.elims utf8_three.elims utf8_four.elims split: if_splits)

lemma utf8_next_shrinks: "utf8_next s = Some (n, r) \<Longrightarrow> length r < length s"
  by (cases s) (auto simp: Let_def less_Suc_eq_le split: if_splits dest: utf8_parts_shrink)

lemma utf8_parts_append:
  "utf8_two b s = Some (n, r) \<Longrightarrow> utf8_two b (s @ t) = Some (n, r @ t)"
  "utf8_three b s = Some (n, r) \<Longrightarrow> utf8_three b (s @ t) = Some (n, r @ t)"
  "utf8_four b s = Some (n, r) \<Longrightarrow> utf8_four b (s @ t) = Some (n, r @ t)"
  by (auto elim!: utf8_two.elims utf8_three.elims utf8_four.elims split: if_splits)

lemma utf8_next_append:
  "utf8_next s = Some (n, r) \<Longrightarrow> utf8_next (s @ t) = Some (n, r @ t)"
  by (cases s) (auto simp: Let_def utf8_parts_append split: if_splits)

function utf8_valid :: "bytes \<Rightarrow> bool" where
  "utf8_valid s =
     (if s = [] then True
      else (case utf8_next s of None \<Rightarrow> False | Some (n, r) \<Rightarrow> utf8_valid r))"
  by pat_completeness auto
termination
  by (relation "measure length") (auto dest: utf8_next_shrinks)

declare utf8_valid.simps [simp del]

definition is_ascii :: "char \<Rightarrow> bool" where
  "is_ascii c = ((of_char c :: nat) < 128)"

lemma utf8_next_ascii [simp, std_simps]:
  "is_ascii c \<Longrightarrow> utf8_next (c # s) = Some (of_char c, s)"
  by (simp add: is_ascii_def Let_def)

declare utf8_next.simps [simp del]

lemma utf8_valid_Nil [simp, std_simps]: "utf8_valid []"
  by (subst utf8_valid.simps) simp

lemma utf8_valid_ascii_Cons [simp, std_simps]:
  "is_ascii c \<Longrightarrow> utf8_valid (c # s) = utf8_valid s"
  by (subst utf8_valid.simps) simp

lemma utf8_valid_ascii_append [simp, std_simps]:
  "list_all is_ascii a \<Longrightarrow> utf8_valid (a @ s) = utf8_valid s"
  by (induction a) auto

lemma utf8_valid_ascii [std_simps]: "list_all is_ascii s \<Longrightarrow> utf8_valid s"
  using utf8_valid_ascii_append [of s "[]"] by simp

lemma utf8_valid_append [std_simps]:
  "utf8_valid a \<Longrightarrow> utf8_valid (a @ b) = utf8_valid b"
proof (induction a rule: utf8_valid.induct)
  case (1 s)
  show ?case
  proof (cases "s = []")
    case False
    with "1.prems" obtain n r where nr: "utf8_next s = Some (n, r)" "utf8_valid r"
      by (subst (asm) utf8_valid.simps) (auto split: option.splits)
    with False "1.IH" show ?thesis
      by (subst utf8_valid.simps) (simp add: utf8_next_append)
  qed simp
qed

text \<open>
  A byte offset at which a \<open>str\<close> may be cut: \<open>str::is_char_boundary\<close>. In valid UTF-8 these are the
  offsets behind which the text is valid again.
\<close>

definition char_boundary :: "bytes \<Rightarrow> nat \<Rightarrow> bool" where
  "char_boundary s k \<longleftrightarrow> k = 0 \<or> k = length s \<or> k < length s \<and> \<not> cont_byte (s ! k)"

lemma utf8_parts_shape:
  "utf8_two b s = Some (n, r) \<Longrightarrow> \<exists>ps. s = ps @ r \<and> list_all cont_byte ps"
  "utf8_three b s = Some (n, r) \<Longrightarrow> \<exists>ps. s = ps @ r \<and> list_all cont_byte ps"
  "utf8_four b s = Some (n, r) \<Longrightarrow> \<exists>ps. s = ps @ r \<and> list_all cont_byte ps"
proof -
  have one: "\<exists>ps. c # r = ps @ r \<and> list_all cont_byte ps" if "cont_byte c" for c
    using that by (intro exI [of _ "[c]"]) simp
  have two: "\<exists>ps. c # d # r = ps @ r \<and> list_all cont_byte ps" if "cont_byte c" "cont_byte d" for c d
    using that by (intro exI [of _ "[c, d]"]) simp
  have three: "\<exists>ps. c # d # e # r = ps @ r \<and> list_all cont_byte ps" if "cont_byte c" "cont_byte d" "cont_byte e" for c d e
    using that by (intro exI [of _ "[c, d, e]"]) simp
  show "utf8_two b s = Some (n, r) \<Longrightarrow> \<exists>ps. s = ps @ r \<and> list_all cont_byte ps"
    "utf8_three b s = Some (n, r) \<Longrightarrow> \<exists>ps. s = ps @ r \<and> list_all cont_byte ps"
    "utf8_four b s = Some (n, r) \<Longrightarrow> \<exists>ps. s = ps @ r \<and> list_all cont_byte ps"
    by (auto elim!: utf8_two.elims utf8_three.elims utf8_four.elims split: if_splits intro: one two three)
qed

lemma utf8_next_shape:
  assumes "utf8_next s = Some (n, r)"
  obtains c ps where "s = c # ps @ r" "\<not> cont_byte c" "list_all cont_byte ps"
proof (cases s)
  case (Cons c t)
  have "\<not> cont_byte c" using assms Cons by (auto simp: utf8_next.simps cont_byte_def Let_def split: if_splits)
  moreover have "\<exists>ps. t = ps @ r \<and> list_all cont_byte ps"
    using assms Cons by (auto simp: utf8_next.simps Let_def split: if_splits dest: utf8_parts_shape)
  ultimately show ?thesis using that Cons by blast
qed (use assms in \<open>simp add: utf8_next.simps\<close>)

lemma utf8_valid_next: "utf8_valid s \<Longrightarrow> utf8_next s = Some (n, r) \<Longrightarrow> utf8_valid r"
  by (subst (asm) utf8_valid.simps) (auto split: if_splits simp: utf8_next.simps)

lemma utf8_valid_head: "utf8_valid (c # s) \<Longrightarrow> \<not> cont_byte c"
  by (subst (asm) utf8_valid.simps) (auto split: option.splits elim: utf8_next_shape)

lemma utf8_valid_drop: "utf8_valid s \<Longrightarrow> char_boundary s k \<Longrightarrow> utf8_valid (drop k s)"
proof (induction s arbitrary: k rule: utf8_valid.induct)
  case (1 s)
  show ?case
  proof (cases "s = []")
    case False
    with "1.prems"(1) obtain n r where r: "utf8_next s = Some (n, r)" "utf8_valid r"
      by (subst (asm) utf8_valid.simps) (auto split: option.splits)
    then obtain c ps where s: "s = c # ps @ r" "list_all cont_byte ps" by (elim utf8_next_shape)
    show ?thesis
    proof (cases "k \<le> length ps")
      case True
      then have "k = 0" using "1.prems"(2) s
        by (auto simp: char_boundary_def nth_Cons nth_append list_all_length split: nat.splits if_splits)
      with "1.prems"(1) show ?thesis by simp
    next
      case False
      then obtain j where k: "k = Suc (length ps) + j" by (metis add_Suc less_iff_Suc_add not_le)
      have "char_boundary r j" using "1.prems"(2) s k
        by (auto simp: char_boundary_def nth_append)
      with "1.IH" [OF \<open>s \<noteq> []\<close> r(1) refl r(2)] s k show ?thesis by simp
    qed
  qed simp
qed

lemma ascii_not_cont: "is_ascii c \<Longrightarrow> \<not> cont_byte c"
  by (simp add: is_ascii_def cont_byte_def Let_def)

lemma utf8_valid_behind:
  assumes "utf8_valid (a @ c # b)" and "is_ascii c"
  shows "utf8_valid b"
proof -
  have "char_boundary (a @ c # b) (length a)" using assms(2) by (simp add: char_boundary_def ascii_not_cont)
  from utf8_valid_drop [OF assms(1) this] assms(2) show ?thesis by simp
qed

lemma char_boundary_head: "utf8_valid (drop k s) \<Longrightarrow> k \<le> length s \<Longrightarrow> char_boundary s k"
  by (cases "drop k s") (auto simp: char_boundary_def nth_via_drop dest: utf8_valid_head)

text \<open>\<open>&s[a..b]\<close>: out of range, or inside a scalar, it panics.\<close>

definition str_slice :: "nat \<Rightarrow> nat \<Rightarrow> bytes \<Rightarrow> ('e, bytes) outcome" where
  "str_slice a b s =
     (if a \<le> b \<and> b \<le> length s \<and> char_boundary s a \<and> char_boundary s b
      then Ok (take (b - a) (drop a s)) else Panic)"

lemma str_slice_Ok:
  "a \<le> b \<Longrightarrow> b \<le> length s \<Longrightarrow> char_boundary s a \<Longrightarrow> char_boundary s b \<Longrightarrow>
   str_slice a b s = Ok (take (b - a) (drop a s))"
  by (simp add: str_slice_def)

lemma char_boundary_ends [simp]: "char_boundary s 0" "char_boundary s (length s)"
  by (simp_all add: char_boundary_def)

subsection \<open>Decimal numbers\<close>

definition is_ascii_digit :: "char \<Rightarrow> bool" where
  "is_ascii_digit c = (let n = (of_char c :: nat) in 48 \<le> n \<and> n \<le> 57)"

definition digit_char :: "nat \<Rightarrow> char" where
  "digit_char d = char_of (48 + d)"

definition digit_value :: "char \<Rightarrow> nat" where
  "digit_value c = of_char c - 48"

text \<open>\<open>write!(f, "{}", n)\<close> of an unsigned and of a signed number.\<close>

fun show_nat :: "nat \<Rightarrow> bytes" where
  "show_nat n = (if n < 10 then [digit_char n] else show_nat (n div 10) @ [digit_char (n mod 10)])"

declare show_nat.simps [simp del]

definition show_i32 :: "i32 \<Rightarrow> bytes" where
  "show_i32 i = (if sint i < 0 then CHR ''-'' # show_nat (nat (- sint i)) else show_nat (nat (sint i)))"

fun parse_digits :: "nat \<Rightarrow> bytes \<Rightarrow> nat option" where
  "parse_digits acc [] = Some acc"
| "parse_digits acc (c # cs) =
     (if is_ascii_digit c then parse_digits (acc * 10 + digit_value c) cs else None)"

text \<open>
  \<open>u8::from_str\<close> and \<open>i32::from_str\<close>: an optional \<open>+\<close> (and \<open>-\<close> for the signed type), at least
  one digit, and a value the type can hold.
\<close>

definition parse_bounded :: "nat \<Rightarrow> bytes \<Rightarrow> nat option" where
  "parse_bounded bound ds =
     (if ds = [] then None
      else (case parse_digits 0 ds of None \<Rightarrow> None | Some n \<Rightarrow> if n \<le> bound then Some n else None))"

definition parse_u8 :: "bytes \<Rightarrow> u8 option" where
  "parse_u8 s =
     map_option of_nat (parse_bounded 255 (if starts_with_char CHR ''+'' s then tl s else s))"

definition parse_i32 :: "bytes \<Rightarrow> i32 option" where
  "parse_i32 s =
     (if starts_with_char CHR ''-'' s
      then map_option (\<lambda>n. - of_nat n) (parse_bounded 2147483648 (tl s))
      else map_option of_nat
             (parse_bounded 2147483647 (if starts_with_char CHR ''+'' s then tl s else s)))"

text \<open>The index of the first byte that is no ASCII digit, if there is one.\<close>

fun find_non_digit :: "bytes \<Rightarrow> nat option" where
  "find_non_digit [] = None"
| "find_non_digit (c # cs) = (if is_ascii_digit c then map_option Suc (find_non_digit cs) else Some 0)"

lemma digit_char_facts [simp, std_simps]:
  assumes "d < 10"
  shows "is_ascii_digit (digit_char d)" and "digit_value (digit_char d) = d"
    and "is_ascii (digit_char d)"
  using assms by (simp_all add: is_ascii_digit_def digit_char_def digit_value_def is_ascii_def Let_def)

lemma show_nat_not_Nil [simp]: "show_nat n \<noteq> []"
  by (subst show_nat.simps) simp

lemma show_nat_digits [simp, std_simps]: "list_all is_ascii_digit (show_nat n)"
proof (induction n rule: show_nat.induct)
  case (1 n)
  then show ?case by (cases "n < 10") (simp_all add: show_nat.simps [of n])
qed

lemma digit_is_ascii: "is_ascii_digit c \<Longrightarrow> is_ascii c"
  by (simp add: is_ascii_digit_def is_ascii_def Let_def)

lemma parse_digits_append:
  "parse_digits acc (xs @ ys) =
     (case parse_digits acc xs of None \<Rightarrow> None | Some n \<Rightarrow> parse_digits n ys)"
  by (induction xs arbitrary: acc) auto

lemma parse_show_nat [simp, std_simps]: "parse_digits 0 (show_nat n) = Some n"
proof (induction n rule: show_nat.induct)
  case (1 n)
  then show ?case
    by (cases "n < 10") (simp_all add: show_nat.simps [of n] parse_digits_append)
qed

lemma find_non_digit_append [simp, std_simps]:
  "list_all is_ascii_digit ds \<Longrightarrow> find_non_digit (ds @ s) = map_option ((+) (length ds)) (find_non_digit s)"
  by (induction ds) (auto simp: option.map_comp comp_def option.map_ident cong: option.map_cong)

lemma find_non_digit_None: "find_non_digit s = None \<longleftrightarrow> list_all is_ascii_digit s"
  by (induction s) auto

lemma find_non_digit_Some:
  "find_non_digit s = Some i \<Longrightarrow> i < length s \<and> list_all is_ascii_digit (take i s) \<and> \<not> is_ascii_digit (s ! i)"
  by (induction s arbitrary: i) (auto split: if_splits)

lemma show_nat_head: "\<exists>c cs. show_nat n = c # cs \<and> is_ascii_digit c"
  using show_nat_digits [of n] by (cases "show_nat n") auto

lemma show_nat_no_sign [simp, std_simps]:
  "\<not> is_ascii_digit c \<Longrightarrow> \<not> starts_with_char c (show_nat n)"
  "\<not> is_ascii_digit c \<Longrightarrow> c \<notin> set (show_nat n)"
  using show_nat_head [of n] show_nat_digits [of n]
  by (auto simp: starts_with_char_iff list_all_iff simp del: show_nat_digits)

lemma signs_no_digit [simp]:
  "\<not> is_ascii_digit CHR ''+''" "\<not> is_ascii_digit CHR ''-''" "\<not> is_ascii_digit CHR 0x1E"
  "\<not> is_ascii_digit CHR ''/''" "\<not> is_ascii_digit CHR '',''"
  by (simp_all add: is_ascii_digit_def)

lemma parse_u8_show [simp, std_simps]: "parse_u8 (show_nat (unat (b :: u8))) = Some b"
proof -
  have "unat b \<le> 255" using unsigned_less [of b, where ?'a = nat] by simp
  then show ?thesis by (simp add: parse_u8_def parse_bounded_def)
qed

lemma parse_i32_show [simp, std_simps]:
  assumes "0 \<le> sint (i :: i32)"
  shows "parse_i32 (show_nat (nat (sint i))) = Some i"
proof -
  have "sint i < 2 ^ 31" using sint_lt [of i] by simp
  then have "nat (sint i) \<le> 2147483647" by simp
  moreover have "of_nat (nat (sint i)) = i" using assms by (simp add: of_nat_nat)
  ultimately show ?thesis by (simp add: parse_i32_def parse_bounded_def)
qed


subsection \<open>The text of a UTF-8 error\<close>

text \<open>
  \<open>Utf8Error\<close> prints the length of the longest valid prefix and how many bytes behind it can not
  start a scalar, or that the input ends inside one.
\<close>

function utf8_valid_up_to :: "bytes \<Rightarrow> nat" where
  "utf8_valid_up_to s =
     (case utf8_next s of None \<Rightarrow> 0
      | Some (n, r) \<Rightarrow> (length s - length r) + utf8_valid_up_to r)"
  by pat_completeness auto
termination
  by (relation "measure length") (auto dest: utf8_next_shrinks)

declare utf8_valid_up_to.simps [simp del]

definition second_ok :: "nat \<Rightarrow> char \<Rightarrow> bool" where
  "second_ok b0 c \<longleftrightarrow> cont_byte c \<and> (b0 = 224 \<longrightarrow> 32 \<le> cont_value c) \<and> (b0 = 237 \<longrightarrow> cont_value c \<le> 31)
     \<and> (b0 = 240 \<longrightarrow> 16 \<le> cont_value c) \<and> (b0 = 244 \<longrightarrow> cont_value c \<le> 15)"

fun utf8_error_len :: "bytes \<Rightarrow> nat option" where
  "utf8_error_len [] = None"
| "utf8_error_len (c # r) =
     (let b0 = (of_char c :: nat) in
      if b0 < 194 \<or> 244 < b0 then Some 1
      else (case r of [] \<Rightarrow> None
        | c1 # r1 \<Rightarrow> if \<not> second_ok b0 c1 then Some 1
          else (case r1 of [] \<Rightarrow> None
            | c2 # r2 \<Rightarrow> if \<not> cont_byte c2 then Some 2
              else (case r2 of [] \<Rightarrow> None | c3 # r3 \<Rightarrow> Some 3))))"

definition utf8_error_text :: "bytes \<Rightarrow> bytes" where
  "utf8_error_text s =
     (let k = utf8_valid_up_to s in
      case utf8_error_len (drop k s) of
        Some n \<Rightarrow> ''invalid utf-8 sequence of '' @ show_nat n @ '' bytes from index '' @ show_nat k
      | None \<Rightarrow> ''incomplete utf-8 byte sequence from index '' @ show_nat k)"

lemma utf8_valid_up_to_le: "utf8_valid_up_to s \<le> length s"
proof (induction s rule: utf8_valid_up_to.induct)
  case (1 s)
  then show ?case
    by (subst utf8_valid_up_to.simps) (fastforce split: option.split dest: utf8_next_shrinks)
qed

lemma utf8_valid_iff: "utf8_valid s \<longleftrightarrow> utf8_valid_up_to s = length s"
proof (induction s rule: utf8_valid.induct)
  case (1 s)
  show ?case
  proof (cases "utf8_next s")
    case None
    then show ?thesis
      by (simp add: utf8_valid.simps [of s] utf8_valid_up_to.simps [of s])
  next
    case (Some nr)
    obtain n r where nr: "nr = (n, r)" by (cases nr)
    with Some have "length r < length s" by (simp add: utf8_next_shrinks)
    with Some nr 1 show ?thesis
      by (cases "s = []") (auto simp: utf8_valid.simps [of s] utf8_valid_up_to.simps [of s])
  qed
qed

end
