(* ===== verification/Json.thy ===== *)
theory Json
  imports Std_Str
begin

text \<open>
  The part of \<open>serde_json\<close> the sources name: the constructors of its \<open>Value\<close>, on which they
  match, and, as a record of arguments, its three functions: \<open>from_str::<IgnoredAny>\<close> (is this
  JSON text), \<open>from_str::<Value>\<close> and \<open>Value::to_string\<close>. A number is kept as its text. The sums
  have the text of the error on the left.
\<close>

datatype json =
    JNull
  | JBool bool
  | JNumber bytes
  | JString bytes
  | JArray "json list"
  | JObject "(bytes \<times> json) list"

record json_lib =
  json_valid :: "bytes \<Rightarrow> bytes + unit"
  json_from_str :: "bytes \<Rightarrow> bytes + json"
  json_to_string :: "json \<Rightarrow> bytes"

text \<open>
  What the code relies on of the library for one value: its text is UTF-8, is valid JSON, and
  parses back to the value.
\<close>

definition json_text_ok :: "json_lib \<Rightarrow> json \<Rightarrow> bool" where
  "json_text_ok J v \<longleftrightarrow>
     utf8_valid (json_to_string J v) \<and> json_valid J (json_to_string J v) = Inr () \<and>
     json_from_str J (json_to_string J v) = Inr v"

definition quoted :: "bytes \<Rightarrow> bytes" where
  "quoted s = ''\"'' @ s @ ''\"''"

subsection \<open>A concrete JSON library\<close>

text \<open>A printer without escapes, for the witnesses: its texts of plain strings are JSON.\<close>

fun commas :: "bytes list \<Rightarrow> bytes" where
  "commas [] = ''''"
| "commas [s] = s"
| "commas (s # t # ss) = s @ '','' @ commas (t # ss)"

fun plain_json :: "json \<Rightarrow> bytes" where
  "plain_json JNull = ''null''"
| "plain_json (JBool b) = (if b then ''true'' else ''false'')"
| "plain_json (JNumber t) = t"
| "plain_json (JString s) = quoted s"
| "plain_json (JArray vs) = ''['' @ commas (map plain_json vs) @ '']''"
| "plain_json (JObject kvs) = ''{'' @ commas (map (\<lambda>(k, v). quoted k @ '':'' @ plain_json v) kvs) @ ''}''"

definition plain_json_lib :: json_lib where
  "plain_json_lib = \<lparr>json_valid = \<lambda>s. if s = '''' then Inl ''EOF while parsing a value'' else Inr (),
     json_from_str = \<lambda>s. Inr (JString s), json_to_string = plain_json\<rparr>"

end
