(* ===== verification/Errors.thy ===== *)
theory Errors
  imports Std_Str
begin

text \<open>
  The two error enumerations (\<open>engineio/src/error.rs\<close>, \<open>socketio/src/error.rs\<close>) with the texts
  their \<open>#[error(..)]\<close> attributes give to \<open>Display\<close>. An error of a foreign crate wrapped by a
  variant is kept as its own display text. The constructors of the engine.io enumeration have the
  source's names, those of the socket.io one the prefix \<open>Sio\<close>.
\<close>

datatype eio_error =
    InvalidPacketId u8
  | IncompletePacket
  | InvalidPacket
  | InvalidUtf8 bytes
  | InvalidBase64 bytes
  | InvalidUrl bytes
  | InvalidUrlScheme bytes
  | IncompleteResponseFromReqwest bytes
  | WebsocketError bytes
  | IncompleteHttp u16
  | HttpErrorWithBody u16 bytes
  | WebsocketClosed u16 bytes
  | InvalidHandshake bytes
  | IllegalActionBeforeOpen
  | InvalidHttpConfiguration bytes
  | InvalidJson bytes
  | InvalidPoisonedLock
  | IncompleteIo bytes
  | IllegalWebsocketUpgrade
  | InvalidHeaderNameFromReqwest bytes
  | InvalidHeaderValueFromReqwest bytes
  | PingTimeout

fun eio_error_display :: "eio_error \<Rightarrow> bytes" where
  "eio_error_display (InvalidPacketId b) = ''Invalid packet id: '' @ show_nat (unat b)"
| "eio_error_display IncompletePacket = ''Error while parsing an incomplete packet''"
| "eio_error_display InvalidPacket =
     ''Got an invalid packet which did not follow the protocol format''"
| "eio_error_display (InvalidUtf8 t) = ''An error occurred while decoding the utf-8 text: '' @ t"
| "eio_error_display (InvalidBase64 t) = ''An error occurred while encoding/decoding base64: '' @ t"
| "eio_error_display (InvalidUrl t) = ''Invalid Url during parsing''"
| "eio_error_display (InvalidUrlScheme t) = ''Invalid Url Scheme: '' @ t"
| "eio_error_display (IncompleteResponseFromReqwest t) = ''Error during connection via http: '' @ t"
| "eio_error_display (WebsocketError t) = ''Error with websocket connection: '' @ t"
| "eio_error_display (IncompleteHttp n) =
     ''Network request returned with status code: '' @ show_nat (unat n)"
| "eio_error_display (HttpErrorWithBody n b) =
     ''Network request returned with status code '' @ show_nat (unat n) @ '', body: '' @ b"
| "eio_error_display (WebsocketClosed n r) =
     ''Websocket closed with code '' @ show_nat (unat n) @ '': '' @ r"
| "eio_error_display (InvalidHandshake t) = ''Got illegal handshake response: '' @ t"
| "eio_error_display IllegalActionBeforeOpen =
     ''Called an action before the connection was established''"
| "eio_error_display (InvalidHttpConfiguration t) = ''Error setting up the http request: '' @ t"
| "eio_error_display (InvalidJson t) = ''string is not json serializable: '' @ t"
| "eio_error_display InvalidPoisonedLock = ''A lock was poisoned''"
| "eio_error_display (IncompleteIo t) = ''Got an IO-Error: '' @ t"
| "eio_error_display IllegalWebsocketUpgrade = ''Server did not allow upgrading to websockets''"
| "eio_error_display (InvalidHeaderNameFromReqwest t) = ''Invalid header name''"
| "eio_error_display (InvalidHeaderValueFromReqwest t) = ''Invalid header value''"
| "eio_error_display PingTimeout = ''The server did not send a PING packet in time''"

text \<open>A Rust \<open>char\<close> is kept as the UTF-8 bytes it prints as.\<close>

datatype sio_error =
    SioInvalidPacketId bytes
  | SioIncompletePacket
  | SioInvalidPacket
  | SioInvalidUtf8 bytes
  | SioInvalidBase64 bytes
  | SioInvalidUrl bytes
  | SioInvalidUrlScheme bytes
  | SioInvalidHandshake bytes
  | SioIllegalActionBeforeOpen
  | SioInvalidJson bytes
  | SioInvalidPoisonedLock
  | SioIncompleteIo bytes
  | SioInvalidInteger bytes
  | SioIncompleteResponseFromEngineIo eio_error
  | SioInvalidAttachmentPacketType u8
  | SioStoppedEngineIoSocket

fun sio_error_display :: "sio_error \<Rightarrow> bytes" where
  "sio_error_display (SioInvalidPacketId c) = ''Invalid packet id: '' @ c"
| "sio_error_display SioIncompletePacket = ''Error while parsing an incomplete packet''"
| "sio_error_display SioInvalidPacket =
     ''Got an invalid packet which did not follow the protocol format''"
| "sio_error_display (SioInvalidUtf8 t) = ''An error occurred while decoding the utf-8 text: '' @ t"
| "sio_error_display (SioInvalidBase64 t) =
     ''An error occurred while encoding/decoding base64: '' @ t"
| "sio_error_display (SioInvalidUrl t) = ''Invalid Url during parsing''"
| "sio_error_display (SioInvalidUrlScheme t) = ''Invalid Url Scheme: '' @ t"
| "sio_error_display (SioInvalidHandshake t) = ''Got illegal handshake response: '' @ t"
| "sio_error_display SioIllegalActionBeforeOpen =
     ''Called an action before the connection was established''"
| "sio_error_display (SioInvalidJson t) = ''string is not json serializable: '' @ t"
| "sio_error_display SioInvalidPoisonedLock = ''A lock was poisoned''"
| "sio_error_display (SioIncompleteIo t) = ''Got an IO-Error: '' @ t"
| "sio_error_display (SioInvalidInteger t) = ''Error while parsing an integer''"
| "sio_error_display (SioIncompleteResponseFromEngineIo e) = ''EngineIO Error''"
| "sio_error_display (SioInvalidAttachmentPacketType b) =
     ''Invalid packet type while reading attachments''"
| "sio_error_display SioStoppedEngineIoSocket = ''Underlying Engine.IO connection has closed''"

text \<open>The errors after which the synchronous reader reconnects (see \<open>Sio_Client\<close>).\<close>

fun is_engineio_error :: "sio_error \<Rightarrow> bool" where
  "is_engineio_error (SioIncompleteResponseFromEngineIo e) = True"
| "is_engineio_error e = False"

section \<open>Conversions\<close>

text \<open>
  A caller may turn both errors into a \<open>std::io::Error\<close>: its kind is \<open>Other\<close> and the error is kept
  inside, so it displays the same text.
\<close>

datatype io_error_kind = IoOther | IoTimedOut

datatype 'e io_error = IoError (io_kind: io_error_kind) (io_inner: 'e)

definition io_other :: "'e \<Rightarrow> 'e io_error" where
  "io_other e = IoError IoOther e"

definition io_error_from_eio :: "eio_error \<Rightarrow> eio_error io_error" where
  "io_error_from_eio err = io_other err"

definition io_error_from_sio :: "sio_error \<Rightarrow> sio_error io_error" where
  "io_error_from_sio err = io_other err"

definition io_error_display :: "('e \<Rightarrow> bytes) \<Rightarrow> 'e io_error \<Rightarrow> bytes" where
  "io_error_display disp e = disp (io_inner e)"

text \<open>
  An engine error that becomes an \<open>io::Error\<close> and is wrapped by \<open>IncompleteIo\<close> again displays its own
  text behind the prefix of the wrapper.
\<close>

lemma incomplete_io_wraps:
  "eio_error_display (IncompleteIo (io_error_display eio_error_display (io_error_from_eio e))) =
    ''Got an IO-Error: '' @ eio_error_display e"
  by (simp add: io_error_display_def io_error_from_eio_def io_other_def)

text \<open>A poisoned lock is the same variant in both crates, whatever the guard was.\<close>

definition eio_error_from_poison :: "'g \<Rightarrow> eio_error" where
  "eio_error_from_poison g = InvalidPoisonedLock"

definition sio_error_from_poison :: "'g \<Rightarrow> sio_error" where
  "sio_error_from_poison g = SioInvalidPoisonedLock"

end
