(* ===== verification/Sio_Event.thy ===== *)
theory Sio_Event
  imports Errors "HOL-Library.Char_ord" "HOL-Library.List_Lexorder"
begin

text \<open>
  \<open>socketio/src/event.rs\<close>: events and the reasons of a close. The constructors carry the prefix
  \<open>Ev\<close>, because other enumerations of the program use the same names.
\<close>

datatype event = EvMessage | EvError | EvCustom bytes | EvConnect | EvClose

definition event_as_str :: "event \<Rightarrow> bytes" where
  "event_as_str e = (case e of EvMessage \<Rightarrow> ''message'' | EvError \<Rightarrow> ''error''
     | EvConnect \<Rightarrow> ''connect'' | EvClose \<Rightarrow> ''close'' | EvCustom s \<Rightarrow> s)"

definition event_from :: "bytes \<Rightarrow> event" where
  "event_from s =
     (let l = to_lowercase s in
      if l = ''message'' then EvMessage
      else if l = ''error'' then EvError
      else if l = ''open'' then EvConnect
      else if l = ''close'' then EvClose
      else EvCustom s)"

definition event_into_string :: "event \<Rightarrow> bytes" where
  "event_into_string e = (case e of EvMessage \<Rightarrow> ''message'' | EvConnect \<Rightarrow> ''open''
     | EvClose \<Rightarrow> ''close'' | EvError \<Rightarrow> ''error'' | EvCustom s \<Rightarrow> s)"

definition event_display :: "event \<Rightarrow> bytes" where
  "event_display e = event_as_str e"

datatype close_reason = IOServerDisconnect | IOClientDisconnect | TransportClose

definition close_reason_as_str :: "close_reason \<Rightarrow> bytes" where
  "close_reason_as_str r = (case r of IOServerDisconnect \<Rightarrow> ''io server disconnect''
     | IOClientDisconnect \<Rightarrow> ''io client disconnect'' | TransportClose \<Rightarrow> ''transport close'')"

definition close_reason_into_string :: "close_reason \<Rightarrow> bytes" where
  "close_reason_into_string r = close_reason_as_str r"

definition close_reason_display :: "close_reason \<Rightarrow> bytes" where
  "close_reason_display r = close_reason_as_str r"

definition event_from_str :: "bytes \<Rightarrow> event" where
  "event_from_str s = event_from s"

lemma ascii_lower_simps:
  "event_from ''message'' = EvMessage" "event_from ''error'' = EvError"
  "event_from ''open'' = EvConnect" "event_from ''close'' = EvClose"
  "event_from ''connect'' = EvCustom ''connect''"
  by (simp_all add: event_from_def ascii_lower_def)

text \<open>A custom event whose lower case is a reserved name is not one: the parser never makes it.\<close>

definition event_wf :: "event \<Rightarrow> bool" where
  "event_wf e \<longleftrightarrow> (\<forall>s. e = EvCustom s \<longrightarrow>
     to_lowercase s \<notin> {''message'', ''error'', ''open'', ''close''})"

lemma event_from_wf: "event_wf (event_from s)"
  by (auto simp: event_wf_def event_from_def Let_def split: if_splits)

lemma event_from_into: "event_wf e \<Longrightarrow> event_from (event_into_string e) = e"
  by (cases e)
     (simp_all add: event_into_string_def ascii_lower_simps,
      simp add: event_from_def event_wf_def Let_def)

text \<open>
  Parsing inverts \<open>String::from\<close> on every event the parser can make, but not \<open>as_str\<close>: the
  connect event prints as a name that parses as a custom event.
\<close>

lemma event_string_roundtrip:
  "(event_wf e \<longrightarrow> event_from (event_into_string e) = e) \<and>
   event_wf (event_from s) \<and>
   event_from (event_as_str EvConnect) = EvCustom ''connect''"
  by (simp add: event_from_into event_from_wf event_as_str_def ascii_lower_simps)

section \<open>The derived orders\<close>

text \<open>
  Both enumerations derive \<open>PartialOrd\<close>: by the position of the variant, then by its field, a string,
  which is compared byte by byte.
\<close>

primrec event_variant :: "event \<Rightarrow> nat" where
  "event_variant EvMessage = 0"
| "event_variant EvError = 1"
| "event_variant (EvCustom s) = 2"
| "event_variant EvConnect = 3"
| "event_variant EvClose = 4"

primrec event_field :: "event \<Rightarrow> bytes" where
  "event_field EvMessage = []"
| "event_field EvError = []"
| "event_field (EvCustom s) = s"
| "event_field EvConnect = []"
| "event_field EvClose = []"

lemma event_key_inject: "event_variant a = event_variant b \<Longrightarrow> event_field a = event_field b \<Longrightarrow> a = b"
  by (cases a; cases b) simp_all

instantiation event :: linorder
begin

definition less_event :: "event \<Rightarrow> event \<Rightarrow> bool" where
  "less_event a b \<longleftrightarrow> event_variant a < event_variant b \<or>
     (event_variant a = event_variant b \<and> event_field a < event_field b)"

definition less_eq_event :: "event \<Rightarrow> event \<Rightarrow> bool" where
  "less_eq_event a b \<longleftrightarrow> event_variant a < event_variant b \<or>
     (event_variant a = event_variant b \<and> event_field a \<le> event_field b)"

instance
  by standard (auto simp: less_event_def less_eq_event_def intro: event_key_inject)

end

primrec close_reason_variant :: "close_reason \<Rightarrow> nat" where
  "close_reason_variant IOServerDisconnect = 0"
| "close_reason_variant IOClientDisconnect = 1"
| "close_reason_variant TransportClose = 2"

lemma close_reason_variant_inject: "close_reason_variant a = close_reason_variant b \<Longrightarrow> a = b"
  by (cases a; cases b) simp_all

instantiation close_reason :: linorder
begin

definition less_close_reason :: "close_reason \<Rightarrow> close_reason \<Rightarrow> bool" where
  "less_close_reason a b \<longleftrightarrow> close_reason_variant a < close_reason_variant b"

definition less_eq_close_reason :: "close_reason \<Rightarrow> close_reason \<Rightarrow> bool" where
  "less_eq_close_reason a b \<longleftrightarrow> close_reason_variant a \<le> close_reason_variant b"

instance
  by standard (auto simp: less_close_reason_def less_eq_close_reason_def intro: close_reason_variant_inject)

end

text \<open>Events sort as their names do among the custom ones, which lie between the error and the connect event.\<close>

lemma custom_events_between:
  "EvError < EvCustom s" "EvCustom s < EvConnect" "EvCustom s \<le> EvCustom t \<longleftrightarrow> s \<le> t"
  by (simp_all add: less_event_def less_eq_event_def)

end
