(* ===== verification/Sio_Payload.thy ===== *)
theory Sio_Payload
  imports Json Sio_Event
begin

text \<open>\<open>socketio/src/payload.rs\<close>: what the callbacks and \<open>emit\<close> carry, with the id to acknowledge.\<close>

datatype payload =
    PBinary bytes "i32 option"
  | PText "json list" "i32 option"
  | PString bytes "i32 option"

datatype payload_content = DBinary bytes | DText "json list" | DString bytes

definition string_to_value :: "json_lib \<Rightarrow> bytes \<Rightarrow> json" where
  "string_to_value J s = (case json_from_str J s of Inr v \<Rightarrow> v | Inl e \<Rightarrow> JString s)"

fun with_ack_id :: "payload \<Rightarrow> i32 \<Rightarrow> payload" where
  "with_ack_id (PBinary d i) a = PBinary d (Some a)"
| "with_ack_id (PText d i) a = PText d (Some a)"
| "with_ack_id (PString d i) a = PString d (Some a)"

fun ack_id :: "payload \<Rightarrow> i32 option" where
  "ack_id (PBinary d i) = i"
| "ack_id (PText d i) = i"
| "ack_id (PString d i) = i"

fun set_ack_id :: "i32 option \<Rightarrow> payload \<Rightarrow> payload" where
  "set_ack_id a (PBinary d i) = PBinary d a"
| "set_ack_id a (PText d i) = PText d a"
| "set_ack_id a (PString d i) = PString d a"

fun payload_data :: "payload \<Rightarrow> payload_content" where
  "payload_data (PBinary d i) = DBinary d"
| "payload_data (PText d i) = DText d"
| "payload_data (PString d i) = DString d"

definition payload_from_string :: "json_lib \<Rightarrow> bytes \<Rightarrow> payload" where
  "payload_from_string J s = PText [string_to_value J s] None"

definition payload_from_str :: "json_lib \<Rightarrow> bytes \<Rightarrow> payload" where
  "payload_from_str J s = payload_from_string J s"

definition payload_from_strings :: "json_lib \<Rightarrow> bytes list \<Rightarrow> payload" where
  "payload_from_strings J ss = PText (map (string_to_value J) ss) None"

definition payload_from_values :: "json list \<Rightarrow> payload" where
  "payload_from_values vs = PText vs None"

definition payload_from_value :: "json \<Rightarrow> payload" where
  "payload_from_value v = PText [v] None"

definition payload_from_vec :: "bytes \<Rightarrow> payload" where
  "payload_from_vec d = PBinary d None"

definition payload_from_slice :: "bytes \<Rightarrow> payload" where
  "payload_from_slice d = PBinary d None"

definition payload_from_bytes :: "bytes \<Rightarrow> payload" where
  "payload_from_bytes d = PBinary d None"

lemma ack_id_set [simp]: "ack_id (set_ack_id a p) = a" "payload_data (set_ack_id a p) = payload_data p"
  by (cases p; simp)+

lemma with_ack_id_set: "with_ack_id p a = set_ack_id (Some a) p"
  by (cases p) auto

lemma set_ack_id_set [simp]: "set_ack_id a (set_ack_id b p) = set_ack_id a p"
  by (cases p) auto

lemma payload_eq_iff: "p = q \<longleftrightarrow> payload_data p = payload_data q \<and> ack_id p = ack_id q"
  by (cases p; cases q) auto

end
