(* ===== verification/Codec.thy ===== *)
theory Codec
  imports Std_Str
begin

text \<open>
  The contract of a wire format: what an encoder writes, its decoder reads back. Both packet
  formats of the program provide it (\<open>Eio_Packet\<close>, \<open>Sio_Packet\<close>); \<open>framed_codec\<close> is the extension
  whose encodings can be chained with a separator byte, which the engine.io payload relies on.
\<close>

locale wire_codec =
  fixes enc :: "'a \<Rightarrow> bytes"
    and dec :: "bytes \<Rightarrow> ('e, 'a) outcome"
    and wf :: "'a \<Rightarrow> bool"
  assumes dec_enc: "wf a \<Longrightarrow> dec (enc a) = Ok a"
begin

lemma enc_inj: "wf a \<Longrightarrow> wf b \<Longrightarrow> enc a = enc b \<Longrightarrow> a = b"
  by (metis dec_enc outcome.inject(1))

lemma dec_enc_list: "list_all wf as \<Longrightarrow> collect_results (map (\<lambda>a. dec (enc a)) as) = Ok as"
  by (induction as) (auto simp: dec_enc)

end

locale framed_codec = wire_codec enc dec wf
  for enc :: "'a \<Rightarrow> bytes" and dec :: "bytes \<Rightarrow> ('e, 'a) outcome" and wf :: "'a \<Rightarrow> bool" +
  fixes sep :: char
  assumes enc_no_sep: "wf a \<Longrightarrow> sep \<notin> set (enc a)"
begin

lemma split_frames:
  assumes "as \<noteq> []" and "list_all wf as"
  shows "split_on sep (join_with sep (map enc as)) = map enc as"
  using assms by (intro split_on_join) (auto simp: list_all_iff enc_no_sep)

lemma dec_frames:
  assumes "as \<noteq> []" and "list_all wf as"
  shows "collect_results (map dec (split_on sep (join_with sep (map enc as)))) = Ok as"
  unfolding split_frames [OF assms] map_map comp_def by (rule dec_enc_list [OF assms(2)])

lemma frames_inj:
  assumes "as \<noteq> []" "list_all wf as" "bs \<noteq> []" "list_all wf bs"
    and "join_with sep (map enc as) = join_with sep (map enc bs)"
  shows "as = bs"
  using dec_frames [OF assms(1,2)] dec_frames [OF assms(3,4)] unfolding assms(5)
  by (metis outcome.inject(1))

end

text \<open>
  The buffer an encoder builds by writing a separator after every frame and dropping the last
  byte is the joined one.
\<close>

lemma join_with_trailing [std_simps]:
  "ss \<noteq> [] \<Longrightarrow> concat (map (\<lambda>s. s @ [c]) ss) = join_with c ss @ [c]"
  by (induction c ss rule: join_with.induct) auto

end
