(* ===== verification/Sio_Packet.thy ===== *)
theory Sio_Packet
  imports Sio_Payload Codec
begin

text \<open>
  \<open>socketio/src/packet.rs\<close>: the socket.io packet, its constructors for \<open>emit\<close> and for
  acknowledgements, and its text format. \<open>J\<close> is the JSON library; \<open>oc\<close> says whether the build
  checks integer overflow (a debug build panics, a release build wraps).
\<close>

datatype sio_packet_id = Connect | Disconnect | Event | Ack | ConnectError | BinaryEvent | BinaryAck

record sio_packet =
  packet_type :: sio_packet_id
  pkt_nsp :: bytes
  pkt_data :: "bytes option"
  pkt_id :: "i32 option"
  attachment_count :: u8
  attachments :: "bytes list option"

definition sio_packet_new ::
  "sio_packet_id \<Rightarrow> bytes \<Rightarrow> bytes option \<Rightarrow> i32 option \<Rightarrow> u8 \<Rightarrow> bytes list option \<Rightarrow> sio_packet" where
  "sio_packet_new t n d i c a =
     \<lparr>packet_type = t, pkt_nsp = n, pkt_data = d, pkt_id = i, attachment_count = c, attachments = a\<rparr>"

definition sio_packet_default :: sio_packet where
  "sio_packet_default = sio_packet_new Event ''/'' None None 0 None"

subsection \<open>Packets for a payload\<close>

definition json_is_valid :: "json_lib \<Rightarrow> bytes \<Rightarrow> bool" where
  "json_is_valid J s = (json_valid J s = Inr ())"

fun new_from_payload ::
  "json_lib \<Rightarrow> payload \<Rightarrow> event \<Rightarrow> bytes \<Rightarrow> i32 option \<Rightarrow> (sio_error, sio_packet) outcome" where
  "new_from_payload J (PBinary d a) e n i =
     Ok (sio_packet_new (if i \<noteq> None then BinaryAck else BinaryEvent) n
           (Some (json_to_string J (JString (event_into_string e)))) i 1 (Some [d]))"
| "new_from_payload J (PString s a) e n i =
     (let p = (if json_is_valid J s then ''['' @ quoted (event_display e) @ '','' @ s @ '']''
               else ''['' @ quoted (event_display e) @ '','' @ quoted s @ '']'')
      in Ok (sio_packet_new Event n (Some p) i 0 None))"
| "new_from_payload J (PText vs a) e n i =
     (let args = [JString (event_display e)] @ vs
      in Ok (sio_packet_new Event n (Some (json_to_string J (JArray args))) i 0 None))"

fun ack_from_payload ::
  "json_lib \<Rightarrow> payload \<Rightarrow> bytes \<Rightarrow> i32 option \<Rightarrow> (sio_error, sio_packet) outcome" where
  "ack_from_payload J (PBinary d a) n i = Ok (sio_packet_new BinaryAck n None i 1 (Some [d]))"
| "ack_from_payload J (PString s a) n i =
     (let p = (if json_is_valid J s then ''['' @ s @ '']'' else ''['' @ quoted s @ '']'')
      in Ok (sio_packet_new Ack n (Some p) i 0 None))"
| "ack_from_payload J (PText vs a) n i =
     Ok (sio_packet_new Ack n (Some (json_to_string J (JArray vs))) i 0 None)"

subsection \<open>Packet ids\<close>

text \<open>A \<open>char\<close> is its UTF-8 bytes; \<open>b as char\<close> of a byte above 127 is a two-byte scalar.\<close>

definition sio_packet_id_try_from_char :: "bytes \<Rightarrow> (sio_error, sio_packet_id) outcome" where
  "sio_packet_id_try_from_char c =
     (if c = ''0'' then Ok Connect
      else if c = ''1'' then Ok Disconnect
      else if c = ''2'' then Ok Event
      else if c = ''3'' then Ok Ack
      else if c = ''4'' then Ok ConnectError
      else if c = ''5'' then Ok BinaryEvent
      else if c = ''6'' then Ok BinaryAck
      else Err (SioInvalidPacketId c))"

definition latin1_char :: "u8 \<Rightarrow> bytes" where
  "latin1_char b = (let n = unat b in
     if n < 128 then [char_of n] else [char_of (192 + n div 64), char_of (128 + n mod 64)])"

definition sio_packet_id_try_from_u8 :: "u8 \<Rightarrow> (sio_error, sio_packet_id) outcome" where
  "sio_packet_id_try_from_u8 b = sio_packet_id_try_from_char (latin1_char b)"

fun sio_packet_id_digit :: "sio_packet_id \<Rightarrow> char" where
  "sio_packet_id_digit Connect = CHR ''0''"
| "sio_packet_id_digit Disconnect = CHR ''1''"
| "sio_packet_id_digit Event = CHR ''2''"
| "sio_packet_id_digit Ack = CHR ''3''"
| "sio_packet_id_digit ConnectError = CHR ''4''"
| "sio_packet_id_digit BinaryEvent = CHR ''5''"
| "sio_packet_id_digit BinaryAck = CHR ''6''"

definition is_binary_type :: "sio_packet_id \<Rightarrow> bool" where
  "is_binary_type t \<longleftrightarrow> t = BinaryAck \<or> t = BinaryEvent"

subsection \<open>Encoding\<close>

definition placeholder :: "bytes \<Rightarrow> bytes" where
  "placeholder n = ''{\"_placeholder\":true,\"num\":'' @ n @ ''}''"

text \<open>\<open>packet.attachment_count - 1\<close> on \<open>u8\<close>.\<close>

definition last_attachment :: "bool \<Rightarrow> u8 \<Rightarrow> (sio_error, u8) outcome" where
  "last_attachment oc c = (if oc \<and> c = 0 then Panic else Ok (c - 1))"

definition sio_packet_body :: "bool \<Rightarrow> sio_packet \<Rightarrow> (sio_error, bytes) outcome" where
  "sio_packet_body oc p =
     (if attachments p \<noteq> None
      then and_then (last_attachment oc (attachment_count p)) (\<lambda>n.
             let h = placeholder (show_nat (unat n)) in
             case pkt_data p of
               Some e \<Rightarrow> Ok (''['' @ e @ '','' @ h @ '']'')
             | None \<Rightarrow> Ok (''['' @ h @ '']''))
      else (case pkt_data p of Some d \<Rightarrow> Ok d | None \<Rightarrow> Ok ''''))"

definition sio_packet_into_bytes :: "bool \<Rightarrow> sio_packet \<Rightarrow> (sio_error, bytes) outcome" where
  "sio_packet_into_bytes oc p =
     and_then (sio_packet_body oc p) (\<lambda>body.
       Ok ([sio_packet_id_digit (packet_type p)]
           @ (if is_binary_type (packet_type p)
              then show_nat (unat (attachment_count p)) @ ''-'' else '''')
           @ (if pkt_nsp p \<noteq> ''/'' then pkt_nsp p @ '','' else '''')
           @ (case pkt_id p of Some i \<Rightarrow> show_i32 i | None \<Rightarrow> '''')
           @ body))"

subsection \<open>Decoding\<close>

definition decode_attachments ::
  "sio_packet_id \<Rightarrow> bytes \<Rightarrow> (sio_error, u8 \<times> bytes) outcome" where
  "decode_attachments t s =
     (if is_binary_type t
      then and_then (ok_or (split_once CHR ''-'' s) SioIncompletePacket) (\<lambda>(pre, rest).
             and_then (ok_or (parse_u8 pre) SioInvalidPacket) (\<lambda>n. Ok (n, rest)))
      else Ok (0, s))"

definition decode_nsp :: "bytes \<Rightarrow> (sio_error, bytes \<times> bytes) outcome" where
  "decode_nsp s =
     (if starts_with_char CHR ''/'' s
      then ok_or (split_once CHR '','' s) SioIncompletePacket
      else Ok (''/'', s))"

definition decode_id :: "nat \<Rightarrow> bytes \<Rightarrow> (sio_error, i32 option \<times> bytes) outcome" where
  "decode_id k s =
     (if k > 0
      then and_then (str_slice 0 k s) (\<lambda>pre. and_then (str_slice k (length s) s) (\<lambda>rest.
             and_then (ok_or (parse_i32 pre) SioInvalidPacket) (\<lambda>i. Ok (Some i, rest))))
      else Ok (None, s))"

definition strip_placeholder :: "bytes \<Rightarrow> (sio_error, bytes option) outcome" where
  "strip_placeholder s =
     and_then (if starts_with_char CHR ''['' s \<and> ends_with_char CHR '']'' s
               then str_slice 1 (length s - 1) s else Ok s) (\<lambda>s1.
       let s2 = replace_all (placeholder ''0'') '''' s1;
           s3 = (if ends_with_char CHR '','' s2 then butlast s2 else s2)
       in Ok (if s3 \<noteq> '''' then Some s3 else None))"

definition sio_packet_try_from :: "json_lib \<Rightarrow> bytes \<Rightarrow> (sio_error, sio_packet) outcome" where
  "sio_packet_try_from J bs =
    (if \<not> utf8_valid bs then Err (SioInvalidUtf8 (utf8_error_text bs))
     else and_then (ok_or (utf8_next bs) SioIncompletePacket) (\<lambda>(u, s0).
       let k = length bs - length s0 in
       and_then (sio_packet_id_try_from_char (take k bs)) (\<lambda>t.
       and_then (str_slice k (length bs) bs) (\<lambda>s0.
       and_then (decode_attachments t s0) (\<lambda>(c, s1).
       and_then (decode_nsp s1) (\<lambda>(n, s2).
         case find_non_digit s2 of
           None \<Rightarrow> Ok (sio_packet_new t n None None c None)
         | Some k \<Rightarrow>
             and_then (decode_id k s2) (\<lambda>(i, s3).
             and_then (from_ext SioInvalidJson (json_valid J s3)) (\<lambda>_.
               if is_binary_type t
               then and_then (strip_placeholder s3) (\<lambda>d. Ok (sio_packet_new t n d i c None))
               else Ok (sio_packet_new t n (Some s3) i c None)))))))))"

subsection \<open>The slices are in range\<close>

text \<open>
  The decoder cuts its text at the end of the first scalar, behind the digits of the id and inside the
  brackets of a binary packet. Each offset is a boundary of valid UTF-8, so no slice panics; without
  the slices' checks the decoder reads as follows.
\<close>

definition body_of_binary :: "bytes \<Rightarrow> bytes option" where
  "body_of_binary s =
     (let s1 = (if starts_with_char CHR ''['' s \<and> ends_with_char CHR '']'' s
                then take (length s - 2) (drop 1 s) else s);
          s2 = replace_all (placeholder ''0'') '''' s1;
          s3 = (if ends_with_char CHR '','' s2 then butlast s2 else s2)
      in if s3 \<noteq> '''' then Some s3 else None)"

definition id_of_digits :: "nat \<Rightarrow> bytes \<Rightarrow> (sio_error, i32 option \<times> bytes) outcome" where
  "id_of_digits k s =
     (if k > 0
      then and_then (ok_or (parse_i32 (take k s)) SioInvalidPacket) (\<lambda>i. Ok (Some i, drop k s))
      else Ok (None, s))"

lemma brackets_ascii: "is_ascii CHR ''[''" "is_ascii CHR '']''"
  by (simp_all add: is_ascii_def)

lemma strip_placeholder_in_range:
  assumes "utf8_valid s"
  shows "strip_placeholder s = Ok (body_of_binary s)"
proof (cases "starts_with_char CHR ''['' s \<and> ends_with_char CHR '']'' s")
  case True
  then obtain t where t: "s = CHR ''['' # t" "last s = CHR '']''" by (auto simp: starts_with_char_iff ends_with_char_def)
  then have "t \<noteq> []" by auto
  with t obtain u where u: "s = CHR ''['' # u @ CHR '']'' # []" by (metis append_butlast_last_id last_ConsR)
  have "utf8_valid (u @ [CHR '']''])" using assms u brackets_ascii by simp
  with u brackets_ascii have "char_boundary s 1" by (intro char_boundary_head) simp_all
  moreover have "char_boundary s (length s - 1)"
    using u brackets_ascii by (simp add: char_boundary_def ascii_not_cont nth_append)
  ultimately have "(str_slice 1 (length s - 1) s :: (sio_error, bytes) outcome) = Ok (take (length s - 2) (drop 1 s))"
    using u by (simp add: str_slice_Ok)
  with True show ?thesis by (simp add: strip_placeholder_def body_of_binary_def Let_def)
next
  case False
  then show ?thesis unfolding strip_placeholder_def body_of_binary_def if_not_P [OF False] by (simp add: Let_def)
qed

lemma decode_id_in_range:
  assumes "utf8_valid s" and "find_non_digit s = Some k"
  shows "decode_id k s = id_of_digits k s" and "utf8_valid (drop k s)"
proof -
  from assms(2) have k: "k < length s" "list_all is_ascii (take k s)"
    using find_non_digit_Some [of s k] by (auto simp: list_all_iff digit_is_ascii)
  with assms(1) utf8_valid_ascii_append [of "take k s" "drop k s"] show v: "utf8_valid (drop k s)" by simp
  with k have "char_boundary s k" by (intro char_boundary_head) simp_all
  with k show "decode_id k s = id_of_digits k s" by (simp add: decode_id_def id_of_digits_def str_slice_Ok)
qed

lemma split_once_valid:
  assumes "utf8_valid s" and "split_once c s = Some (a, b)" and "is_ascii c"
  shows "utf8_valid b"
proof -
  have "s = a @ c # b" using assms(2)
    by (induction c s arbitrary: a rule: split_once.induct) (auto split: if_splits option.splits)
  with assms(1,3) utf8_valid_behind show ?thesis by blast
qed

lemma decode_parts_valid:
  assumes "utf8_valid s"
  shows "decode_attachments t s = Ok (c, r) \<Longrightarrow> utf8_valid r" and "decode_nsp s = Ok (n, r) \<Longrightarrow> utf8_valid r"
proof -
  have signs: "is_ascii CHR ''-''" "is_ascii CHR '',''" by (simp_all add: is_ascii_def)
  show "decode_attachments t s = Ok (c, r) \<Longrightarrow> utf8_valid r" "decode_nsp s = Ok (n, r) \<Longrightarrow> utf8_valid r"
    using split_once_valid [OF assms _ signs(1)] split_once_valid [OF assms _ signs(2)] assms
    by (auto simp: decode_attachments_def decode_nsp_def and_then_Ok_iff ok_or_Ok_iff split: if_splits)
qed

lemma first_slice_in_range:
  assumes "utf8_valid bs" and "utf8_next bs = Some (u, s0)"
  shows "str_slice (length bs - length s0) (length bs) bs = Ok s0" and "utf8_valid s0"
proof -
  show v: "utf8_valid s0" using assms by (rule utf8_valid_next)
  obtain c ps where "bs = (c # ps) @ s0" using assms(2) by (auto elim: utf8_next_shape)
  moreover from this v have "char_boundary bs (length bs - length s0)" by (intro char_boundary_head) simp_all
  ultimately show "str_slice (length bs - length s0) (length bs) bs = Ok s0"
    by (subst str_slice_Ok) (simp_all add: char_boundary_def)
qed

lemma text_part_in_range:
  assumes "utf8_valid s"
  shows "(case find_non_digit s of
      None \<Rightarrow> Ok (sio_packet_new t n None None c None)
    | Some k \<Rightarrow> and_then (decode_id k s) (\<lambda>(i, s3).
        and_then (from_ext SioInvalidJson (json_valid J s3)) (\<lambda>_.
          if is_binary_type t
          then and_then (strip_placeholder s3) (\<lambda>d. Ok (sio_packet_new t n d i c None))
          else Ok (sio_packet_new t n (Some s3) i c None)))) =
    (case find_non_digit s of
      None \<Rightarrow> Ok (sio_packet_new t n None None c None)
    | Some k \<Rightarrow> and_then (id_of_digits k s) (\<lambda>(i, s3).
        and_then (from_ext SioInvalidJson (json_valid J s3)) (\<lambda>_.
          if is_binary_type t then Ok (sio_packet_new t n (body_of_binary s3) i c None)
          else Ok (sio_packet_new t n (Some s3) i c None))))"
proof (cases "find_non_digit s")
  case (Some k)
  have digits: "utf8_valid s3" if "id_of_digits k s = Ok (i, s3)" for i s3
    using that decode_id_in_range(2) [OF assms Some] assms
    by (auto simp: id_of_digits_def and_then_Ok_iff split: if_splits)
  show ?thesis
    unfolding Some option.case decode_id_in_range(1) [OF assms Some]
  proof (rule and_then_cong [OF refl], clarify)
    fix i s3
    assume "id_of_digits k s = Ok (i, s3)"
    from strip_placeholder_in_range [OF digits [OF this]]
    show "and_then (from_ext SioInvalidJson (json_valid J s3)) (\<lambda>_.
          if is_binary_type t
          then and_then (strip_placeholder s3) (\<lambda>d. Ok (sio_packet_new t n d i c None))
          else Ok (sio_packet_new t n (Some s3) i c None)) =
        and_then (from_ext SioInvalidJson (json_valid J s3)) (\<lambda>_.
          if is_binary_type t then Ok (sio_packet_new t n (body_of_binary s3) i c None)
          else Ok (sio_packet_new t n (Some s3) i c None))" by simp
  qed
qed simp

lemma sio_packet_try_from_in_range:
  "sio_packet_try_from J bs =
    (if \<not> utf8_valid bs then Err (SioInvalidUtf8 (utf8_error_text bs))
     else and_then (ok_or (utf8_next bs) SioIncompletePacket) (\<lambda>(u, s0).
       and_then (sio_packet_id_try_from_char (take (length bs - length s0) bs)) (\<lambda>t.
       and_then (decode_attachments t s0) (\<lambda>(c, s1).
       and_then (decode_nsp s1) (\<lambda>(n, s2).
         case find_non_digit s2 of
           None \<Rightarrow> Ok (sio_packet_new t n None None c None)
         | Some k \<Rightarrow>
             and_then (id_of_digits k s2) (\<lambda>(i, s3).
             and_then (from_ext SioInvalidJson (json_valid J s3)) (\<lambda>_.
               if is_binary_type t then Ok (sio_packet_new t n (body_of_binary s3) i c None)
               else Ok (sio_packet_new t n (Some s3) i c None))))))))"
proof (cases "utf8_valid bs")
  case True
  show ?thesis
  proof (cases "utf8_next bs")
    case (Some x)
    obtain u s0 where x: "x = (u, s0)" by fastforce
    note cut = first_slice_in_range [OF True Some [unfolded x]]
    have valid: "utf8_valid s2" if "decode_attachments t s0 = Ok (c, s1)" "decode_nsp s1 = Ok (n, s2)" for t c s1 n s2
      using decode_parts_valid cut(2) that by blast
    have "\<not> \<not> utf8_valid bs" using True by simp
    note start = this [THEN if_not_P]
    show ?thesis
      unfolding sio_packet_try_from_def Let_def Some x ok_or.simps and_then.simps prod.case cut(1) start
      by (rule and_then_cong [OF refl], rule and_then_cong [OF refl], clarify, rule and_then_cong [OF refl], clarify,
          rule text_part_in_range, erule (1) valid)
  qed (simp add: sio_packet_try_from_def)
qed (simp add: sio_packet_try_from_def)

subsection \<open>The text of a packet\<close>

text \<open>
  \<open>sio_text\<close> is the format without the checks of the encoder, for a packet in the form the decoder
  returns (no attachments yet): the reference the encoder and the decoder are compared with.
\<close>

definition id_text :: "i32 option \<Rightarrow> bytes" where
  "id_text i = (case i of Some n \<Rightarrow> show_i32 n | None \<Rightarrow> '''')"

definition sio_binary_body :: "bytes option \<Rightarrow> bytes" where
  "sio_binary_body d =
     (case d of Some e \<Rightarrow> ''['' @ e @ '','' @ placeholder ''0'' @ '']''
      | None \<Rightarrow> ''['' @ placeholder ''0'' @ '']'')"

definition sio_body :: "sio_packet \<Rightarrow> bytes" where
  "sio_body p =
     (if is_binary_type (packet_type p) then sio_binary_body (pkt_data p)
      else (case pkt_data p of Some d \<Rightarrow> d | None \<Rightarrow> ''''))"

definition sio_text :: "sio_packet \<Rightarrow> bytes" where
  "sio_text p =
     sio_packet_id_digit (packet_type p)
     # (if is_binary_type (packet_type p) then show_nat (unat (attachment_count p)) @ ''-'' else '''')
     @ (if pkt_nsp p \<noteq> ''/'' then pkt_nsp p @ '','' else '''')
     @ id_text (pkt_id p) @ sio_body p"

text \<open>
  The packets the format can carry. A namespace is \<open>/\<close> or starts with a slash and holds no comma,
  an id is not negative, and the data is JSON text that starts with neither a digit nor a slash.
  A binary packet has one attachment; its data does not hold the placeholder. A packet without
  data has no id: the decoder drops it (see \<open>digits_only_drops_id\<close>).
\<close>

definition nsp_ok :: "bytes \<Rightarrow> bool" where
  "nsp_ok n \<longleftrightarrow> utf8_valid n \<and> starts_with_char CHR ''/'' n \<and> CHR '','' \<notin> set n"

definition body_ok :: "json_lib \<Rightarrow> bytes \<Rightarrow> bool" where
  "body_ok J d \<longleftrightarrow> utf8_valid d \<and> json_valid J d = Inr () \<and>
     find_non_digit d = Some 0 \<and> \<not> starts_with_char CHR ''/'' d"

definition id_ok :: "i32 option \<Rightarrow> bool" where
  "id_ok i = (case i of None \<Rightarrow> True | Some n \<Rightarrow> 0 \<le> sint n)"

definition sio_packet_wf :: "json_lib \<Rightarrow> sio_packet \<Rightarrow> bool" where
  "sio_packet_wf J p \<longleftrightarrow>
     nsp_ok (pkt_nsp p) \<and> id_ok (pkt_id p) \<and> attachments p = None \<and>
     (if is_binary_type (packet_type p)
      then attachment_count p = 1 \<and> body_ok J (sio_binary_body (pkt_data p)) \<and>
        (case pkt_data p of None \<Rightarrow> True
         | Some e \<Rightarrow> e \<noteq> '''' \<and> \<not> contains_str (placeholder ''0'') e)
      else attachment_count p = 0 \<and>
        (case pkt_data p of None \<Rightarrow> pkt_id p = None | Some d \<Rightarrow> body_ok J d))"

text \<open>What the encoder is given for it: a binary packet still has its attachments.\<close>

definition sio_sendable :: "json_lib \<Rightarrow> sio_packet \<Rightarrow> bool" where
  "sio_sendable J p \<longleftrightarrow> sio_packet_wf J (p\<lparr>attachments := None\<rparr>) \<and>
     (attachments p \<noteq> None \<longleftrightarrow> is_binary_type (packet_type p))"

lemma show_nat_0 [simp]: "show_nat 0 = ''0''"
  by (subst show_nat.simps) (simp add: digit_char_def, code_simp)

lemma sio_into_bytes_text:
  assumes "sio_sendable J p"
  shows "sio_packet_into_bytes oc p = Ok (sio_text (p\<lparr>attachments := None\<rparr>))"
proof (cases "is_binary_type (packet_type p)")
  case True
  with assms have "attachments p \<noteq> None" "attachment_count p = 1"
    by (simp_all add: sio_sendable_def sio_packet_wf_def)
  with True show ?thesis
    by (cases "pkt_data p")
       (simp_all add: sio_packet_into_bytes_def sio_packet_body_def last_attachment_def Let_def
          sio_text_def id_text_def sio_body_def sio_binary_body_def)
next
  case False
  with assms have "attachments p = None" by (simp add: sio_sendable_def)
  with False show ?thesis
    by (cases "pkt_data p")
       (simp_all add: sio_packet_into_bytes_def sio_packet_body_def sio_text_def id_text_def sio_body_def)
qed

lemma sio_id_digit_facts [simp]:
  "sio_packet_id_try_from_char [sio_packet_id_digit t] = Ok t"
  "is_ascii (sio_packet_id_digit t)"
  by (cases t; simp add: sio_packet_id_try_from_char_def is_ascii_def)+

lemma decode_attachments_text [simp]:
  "decode_attachments t ((if is_binary_type t then show_nat (unat c) @ ''-'' else '''') @ s) =
     Ok (if is_binary_type t then c else 0, s)"
  by (simp add: decode_attachments_def)

lemma decode_nsp_text [simp]:
  assumes "nsp_ok n" and "\<not> starts_with_char CHR ''/'' s"
  shows "decode_nsp ((if n \<noteq> ''/'' then n @ '','' else '''') @ s) = Ok (n, s)"
proof (cases "n = ''/''")
  case False
  with assms show ?thesis by (auto simp: decode_nsp_def nsp_ok_def starts_with_char_iff)
qed (use assms in \<open>simp add: decode_nsp_def\<close>)

lemma id_text_digits [simp]: "id_ok i \<Longrightarrow> list_all is_ascii_digit (id_text i)"
  by (cases i) (auto simp: id_ok_def id_text_def show_i32_def)

lemma decode_id_text [simp]:
  "id_ok i \<Longrightarrow> id_of_digits (length (id_text i)) (id_text i @ s) = Ok (i, s)"
  by (cases i) (auto simp: id_ok_def id_text_def show_i32_def id_of_digits_def)

lemma contains_str_snoc:
  "contains_str pat (a @ [c]) \<Longrightarrow> contains_str pat a \<or> last pat = c"
proof (induction a)
  case (Cons x a)
  then have "prefix pat ((x # a) @ [c]) \<or> contains_str pat (a @ [c])" by simp
  with Cons.IH show ?case by (auto simp only: prefix_snoc contains_str.simps last_snoc)
qed (auto simp: prefix_Cons)

lemma placeholder_0: "\<exists>ps. placeholder ''0'' = CHR ''{'' # ps \<and> CHR ''{'' \<notin> set ps"
  by (simp add: placeholder_def)

lemma body_of_binary_text [simp]:
  assumes "case d of None \<Rightarrow> True | Some e \<Rightarrow> e \<noteq> '''' \<and> \<not> contains_str (placeholder ''0'') e"
  shows "body_of_binary (sio_binary_body d) = d"
proof -
  obtain ps where ps: "placeholder ''0'' = CHR ''{'' # ps" "CHR ''{'' \<notin> set ps"
    using placeholder_0 by blast
  have gone: "replace_all (placeholder ''0'') '''' (a @ placeholder ''0'') = a"
    if "\<not> contains_str (placeholder ''0'') a" for a
    using replace_all_last [of "CHR ''{''" ps a "''''"] that ps by simp
  have last: "last (placeholder ''0'') = CHR ''}''" by (simp add: placeholder_def)
  show ?thesis
  proof (cases d)
    case None
    with gone [of "''''"] ps show ?thesis
      by (simp add: body_of_binary_def sio_binary_body_def ends_with_char_def)
  next
    case (Some e)
    with assms have e: "e \<noteq> ''''" "\<not> contains_str (placeholder ''0'') e" by simp_all
    with contains_str_snoc [of "placeholder ''0''" e "CHR '',''"] last
    have "\<not> contains_str (placeholder ''0'') (e @ '','')" by auto
    from gone [OF this] e Some show ?thesis
      by (simp add: body_of_binary_def sio_binary_body_def ends_with_char_def)
  qed
qed

lemma starts_with_append: "starts_with_char c (a @ b) = (if a = [] then starts_with_char c b else starts_with_char c a)"
  by (cases a) auto

lemma id_text_no_slash [simp]: "id_ok i \<Longrightarrow> \<not> starts_with_char CHR ''/'' (id_text i)"
  by (cases i) (auto simp: id_text_def id_ok_def show_i32_def)

lemma digits_ascii: "list_all is_ascii_digit s \<Longrightarrow> list_all is_ascii s"
  by (auto simp: list_all_iff digit_is_ascii)

lemma utf8_valid_digits [simp]: "list_all is_ascii_digit a \<Longrightarrow> utf8_valid (a @ s) = utf8_valid s"
  by (simp add: digits_ascii)

lemma ascii_signs [simp]: "is_ascii CHR ''-''" "is_ascii CHR '',''"
  by (simp_all add: is_ascii_def)

lemma utf8_valid_nsp [simp]:
  "nsp_ok n \<Longrightarrow> utf8_valid ((if n \<noteq> ''/'' then n @ '','' else '''') @ s) = utf8_valid s"
  by (simp add: nsp_ok_def utf8_valid_append)

lemma sio_text_utf8:
  assumes "sio_packet_wf J p"
  shows "utf8_valid (sio_text p)"
proof -
  have body: "utf8_valid (sio_body p)"
    using assms by (auto simp: sio_packet_wf_def sio_body_def body_ok_def split: if_splits option.splits)
  have "utf8_valid ((if b then show_nat n @ ''-'' else '''') @ s) = utf8_valid s" for b n s
    by simp
  with body assms show ?thesis
    by (simp add: sio_text_def sio_packet_wf_def del: append_assoc)
qed

lemma sio_packet_dec_enc:
  assumes wf: "sio_packet_wf J p"
  shows "sio_packet_try_from J (sio_text p) = Ok p"
proof -
  let ?s = "id_text (pkt_id p) @ sio_body p"
  have nsp: "nsp_ok (pkt_nsp p)" and i: "id_ok (pkt_id p)" and a: "attachments p = None"
    using wf by (simp_all add: sio_packet_wf_def)
  have slash: "\<not> starts_with_char CHR ''/'' ?s"
    using wf i by (auto simp: starts_with_append sio_packet_wf_def sio_body_def body_ok_def
        split: if_splits option.splits)
  have head: "decode_attachments (packet_type p)
      ((if is_binary_type (packet_type p) then show_nat (unat (attachment_count p)) @ ''-'' else '''') @ s) =
      Ok (attachment_count p, s)" for s
    using wf by (simp add: sio_packet_wf_def)
  show ?thesis
  proof (cases "sio_body p = []")
    case True
    with wf have n: "pkt_data p = None" "pkt_id p = None" "\<not> is_binary_type (packet_type p)"
      by (auto simp: sio_packet_wf_def sio_body_def sio_binary_body_def body_ok_def
          split: if_splits option.splits)
    from decode_nsp_text [OF nsp, of "''''"]
    have "decode_nsp (if pkt_nsp p \<noteq> ''/'' then pkt_nsp p @ '','' else '''') = Ok (pkt_nsp p, '''')"
      by simp
    with True head a n sio_text_utf8 [OF wf] show ?thesis
      by (simp add: sio_text_def sio_packet_try_from_in_range id_text_def sio_packet_new_def
          split del: if_split del: append_assoc)
  next
    case False
    with wf have b: "body_ok J (sio_body p)"
      by (auto simp: sio_packet_wf_def sio_body_def split: if_splits option.splits)
    have "body_of_binary (sio_body p) = pkt_data p" if "is_binary_type (packet_type p)"
      using wf that by (simp add: sio_body_def sio_packet_wf_def)
    moreover have "Some (sio_body p) = pkt_data p" if "\<not> is_binary_type (packet_type p)"
      using False that by (simp add: sio_body_def split: option.splits)
    ultimately show ?thesis
      using head nsp a i b sio_text_utf8 [OF wf] slash
      by (simp add: sio_text_def sio_packet_try_from_in_range sio_packet_new_def body_ok_def
          del: append_assoc)
  qed
qed

text \<open>The packet format keeps the contract of \<open>Codec\<close>.\<close>

interpretation sio_codec: wire_codec sio_text "sio_packet_try_from J" "sio_packet_wf J" for J
  by unfold_locales (rule sio_packet_dec_enc)

lemma sio_packet_try_from_returned [simp]: "returned (sio_packet_try_from J bs)"
proof -
  have ext: "returned (from_ext f x)" for f x by (cases x) auto
  have opt: "returned (ok_or x e)" for x e by (cases x) auto
  have pid: "returned (sio_packet_id_try_from_char c)" for c
    by (simp add: sio_packet_id_try_from_char_def)
  have att: "returned (decode_attachments t s)" for t s
    by (auto simp: decode_attachments_def case_prod_beta intro!: and_then_returned opt)
  have nsp: "returned (decode_nsp s)" for s by (simp add: decode_nsp_def opt)
  have i: "returned (id_of_digits k s)" for k s
    by (auto simp: id_of_digits_def intro!: and_then_returned opt)
  show ?thesis
    unfolding sio_packet_try_from_in_range case_prod_beta
    by (auto intro!: and_then_returned ext opt pid att nsp i split: option.split)
qed

definition sio_packet_typed :: "json_lib \<Rightarrow> sio_packet \<Rightarrow> bool" where
  "sio_packet_typed J p \<longleftrightarrow> attachments p = None \<and>
     starts_with_char CHR ''/'' (pkt_nsp p) \<and> CHR '','' \<notin> set (pkt_nsp p) \<and>
     (is_binary_type (packet_type p) \<or>
        attachment_count p = 0 \<and> (case pkt_data p of Some s \<Rightarrow> json_is_valid J s | None \<Rightarrow> True))"

lemma split_once_head: "split_once c s = Some (a, b) \<Longrightarrow> s = a @ c # b \<and> c \<notin> set a"
  by (induction c s arbitrary: a rule: split_once.induct) (auto split: if_splits option.splits)

lemma decode_nsp_typed:
  "decode_nsp s = Ok (n, r) \<Longrightarrow> starts_with_char CHR ''/'' n \<and> CHR '','' \<notin> set n"
proof (cases "starts_with_char CHR ''/'' s")
  case True
  assume "decode_nsp s = Ok (n, r)"
  with True have "split_once CHR '','' s = Some (n, r)" by (simp add: decode_nsp_def)
  from split_once_head [OF this] True show ?thesis by (cases n) (auto simp: starts_with_char_iff)
qed (auto simp: decode_nsp_def)

lemma decode_attachments_typed: "decode_attachments t s = Ok (c, r) \<Longrightarrow> is_binary_type t \<or> c = 0"
  by (auto simp: decode_attachments_def split: if_splits)

subsection \<open>The properties of the format\<close>

text \<open>
  C10. Every sendable packet, of each of the seven types, survives encoding and decoding up to its
  attachments, which travel on their own; the build's overflow checks make no difference.
\<close>

theorem sio_packet_roundtrip:
  assumes "sio_sendable J p"
  shows "and_then (sio_packet_into_bytes oc p) (sio_packet_try_from J) = Ok (p\<lparr>attachments := None\<rparr>)"
  using sio_codec.dec_enc [of J "p\<lparr>attachments := None\<rparr>"] assms
  by (simp add: sio_into_bytes_text [OF assms] sio_sendable_def)

theorem sio_packet_roundtrip_witness:
  "and_then (sio_packet_into_bytes True
       (sio_packet_new BinaryEvent ''/admin'' (Some (quoted ''hello'')) (Some 456) 1 (Some [''x''])))
     (sio_packet_try_from plain_json_lib) =
   Ok (sio_packet_new BinaryEvent ''/admin'' (Some (quoted ''hello'')) (Some 456) 1 None)"
proof -
  have "sio_sendable plain_json_lib
      (sio_packet_new BinaryEvent ''/admin'' (Some (quoted ''hello'')) (Some 456) 1 (Some [''x'']))"
    by (simp add: sio_sendable_def sio_packet_wf_def sio_packet_new_def nsp_ok_def id_ok_def
        is_binary_type_def body_ok_def sio_binary_body_def quoted_def placeholder_def
        plain_json_lib_def is_ascii_def is_ascii_digit_def)
  from sio_packet_roundtrip [OF this, of True] show ?thesis
    by (simp add: sio_packet_new_def)
qed

text \<open>
  C30. The decoder is total and its packets are well typed: on any bytes it returns an error or a packet
  without attachments, whose namespace begins with a slash and has no comma, that announces
  attachments only if its type is binary, and whose text, if it is not, is JSON. It never panics: each slice it takes of its text is in range and
  at the boundary of a character.
\<close>

theorem sio_packet_try_from_typed:
  "case sio_packet_try_from J bs of Ok p \<Rightarrow> sio_packet_typed J p | Err e \<Rightarrow> True | _ \<Rightarrow> False"
proof (cases "sio_packet_try_from J bs")
  case (Ok p)
  then have "sio_packet_typed J p"
    by (auto simp: sio_packet_try_from_in_range and_then_Ok_iff sio_packet_typed_def sio_packet_new_def json_is_valid_def
        split: if_splits option.splits prod.splits dest!: decode_nsp_typed decode_attachments_typed)
  with Ok show ?thesis by simp
qed (use sio_packet_try_from_returned [of J bs] in auto)

text \<open>
  What \<open>emit\<close> and an acknowledgement make of a text payload arrives at the peer as the packet
  that was built: the JSON array of the event name and the arguments, in the namespace, with the id.
\<close>

lemma emitted_text_decodes:
  assumes "body_ok J (json_to_string J (JArray (JString (event_display e) # vs)))"
    and "nsp_ok n" and "id_ok i"
  shows "and_then (new_from_payload J (PText vs a) e n i) (\<lambda>p.
           and_then (sio_packet_into_bytes oc p) (sio_packet_try_from J)) =
         Ok (sio_packet_new Event n
               (Some (json_to_string J (JArray (JString (event_display e) # vs)))) i 0 None)"
proof -
  have "sio_sendable J (sio_packet_new Event n
      (Some (json_to_string J (JArray (JString (event_display e) # vs)))) i 0 None)"
    using assms by (simp add: sio_sendable_def sio_packet_wf_def sio_packet_new_def is_binary_type_def)
  from sio_codec.dec_enc [of J] sio_into_bytes_text [OF this] this show ?thesis
    by (simp add: Let_def sio_sendable_def sio_packet_new_def)
qed

text \<open>
  C34. Behind the head only digits: the decoder returns before it sets the id, so a packet with an
  id and no data loses its id, although the encoder wrote it.
\<close>

theorem digits_only_drops_id:
  assumes "nsp_ok n" and "id_ok i" and "\<not> is_binary_type t"
  shows "and_then (sio_packet_into_bytes oc (sio_packet_new t n None i 0 None)) (sio_packet_try_from J) =
         Ok (sio_packet_new t n None None 0 None)"
proof -
  have enc: "sio_packet_into_bytes oc (sio_packet_new t n None i 0 None) =
      Ok (sio_packet_id_digit t # (if n \<noteq> ''/'' then n @ '','' else '''') @ id_text i)"
    using assms by (simp add: sio_packet_into_bytes_def sio_packet_body_def sio_packet_new_def id_text_def)
  have utf8: "utf8_valid (sio_packet_id_digit t # (if n \<noteq> ''/'' then n @ '','' else '''') @ id_text i)"
    using assms utf8_valid_digits [of "id_text i" "''''"] by (simp del: utf8_valid_digits)
  have nsp: "decode_nsp ((if n \<noteq> ''/'' then n @ '','' else '''') @ id_text i) = Ok (n, id_text i)"
    using assms by simp
  have "find_non_digit (id_text i) = None"
    using assms by (simp add: find_non_digit_None)
  with assms utf8 nsp show ?thesis
    by (simp add: enc sio_packet_try_from_in_range decode_attachments_def split del: if_split)
qed

theorem digits_only_drops_id_witness:
  "and_then (sio_packet_into_bytes True (sio_packet_new Ack ''/'' None (Some 456) 0 None))
     (sio_packet_try_from plain_json_lib) = Ok (sio_packet_new Ack ''/'' None None 0 None)"
  using digits_only_drops_id [of "''/''" "Some 456" Ack True plain_json_lib]
  by (simp add: nsp_ok_def id_ok_def is_ascii_def is_binary_type_def)

text \<open>
  The encoder panics exactly in a build with overflow checks on a packet with attachments and
  the count 0; without the checks such a packet names the placeholder 255.
\<close>

lemma sio_packet_into_bytes_panics:
  "(sio_packet_into_bytes oc p = Panic \<longleftrightarrow> oc \<and> attachments p \<noteq> None \<and> attachment_count p = 0) \<and>
   (sio_packet_into_bytes oc p = Panic \<or> is_ok (sio_packet_into_bytes oc p)) \<and>
   sio_packet_into_bytes False (sio_packet_new Ack ''/'' None None 0 (Some [])) =
     Ok (''3['' @ placeholder ''255'' @ '']'')"
proof -
  have "show_nat (unat (- 1 :: u8)) = ''255''" by code_simp
  then have "sio_packet_into_bytes False (sio_packet_new Ack ''/'' None None 0 (Some [])) =
      Ok (''3['' @ placeholder ''255'' @ '']'')"
    by (simp add: sio_packet_into_bytes_def sio_packet_body_def sio_packet_new_def
        last_attachment_def is_binary_type_def)
  then show ?thesis
    by (cases "pkt_data p")
       (auto simp: sio_packet_into_bytes_def sio_packet_body_def last_attachment_def Let_def)
qed

end
