(* ===== verification/Eio_Packet.thy ===== *)
theory Eio_Packet
  imports Errors Codec
begin

text \<open>
  \<open>engineio/src/packet.rs\<close>: packet ids, packets, and payloads of several packets. Base64 is the
  \<open>base64\<close> crate's: its two functions are the argument \<open>B\<close> of the definitions that use it, and
  what the code relies on is the predicate \<open>base64_codec\<close>.
\<close>

record base64_engine =
  base64_encode :: "bytes \<Rightarrow> bytes"
  base64_decode :: "bytes \<Rightarrow> bytes + bytes"

subsection \<open>Packet ids\<close>

datatype eio_packet_id = Open | Close | Ping | Pong | Message | MessageBinary | Upgrade | Noop

fun eio_packet_id_to_u8 :: "eio_packet_id \<Rightarrow> u8" where
  "eio_packet_id_to_u8 Open = 0"
| "eio_packet_id_to_u8 Close = 1"
| "eio_packet_id_to_u8 Ping = 2"
| "eio_packet_id_to_u8 Pong = 3"
| "eio_packet_id_to_u8 Message = 4"
| "eio_packet_id_to_u8 MessageBinary = 4"
| "eio_packet_id_to_u8 Upgrade = 5"
| "eio_packet_id_to_u8 Noop = 6"

definition to_string_byte :: "eio_packet_id \<Rightarrow> u8" where
  "to_string_byte p = (case p of MessageBinary \<Rightarrow> 98 | _ \<Rightarrow> eio_packet_id_to_u8 p + 48)"

text \<open>A \<open>u8\<close> as the byte it is, and back.\<close>

definition u8_byte :: "u8 \<Rightarrow> char" where
  "u8_byte b = char_of (unat b)"

definition byte_u8 :: "char \<Rightarrow> u8" where
  "byte_u8 c = of_char c"

definition eio_packet_id_display :: "eio_packet_id \<Rightarrow> bytes" where
  "eio_packet_id_display p = [u8_byte (to_string_byte p)]"

definition eio_packet_id_try_from :: "u8 \<Rightarrow> (eio_error, eio_packet_id) outcome" where
  "eio_packet_id_try_from b =
     (if b = 0 \<or> b = 48 then Ok Open
      else if b = 1 \<or> b = 49 then Ok Close
      else if b = 2 \<or> b = 50 then Ok Ping
      else if b = 3 \<or> b = 51 then Ok Pong
      else if b = 4 \<or> b = 52 then Ok Message
      else if b = 5 \<or> b = 53 then Ok Upgrade
      else if b = 6 \<or> b = 54 then Ok Noop
      else Err (InvalidPacketId b))"

subsection \<open>Packets\<close>

record eio_packet =
  packet_id :: eio_packet_id
  data :: bytes

definition eio_packet_new :: "eio_packet_id \<Rightarrow> bytes \<Rightarrow> eio_packet" where
  "eio_packet_new i d = \<lparr>packet_id = i, data = d\<rparr>"

text \<open>\<open>TryFrom<Bytes> for Packet\<close>.\<close>

definition eio_packet_try_from :: "base64_engine \<Rightarrow> bytes \<Rightarrow> (eio_error, eio_packet) outcome" where
  "eio_packet_try_from B bs =
    (case bs of
       [] \<Rightarrow> Err IncompletePacket
     | b0 # rest \<Rightarrow>
         let is_base64 = (byte_u8 b0 = 98) in
         and_then (if is_base64 then Ok MessageBinary else eio_packet_id_try_from (byte_u8 b0))
           (\<lambda>pid.
              if length bs = 1 \<and> pid = Message then Err IncompletePacket
              else and_then
                     (if is_base64 then from_ext InvalidBase64 (base64_decode B rest) else Ok rest)
                     (\<lambda>d. Ok (eio_packet_new pid d))))"

text \<open>\<open>From<Packet> for Bytes\<close>.\<close>

definition eio_packet_into_bytes :: "base64_engine \<Rightarrow> eio_packet \<Rightarrow> bytes" where
  "eio_packet_into_bytes B p =
     u8_byte (to_string_byte (packet_id p))
       # (if packet_id p = MessageBinary then base64_encode B (data p) else data p)"

text \<open>
  The handshake data. Its parser is derived by \<open>serde\<close>, so it is an argument too.
\<close>

record handshake_packet =
  sid :: bytes
  upgrades :: "bytes list"
  ping_interval :: u64
  ping_timeout :: u64

definition handshake_try_from ::
  "(bytes \<Rightarrow> bytes + handshake_packet) \<Rightarrow> eio_packet \<Rightarrow> (eio_error, handshake_packet) outcome" where
  "handshake_try_from H p = from_ext InvalidJson (H (data p))"

subsection \<open>Payloads\<close>

type_synonym eio_payload = "eio_packet list"

abbreviation (input) SEPARATOR :: char where
  "SEPARATOR \<equiv> CHR 0x1E"

definition eio_payload_try_from :: "base64_engine \<Rightarrow> bytes \<Rightarrow> (eio_error, eio_payload) outcome" where
  "eio_payload_try_from B bs =
     collect_results (map (eio_packet_try_from B) (split_on SEPARATOR bs))"

text \<open>
  \<open>TryFrom<Payload> for Bytes\<close>: each packet and a separator, then the last byte is split off;
  with no packet the length is 0 and \<open>buf.len() - 1\<close> underflows.
\<close>

definition eio_payload_into_bytes :: "base64_engine \<Rightarrow> eio_payload \<Rightarrow> (eio_error, bytes) outcome" where
  "eio_payload_into_bytes B ps =
     (let buf = concat (map (\<lambda>p. eio_packet_into_bytes B p @ [SEPARATOR]) ps)
      in if buf = [] then Panic else Ok (take (length buf - 1) buf))"

text \<open>\<open>IntoIter::next\<close>: the iterator is the list of the packets it has yet to give.\<close>

fun eio_iter_next :: "eio_packet list \<Rightarrow> eio_packet option \<times> eio_packet list" where
  "eio_iter_next [] = (None, [])"
| "eio_iter_next (p # ps) = (Some p, ps)"


text \<open>\<open>Index\<close> of a payload: out of range it panics.\<close>

definition eio_payload_index :: "eio_payload \<Rightarrow> nat \<Rightarrow> ('e, eio_packet) outcome" where
  "eio_payload_index ps i = (if i < length ps then Ok (ps ! i) else Panic)"

subsection \<open>Round trips\<close>

text \<open>
  What the code relies on of the base64 engine: decoding inverts encoding, and the alphabet of
  the encoding (letters, digits, \<open>+\<close>, \<open>/\<close>, \<open>=\<close>) does not hold the separator.
\<close>

definition base64_codec :: "base64_engine \<Rightarrow> bool" where
  "base64_codec B \<longleftrightarrow>
     (\<forall>d. base64_decode B (base64_encode B d) = Inr d \<and> SEPARATOR \<notin> set (base64_encode B d))"

text \<open>
  A packet the decoder can return: an empty message is refused (a binary one is not). \<open>framed\<close>
  says in addition that its plain data does not hold the separator.
\<close>

definition eio_packet_wf :: "eio_packet \<Rightarrow> bool" where
  "eio_packet_wf p \<longleftrightarrow> (packet_id p = Message \<longrightarrow> data p \<noteq> [])"

definition eio_packet_framed :: "eio_packet \<Rightarrow> bool" where
  "eio_packet_framed p \<longleftrightarrow>
     eio_packet_wf p \<and> (packet_id p \<noteq> MessageBinary \<longrightarrow> SEPARATOR \<notin> set (data p))"

lemma base64_codecD [simp]:
  assumes "base64_codec B"
  shows "base64_decode B (base64_encode B d) = Inr d" and "SEPARATOR \<notin> set (base64_encode B d)"
  using assms by (simp_all add: base64_codec_def)

lemma byte_u8_inverse [simp]: "byte_u8 (u8_byte b) = b"
proof -
  have "(of_char (char_of (unat b)) :: nat) = unat b"
    using unsigned_less [of b, where ?'a = nat] by simp
  then have "of_nat (of_char (char_of (unat b))) = b"
    by simp
  then show ?thesis
    by (simp only: byte_u8_def u8_byte_def of_nat_of_char)
qed

lemma to_string_byte_cases:
  "to_string_byte Open = 48" "to_string_byte Close = 49" "to_string_byte Ping = 50"
  "to_string_byte Pong = 51" "to_string_byte Message = 52" "to_string_byte MessageBinary = 98"
  "to_string_byte Upgrade = 53" "to_string_byte Noop = 54"
  by (simp_all add: to_string_byte_def)

lemma eio_packet_id_roundtrip [simp]:
  "pid \<noteq> MessageBinary \<Longrightarrow> eio_packet_id_try_from (to_string_byte pid) = Ok pid"
  by (cases pid) (simp_all add: to_string_byte_cases eio_packet_id_try_from_def)

lemma to_string_byte_98 [simp]: "to_string_byte pid = 98 \<longleftrightarrow> pid = MessageBinary"
  by (cases pid) (simp_all add: to_string_byte_cases)

lemma eio_packet_dec_enc:
  "base64_codec B \<Longrightarrow> eio_packet_wf p \<Longrightarrow> eio_packet_try_from B (eio_packet_into_bytes B p) = Ok p"
  by (cases "packet_id p = MessageBinary")
     (auto simp: eio_packet_try_from_def eio_packet_into_bytes_def eio_packet_wf_def
        eio_packet_new_def Let_def)

lemma to_string_byte_no_sep [simp]: "u8_byte (to_string_byte pid) \<noteq> SEPARATOR"
  by (cases pid) (simp_all add: to_string_byte_cases u8_byte_def char_of_def)

lemma eio_packet_enc_no_sep:
  "base64_codec B \<Longrightarrow> eio_packet_framed p \<Longrightarrow> SEPARATOR \<notin> set (eio_packet_into_bytes B p)"
  using to_string_byte_no_sep [of "packet_id p"]
  by (auto simp: eio_packet_into_bytes_def eio_packet_framed_def simp del: to_string_byte_no_sep)

lemma eio_packet_framed_wf: "eio_packet_framed p \<Longrightarrow> eio_packet_wf p"
  by (simp add: eio_packet_framed_def)

text \<open>The packet format keeps the two contracts of \<open>Codec\<close>.\<close>

interpretation eio_codec: wire_codec "eio_packet_into_bytes B" "eio_packet_try_from B"
  "\<lambda>p. base64_codec B \<and> eio_packet_wf p" for B
  by unfold_locales (auto intro: eio_packet_dec_enc)

interpretation eio_frames: framed_codec "eio_packet_into_bytes B" "eio_packet_try_from B"
  "\<lambda>p. base64_codec B \<and> eio_packet_framed p" SEPARATOR for B
  by unfold_locales
     (blast intro: eio_packet_dec_enc eio_packet_framed_wf, blast dest: eio_packet_enc_no_sep)

lemma eio_payload_into_bytes_join [simp]:
  assumes "ps \<noteq> []"
  shows "eio_payload_into_bytes B ps = Ok (join_with SEPARATOR (map (eio_packet_into_bytes B) ps))"
proof -
  have "concat (map (\<lambda>p. eio_packet_into_bytes B p @ [SEPARATOR]) ps) =
      join_with SEPARATOR (map (eio_packet_into_bytes B) ps) @ [SEPARATOR]"
    using join_with_trailing [of "map (eio_packet_into_bytes B) ps" SEPARATOR] assms
    by (simp add: comp_def)
  then show ?thesis by (simp add: eio_payload_into_bytes_def)
qed

subsection \<open>What the decoder accepts\<close>

lemma eio_packet_try_from_Cons:
  "eio_packet_try_from B (b # rest) =
     (if byte_u8 b = 98 then
        (case base64_decode B rest of Inl t \<Rightarrow> Err (InvalidBase64 t)
         | Inr d \<Rightarrow> Ok (eio_packet_new MessageBinary d))
      else (case eio_packet_id_try_from (byte_u8 b) of
              Ok pid \<Rightarrow> if rest = [] \<and> pid = Message then Err IncompletePacket
                        else Ok (eio_packet_new pid rest)
            | Err e \<Rightarrow> Err e | Panic \<Rightarrow> Panic | Hang \<Rightarrow> Hang))"
  by (auto simp: eio_packet_try_from_def Let_def split: sum.splits outcome.splits)

definition known_id_bytes :: "u8 set" where
  "known_id_bytes = {0, 1, 2, 3, 4, 5, 6, 48, 49, 50, 51, 52, 53, 54}"

lemma eio_packet_id_try_from_total:
  "(\<exists>pid. eio_packet_id_try_from b = Ok pid \<and> pid \<noteq> MessageBinary \<and> b \<in> known_id_bytes \<and>
      (pid = Message \<longleftrightarrow> b = 4 \<or> b = 52)) \<or>
   (eio_packet_id_try_from b = Err (InvalidPacketId b) \<and> b \<notin> known_id_bytes)"
  by (simp add: eio_packet_id_try_from_def known_id_bytes_def)

lemma eio_packet_id_try_from_cases:
  obtains pid where "eio_packet_id_try_from b = Ok pid" "pid \<noteq> MessageBinary"
    "b \<in> known_id_bytes" "pid = Message \<longleftrightarrow> b = 4 \<or> b = 52"
  | "eio_packet_id_try_from b = Err (InvalidPacketId b)" "b \<notin> known_id_bytes"
  using eio_packet_id_try_from_total [of b] by blast

lemma eio_packet_try_from_returned [simp]: "returned (eio_packet_try_from B bs)"
proof (cases bs)
  case (Cons b rest)
  then show ?thesis
    by (cases rule: eio_packet_id_try_from_cases [of "byte_u8 b"])
       (auto simp: eio_packet_try_from_Cons split: sum.splits)
qed (simp add: eio_packet_try_from_def)

lemma eio_packet_try_from_wf:
  assumes "eio_packet_try_from B bs = Ok p"
  shows "eio_packet_wf p"
proof (cases bs)
  case Nil
  with assms show ?thesis by (simp add: eio_packet_try_from_def)
next
  case (Cons b rest)
  with assms show ?thesis
    by (cases rule: eio_packet_id_try_from_cases [of "byte_u8 b"])
       (auto simp: eio_packet_try_from_Cons eio_packet_wf_def eio_packet_new_def
          split: sum.splits if_splits)
qed

subsection \<open>A concrete engine with the assumed laws\<close>

text \<open>
  Two letters of A to P for each byte: an engine the hypothesis \<open>base64_codec\<close> holds of, for the
  witnesses.
\<close>

definition nibble_char :: "nat \<Rightarrow> char" where
  "nibble_char n = char_of (65 + n)"

definition letters_encode :: "bytes \<Rightarrow> bytes" where
  "letters_encode d =
     concat (map (\<lambda>c. [nibble_char (of_char c div 16), nibble_char (of_char c mod 16)]) d)"

fun letters_decode :: "bytes \<Rightarrow> bytes + bytes" where
  "letters_decode [] = Inr []"
| "letters_decode [c] = Inl ''odd length''"
| "letters_decode (a # b # r) =
     (case letters_decode r of Inl e \<Rightarrow> Inl e
      | Inr d \<Rightarrow> Inr (char_of ((of_char a - 65) * 16 + (of_char b - 65) :: nat) # d))"

definition letters_engine :: base64_engine where
  "letters_engine = \<lparr>base64_encode = letters_encode, base64_decode = letters_decode\<rparr>"

lemma nibble_char_facts [simp]:
  assumes "n < 16"
  shows "(of_char (nibble_char n) :: nat) = 65 + n" and "nibble_char n \<noteq> CHR 0x1E"
proof -
  show n: "(of_char (nibble_char n) :: nat) = 65 + n"
    using assms by (simp add: nibble_char_def)
  show "nibble_char n \<noteq> CHR 0x1E"
  proof
    assume "nibble_char n = CHR 0x1E"
    then have "(of_char (nibble_char n) :: nat) = 30" by simp
    with n show False by simp
  qed
qed

lemma of_char_div_16 [simp]: "(of_char c :: nat) div 16 < 16"
  using nat_of_char_less_256 [of c] by (auto simp: less_mult_imp_div_less)

lemma letters_decode_encode: "letters_decode (letters_encode d) = Inr d"
proof (induction d)
  case (Cons c d)
  have "(of_char c :: nat) div 16 * 16 + of_char c mod 16 = of_char c" by simp
  with Cons show ?case by (simp add: letters_encode_def)
qed (simp add: letters_encode_def)

lemma letters_encode_no_sep: "SEPARATOR \<notin> set (letters_encode d)"
proof (induction d)
  case (Cons c d)
  have "SEPARATOR \<noteq> nibble_char (of_char c div 16)" "SEPARATOR \<noteq> nibble_char (of_char c mod 16)"
    by (rule nibble_char_facts(2) [symmetric], simp)+
  with Cons show ?case by (simp add: letters_encode_def)
qed (simp add: letters_encode_def)

lemma letters_engine_codec [simp]: "base64_codec letters_engine"
  by (simp add: base64_codec_def letters_engine_def letters_decode_encode letters_encode_no_sep)

subsection \<open>The properties of the format\<close>

text \<open>C31. Every packet with non-empty message data survives encoding and decoding.\<close>

theorem eio_packet_roundtrip:
  assumes "base64_codec B" and "eio_packet_wf p"
  shows "eio_packet_try_from B (eio_packet_into_bytes B p) = Ok p"
  using assms by (intro eio_codec.dec_enc) simp

theorem eio_packet_roundtrip_witness:
  "eio_packet_wf (eio_packet_new Message ''hi'') \<and>
   eio_packet_try_from letters_engine
     (eio_packet_into_bytes letters_engine (eio_packet_new Message ''hi'')) = Ok (eio_packet_new Message ''hi'')"
  using eio_packet_roundtrip [of letters_engine "eio_packet_new Message ''hi''"]
  by (simp add: eio_packet_wf_def eio_packet_new_def)



text \<open>
  C40. The decoder accepts exactly a first byte \<open>b\<close> with valid base64 behind
  it, or one of the ids as a digit or as a raw number, with at least one more byte for a message; on all other bytes it returns an error.
\<close>

theorem eio_packet_try_from_accepts:
  "returned (eio_packet_try_from B bs) \<and>
   (is_ok (eio_packet_try_from B bs) \<longleftrightarrow>
      (\<exists>b rest. bs = b # rest \<and>
         (if byte_u8 b = 98 then \<exists>d. base64_decode B rest = Inr d
          else byte_u8 b \<in> known_id_bytes \<and> \<not> (byte_u8 b \<in> {4, 52} \<and> rest = []))))"
proof (cases bs)
  case (Cons b rest)
  then show ?thesis
    by (cases rule: eio_packet_id_try_from_cases [of "byte_u8 b"])
       (auto simp: eio_packet_try_from_Cons split: sum.splits)
qed (simp add: eio_packet_try_from_def)

text \<open>
  Whatever the decoder accepts it accepts again, unchanged, once re-encoded: re-encoding
  only normalises raw ids and the spelling of the base64 text.
\<close>

lemma eio_packet_normalises:
  assumes "base64_codec B" and "eio_packet_try_from B bs = Ok p"
  shows "eio_packet_try_from B (eio_packet_into_bytes B p) = Ok p"
  using assms eio_packet_try_from_wf by (blast intro: eio_codec.dec_enc)

end
