(* ===== verification/World.thy ===== *)
theory World
  imports Eio_Packet Sio_Payload
begin

text \<open>
  What surrounds the program. \<open>ext\<close> holds the functions of the crates the sources call (URLs,
  HTTP headers, base64, JSON, the random numbers and the back-off of \<open>backoff\<close>) and the answers
  of the network; each theorem is for every such record. \<open>world\<close> is the state the program
  shares with it: the clock in milliseconds, how many answers have been used, and the trace of
  everything the program did outside itself, the newest effect last. A URL is its text.
\<close>

type_synonym url = bytes
type_synonym tls = nat
type_synonym http_headers = "(bytes \<times> bytes) list"

datatype ws_message =
    WsText bytes
  | WsBinary bytes
  | WsPing bytes
  | WsPong bytes
  | WsClose "(u16 \<times> bytes) option"
  | WsFrame bytes

text \<open>What a websocket stream gives next: a message, an error, or its end.\<close>

datatype ws_item = WsMsg ws_message | WsFail bytes | WsEnd

text \<open>
  A response of the HTTP client: reading its body as text or as bytes can fail, and as a stream
  it comes in chunks, each of which can fail.
\<close>

record http_response =
  resp_status :: u16
  resp_text :: "bytes + bytes"
  resp_bytes :: "bytes + bytes"
  resp_chunks :: "(bytes + bytes) list"

datatype http_request =
    HttpGet url "u64 option" "http_headers option" "tls option"
  | HttpPost url bytes "http_headers option" "tls option"

text \<open>What a callback is called with, of the engine and of the socket.io clients. A callback is a handle.\<close>

datatype callback_arg =
    ArgUnit
  | ArgText bytes
  | ArgBytes bytes
  | ArgPacket eio_packet
  | ArgPayload payload
  | ArgEvent event payload
  | ArgClose payload u64

type_synonym callback = nat

text \<open>What the user's code in a callback does with the client it is handed.\<close>

datatype user_action =
    UserEmit event payload
  | UserEmitWithAck event payload nat callback
  | UserAck payload
  | UserAckWithId i32 payload
  | UserDisconnect

text \<open>
  What the program does outside itself. \<open>DidCall\<close> is a callback called in place. \<open>DidSpawn\<close> is one
  handed to the runtime as a task of its own, \<open>handle.spawn(f(a))\<close>: the effect is the instant of the
  spawn, and when the task runs, before or after what comes later in the trace, is not said.
\<close>

datatype effect =
    DidHttp http_request
  | DidConnect url "http_headers option" "tls option"
  | DidSend nat ws_message
  | DidCall callback callback_arg
  | DidSpawn callback callback_arg
  | DidSleep nat

record world =
  now :: nat
  http_count :: nat
  connect_count :: nat
  send_count :: nat
  received :: "nat \<Rightarrow> nat"
  trace :: "effect list"

text \<open>
  \<open>net_http n r\<close> is how long the \<open>n\<close>th HTTP request takes and its answer, \<open>net_connect\<close> the same
  for a websocket handshake and \<open>net_send\<close> for a frame sent; \<open>net_recv c k\<close> is the \<open>k\<close>th item of
  connection \<open>c\<close> with the instant it arrives. A failure has its error text on the left.
  \<open>user_code n h a\<close> is what callback \<open>h\<close>, called with \<open>a\<close> after \<open>n\<close> effects, does.
\<close>

record ext =
  b64 :: base64_engine
  json :: json_lib
  json_handshake :: "bytes \<Rightarrow> bytes + handshake_packet"
  url_parse :: "bytes \<Rightarrow> bytes + url"
  url_scheme :: "url \<Rightarrow> bytes"
  url_path :: "url \<Rightarrow> bytes"
  url_set_path :: "bytes \<Rightarrow> url \<Rightarrow> url"
  url_set_scheme :: "bytes \<Rightarrow> url \<Rightarrow> url option"
  url_pairs :: "url \<Rightarrow> (bytes \<times> bytes) list"
  url_append_pair :: "bytes \<Rightarrow> bytes \<Rightarrow> url \<Rightarrow> url"
  time_hash :: "nat \<Rightarrow> bytes"
  http_header_name :: "bytes \<Rightarrow> bytes + bytes"
  http_header_value :: "bytes \<Rightarrow> bytes + bytes"
  runtime_build :: "bytes + unit"
  http_client_ok :: "tls option \<Rightarrow> http_headers option \<Rightarrow> bool"
  ws_request_ok :: "url \<Rightarrow> bytes + unit"
  ws_into_data :: "ws_message \<Rightarrow> bytes"
  net_http :: "nat \<Rightarrow> http_request \<Rightarrow> nat \<times> (bytes + http_response)"
  net_connect :: "nat \<Rightarrow> url \<Rightarrow> nat \<times> (bytes + unit)"
  net_send :: "nat \<Rightarrow> ws_message \<Rightarrow> nat \<times> (bytes + unit)"
  net_recv :: "nat \<Rightarrow> nat \<Rightarrow> nat \<times> ws_item"
  overflow_checks :: bool
  loop_fuel :: nat
  next_backoff :: "nat \<Rightarrow> nat option"
  random_id :: "nat \<Rightarrow> i32"
  user_code :: "nat \<Rightarrow> callback \<Rightarrow> callback_arg \<Rightarrow> user_action list"

text \<open>
  A poll under a deadline: \<open>Elapsed\<close> when it passes first. What a stream gives is
  \<open>Ok (InTime (Some a))\<close> for an item, \<open>Err e\<close> for an error item, \<open>Ok (InTime None)\<close> for its end.
\<close>

datatype 'a timed = Elapsed | InTime 'a

type_synonym 'a polled = "(eio_error, 'a option timed) outcome"

subsection \<open>Effects\<close>

definition did :: "effect \<Rightarrow> world \<Rightarrow> world" where
  "did e w = w\<lparr>trace := trace w @ [e]\<rparr>"

definition sleep_ms :: "nat \<Rightarrow> world \<Rightarrow> world" where
  "sleep_ms ms w = did (DidSleep ms) (w\<lparr>now := now w + ms\<rparr>)"

definition http_send :: "ext \<Rightarrow> http_request \<Rightarrow> world \<Rightarrow> (eio_error, http_response) outcome \<times> world" where
  "http_send X r w =
     (let (d, a) = net_http X (http_count w) r
      in (from_ext IncompleteResponseFromReqwest a,
          did (DidHttp r) (w\<lparr>now := now w + d, http_count := http_count w + 1\<rparr>)))"

definition ws_send :: "ext \<Rightarrow> nat \<Rightarrow> ws_message \<Rightarrow> world \<Rightarrow> (eio_error, unit) outcome \<times> world" where
  "ws_send X c m w =
     (let (d, a) = net_send X (send_count w) m
      in (from_ext WebsocketError a,
          did (DidSend c m) (w\<lparr>now := now w + d, send_count := send_count w + 1\<rparr>)))"

text \<open>\<open>connect_async\<close>: a new connection has the number of connections made before it.\<close>

definition ws_connect ::
  "ext \<Rightarrow> url \<Rightarrow> http_headers option \<Rightarrow> tls option \<Rightarrow> world \<Rightarrow> (eio_error, nat) outcome \<times> world" where
  "ws_connect X u h t w =
     (let c = connect_count w; (d, a) = net_connect X c u
      in (from_ext WebsocketError (case a of Inl e \<Rightarrow> Inl e | Inr _ \<Rightarrow> Inr c),
          did (DidConnect u h t) (w\<lparr>now := now w + d, connect_count := c + 1\<rparr>)))"

text \<open>
  \<open>receiver.next()\<close>: waits until the next item of the connection has arrived, or until the
  deadline; an item the deadline cuts off is still there for the next call.
\<close>

definition past :: "nat option \<Rightarrow> nat \<Rightarrow> bool" where
  "past dl t = (case dl of None \<Rightarrow> False | Some d \<Rightarrow> d < t)"

definition ws_recv :: "ext \<Rightarrow> nat option \<Rightarrow> nat \<Rightarrow> world \<Rightarrow> ws_item timed \<times> world" where
  "ws_recv X dl c w =
     (let (t, i) = net_recv X c (received w c); t' = max (now w) t
      in if past dl t' then (Elapsed, w\<lparr>now := max (now w) (the dl)\<rparr>)
         else (InTime i, w\<lparr>now := t', received := (received w)(c := received w c + 1)\<rparr>))"

text \<open>Calling a callback that may not be registered: what \<open>if let Some(f) = ..\<close> does with it.\<close>

definition call_opt :: "callback option \<Rightarrow> callback_arg \<Rightarrow> world \<Rightarrow> world" where
  "call_opt cb a w = (case cb of None \<Rightarrow> w | Some h \<Rightarrow> did (DidCall h a) w)"

text \<open>The same with \<open>handle.spawn\<close> around the call.\<close>

definition spawn_opt :: "callback option \<Rightarrow> callback_arg \<Rightarrow> world \<Rightarrow> world" where
  "spawn_opt cb a w = (case cb of None \<Rightarrow> w | Some h \<Rightarrow> did (DidSpawn h a) w)"

subsection \<open>Traces grow\<close>

text \<open>
  \<open>grows w w'\<close>: nothing that happened is undone and the clock does not go back. \<open>sent w\<close> is what
  the trace holds of the network, and \<open>quiet w w'\<close> that nothing was sent between them.
\<close>

definition grows :: "world \<Rightarrow> world \<Rightarrow> bool" where
  "grows w w' \<longleftrightarrow> prefix (trace w) (trace w') \<and> now w \<le> now w'"

fun is_send :: "effect \<Rightarrow> bool" where
  "is_send (DidHttp r) = True"
| "is_send (DidConnect u h t) = True"
| "is_send (DidSend c m) = True"
| "is_send (DidCall h a) = False"
| "is_send (DidSpawn h a) = False"
| "is_send (DidSleep n) = False"

definition sent :: "world \<Rightarrow> effect list" where
  "sent w = filter is_send (trace w)"

lemma grows_refl [simp, intro]: "grows w w"
  by (simp add: grows_def)

lemma grows_trans [trans]: "grows w w1 \<Longrightarrow> grows w1 w2 \<Longrightarrow> grows w w2"
  by (auto simp: grows_def)

lemma did_simps [simp, world_frames]:
  "now (did e w) = now w" "trace (did e w) = trace w @ [e]" "http_count (did e w) = http_count w"
  "connect_count (did e w) = connect_count w" "send_count (did e w) = send_count w"
  "received (did e w) = received w" "sent (did e w) = sent w @ (if is_send e then [e] else [])"
  by (simp_all add: did_def sent_def)

lemma call_opt_simps [simp, world_frames]:
  "now (call_opt cb a w) = now w" "sent (call_opt cb a w) = sent w"
  "http_count (call_opt cb a w) = http_count w" "connect_count (call_opt cb a w) = connect_count w"
  "send_count (call_opt cb a w) = send_count w" "received (call_opt cb a w) = received w"
  "trace (call_opt cb a w) = trace w @ (case cb of None \<Rightarrow> [] | Some h \<Rightarrow> [DidCall h a])"
  by (simp_all add: call_opt_def split: option.split)

lemma grows_did [simp, intro]: "grows w (did e w)"
  by (simp add: grows_def)

lemma spawn_opt_simps [simp, world_frames]:
  "now (spawn_opt cb a w) = now w" "sent (spawn_opt cb a w) = sent w"
  "http_count (spawn_opt cb a w) = http_count w" "connect_count (spawn_opt cb a w) = connect_count w"
  "send_count (spawn_opt cb a w) = send_count w" "received (spawn_opt cb a w) = received w"
  "trace (spawn_opt cb a w) = trace w @ (case cb of None \<Rightarrow> [] | Some h \<Rightarrow> [DidSpawn h a])"
  by (simp_all add: spawn_opt_def split: option.split)

lemma grows_call_opt [simp, intro]: "grows w (call_opt cb a w)"
  by (simp add: grows_def)

lemma grows_spawn_opt [simp, intro]: "grows w (spawn_opt cb a w)"
  by (simp add: grows_def)

lemma sleep_ms_simps [simp, world_frames]:
  "now (sleep_ms n w) = now w + n" "sent (sleep_ms n w) = sent w" "grows w (sleep_ms n w)"
  by (simp_all add: sleep_ms_def sent_def grows_def)

lemma http_send_grows [simp]: "grows w (snd (http_send X r w))"
  by (simp add: http_send_def grows_def case_prod_beta)

lemma http_send_sent [simp]: "sent (snd (http_send X r w)) = sent w @ [DidHttp r]"
  by (simp add: http_send_def case_prod_beta sent_def)

lemma ws_send_grows [simp]: "grows w (snd (ws_send X c m w))"
  by (simp add: ws_send_def grows_def case_prod_beta)

lemma ws_send_sent [simp]: "sent (snd (ws_send X c m w)) = sent w @ [DidSend c m]"
  by (simp add: ws_send_def case_prod_beta sent_def)

lemma ws_connect_grows [simp]: "grows w (snd (ws_connect X u h t w))"
  by (simp add: ws_connect_def grows_def case_prod_beta Let_def)

lemma ws_recv_grows [simp]:
  "grows w (snd (ws_recv X dl c w))" "sent (snd (ws_recv X dl c w)) = sent w"
  by (simp_all add: ws_recv_def grows_def case_prod_beta sent_def Let_def)

lemma ext_calls_returned [simp]:
  "returned (fst (http_send X r w))" "returned (fst (ws_send X c m w))"
  "returned (fst (ws_connect X u h t w))"
proof -
  have r: "returned (from_ext f x)" for f x by (cases x) auto
  show "returned (fst (http_send X r w))" "returned (fst (ws_send X c m w))"
    "returned (fst (ws_connect X u h t w))"
    by (simp_all add: http_send_def ws_send_def ws_connect_def case_prod_beta Let_def r)
qed

lemma grows_ques:
  "grows w (snd rs) \<Longrightarrow> (\<And>a w1. rs = (Ok a, w1) \<Longrightarrow> grows w1 (snd (k a w1))) \<Longrightarrow> grows w (snd (ques rs k))"
  by (cases "(rs, k)" rule: ques.cases) (auto intro: grows_trans)

lemma grows_on_return:
  "grows w (snd rs) \<Longrightarrow> (\<And>a w1. snd rs = w1 \<Longrightarrow> grows w1 (snd (k a w1))) \<Longrightarrow>
   grows w (snd (on_return rs k))"
  by (cases "(rs, k)" rule: on_return.cases) (auto intro: grows_trans)

subsection \<open>A concrete environment\<close>

text \<open>
  A network where every request is refused and every connection ends at once, and plain text
  functions for the crates. The witnesses change the answers they need.
\<close>

definition demo_append :: "bytes \<Rightarrow> bytes \<Rightarrow> url \<Rightarrow> url" where
  "demo_append k v u = u @ (if CHR ''?'' \<in> set u then ''&'' else ''?'') @ k @ ''='' @ v"

definition demo_pairs :: "url \<Rightarrow> (bytes \<times> bytes) list" where
  "demo_pairs u = (case split_once CHR ''?'' u of None \<Rightarrow> []
     | Some (b, q) \<Rightarrow> map (\<lambda>s. case split_once CHR ''='' s of None \<Rightarrow> (s, '''') | Some kv \<Rightarrow> kv)
         (filter (\<lambda>s. s \<noteq> '''') (split_on CHR ''&'' q)))"

definition demo_scheme :: "url \<Rightarrow> bytes" where
  "demo_scheme u = (case split_once CHR '':'' u of None \<Rightarrow> '''' | Some (s, r) \<Rightarrow> s)"

definition demo_ext :: ext where
  "demo_ext = \<lparr>b64 = letters_engine, json = plain_json_lib,
     json_handshake = \<lambda>s. Inr \<lparr>sid = s, upgrades = [''websocket''], ping_interval = 25000, ping_timeout = 20000\<rparr>,
     url_parse = Inr, url_scheme = demo_scheme, url_path = \<lambda>u. ''/'', url_set_path = \<lambda>p u. u @ p,
     url_set_scheme = \<lambda>s u. (case split_once CHR '':'' u of None \<Rightarrow> None | Some (s', r) \<Rightarrow> Some (s @ '':'' @ r)),
     url_pairs = demo_pairs, url_append_pair = demo_append, time_hash = show_nat,
     http_header_name = Inr, http_header_value = Inr, runtime_build = Inr (),
     http_client_ok = \<lambda>t h. True, ws_request_ok = \<lambda>u. Inr (),
     ws_into_data = \<lambda>m. (case m of WsText s \<Rightarrow> s | WsBinary s \<Rightarrow> s | WsPing s \<Rightarrow> s | WsPong s \<Rightarrow> s
       | WsFrame s \<Rightarrow> s | WsClose None \<Rightarrow> '''' | WsClose (Some (c, r)) \<Rightarrow> r),
     net_http = \<lambda>n r. (0, Inl ''connection refused''), net_connect = \<lambda>n u. (0, Inr ()),
     net_send = \<lambda>n m. (0, Inr ()), net_recv = \<lambda>c k. (0, WsEnd), overflow_checks = True,
     loop_fuel = 10, next_backoff = \<lambda>n. Some 1000, random_id = \<lambda>n. of_nat n, user_code = \<lambda>n h a. []\<rparr>"

definition demo_world :: world where
  "demo_world = \<lparr>now = 0, http_count = 0, connect_count = 0, send_count = 0, received = \<lambda>c. 0, trace = []\<rparr>"

lemma demo_ext_base64 [simp]: "base64_codec (b64 demo_ext)"
  by (simp add: demo_ext_def)

text \<open>An environment whose connections give these items, each at the instant it is listed with.\<close>

definition demo_items :: "(nat \<times> ws_item) list \<Rightarrow> ext" where
  "demo_items is = demo_ext\<lparr>net_recv := \<lambda>c k. if k < length is then is ! k else (0, WsEnd)\<rparr>"

text \<open>An environment that answers the HTTP requests in turn, each after its delay.\<close>

definition demo_answers :: "(nat \<times> (bytes + http_response)) list \<Rightarrow> ext" where
  "demo_answers as = demo_ext\<lparr>net_http := \<lambda>n r. if n < length as then as ! n else (0, Inl ''connection refused'')\<rparr>"

definition demo_response :: "u16 \<Rightarrow> bytes \<Rightarrow> http_response" where
  "demo_response s b = \<lparr>resp_status = s, resp_text = Inr b, resp_bytes = Inr b, resp_chunks = [Inr b]\<rparr>"

lemma demo_items_simps [simp]:
  "net_recv (demo_items is) c k = (if k < length is then is ! k else (0, WsEnd))"
  "loop_fuel (demo_items is) = 10" "b64 (demo_items is) = letters_engine"
  "json (demo_items is) = plain_json_lib"
  "net_http (demo_answers as) n r = (if n < length as then as ! n else (0, Inl ''connection refused''))"
  "loop_fuel (demo_answers as) = 10" "b64 (demo_answers as) = letters_engine"
  "json (demo_answers as) = plain_json_lib"
  by (simp_all add: demo_items_def demo_answers_def demo_ext_def)

lemma demo_world_simps [simp]:
  "now demo_world = 0" "http_count demo_world = 0" "connect_count demo_world = 0"
  "send_count demo_world = 0" "received demo_world c = 0" "trace demo_world = []"
  "sent demo_world = []"
  by (simp_all add: demo_world_def sent_def)

end
