(* ===== verification/Eio_Header.thy ===== *)
theory Eio_Header
  imports World "HOL-Library.AList"
begin

text \<open>
  \<open>engineio/src/header.rs\<close> and the two \<open>callback.rs\<close>. A header map is an association list without
  repeated names; its order stands for the order a \<open>HashMap\<close> iterates in, which is unspecified.
\<close>

type_synonym header_name = bytes
type_synonym header_value = bytes
type_synonym header_map = "(header_name \<times> header_value) list"

definition header_name_display :: "header_name \<Rightarrow> bytes" where
  "header_name_display h = h"

definition header_name_from_string :: "bytes \<Rightarrow> header_name" where
  "header_name_from_string s = s"

definition header_name_into_http :: "ext \<Rightarrow> header_name \<Rightarrow> (eio_error, bytes) outcome" where
  "header_name_into_http X h = from_ext InvalidHeaderNameFromReqwest (http_header_name X h)"

definition header_name_from_http :: "bytes \<Rightarrow> header_name" where
  "header_name_from_http h = header_name_from_string h"

definition header_value_from_string :: "bytes \<Rightarrow> header_value" where
  "header_value_from_string s = s"

definition header_value_into_http :: "ext \<Rightarrow> header_value \<Rightarrow> (eio_error, bytes) outcome" where
  "header_value_into_http X v = from_ext InvalidHeaderValueFromReqwest (http_header_value X v)"

definition header_value_from_http :: "bytes \<Rightarrow> header_value" where
  "header_value_from_http v = v"

definition header_value_from_str :: "bytes \<Rightarrow> header_value" where
  "header_value_from_str s = header_value_from_string s"

definition header_map_new :: header_map where
  "header_map_new = []"

text \<open>\<open>HashMap::insert\<close>: replaces, and returns what was there.\<close>

definition header_map_insert ::
  "header_name \<Rightarrow> header_value \<Rightarrow> header_map \<Rightarrow> header_value option \<times> header_map" where
  "header_map_insert k v m = (map_of m k, AList.update k v m)"

definition header_map_into_iter :: "header_map \<Rightarrow> (header_name \<times> header_value) list" where
  "header_map_into_iter m = m"

fun header_iter_next :: "(header_name \<times> header_value) list \<Rightarrow>
    (header_name \<times> header_value) option \<times> (header_name \<times> header_value) list" where
  "header_iter_next [] = (None, [])"
| "header_iter_next (h # hs) = (Some h, hs)"

definition header_map_into_http :: "ext \<Rightarrow> header_map \<Rightarrow> (eio_error, http_headers) outcome" where
  "header_map_into_http X m =
     collect_results (map (\<lambda>(k, v).
       and_then (header_name_into_http X k) (\<lambda>hk.
       and_then (header_value_into_http X v) (\<lambda>hv. Ok (hk, hv)))) (header_map_into_iter m))"

definition header_map_ok :: "ext \<Rightarrow> header_map \<Rightarrow> bool" where
  "header_map_ok X m \<longleftrightarrow>
     (\<forall>(k, v) \<in> set m. (\<exists>h. http_header_name X k = Inr h) \<and> (\<exists>h. http_header_value X v = Inr h))"

lemma header_map_insert_lookup [simp]:
  "map_of (snd (header_map_insert k v m)) = (map_of m)(k \<mapsto> v)"
  by (simp add: header_map_insert_def update_conv')

lemma header_map_insert_distinct:
  "distinct (map fst m) \<Longrightarrow> distinct (map fst (snd (header_map_insert k v m)))"
  by (simp add: header_map_insert_def distinct_update)

lemma header_map_into_http_returned [simp]: "returned (header_map_into_http X m)"
proof -
  have ext: "returned (from_ext f x)" for f x by (cases x) auto
  show ?thesis
    unfolding header_map_into_http_def header_name_into_http_def header_value_into_http_def
    by (intro collect_results_returned) (auto intro!: and_then_returned ext)
qed

lemma header_map_into_http_ok: "is_ok (header_map_into_http X m) \<longleftrightarrow> header_map_ok X m"
proof (induction m)
  case (Cons kv m)
  obtain k v where kv: "kv = (k, v)" by (cases kv)
  with Cons show ?case
    by (auto simp: header_map_into_http_def header_map_ok_def header_map_into_iter_def
        header_name_into_http_def header_value_into_http_def and_then_Ok_iff)
qed (simp add: header_map_into_http_def header_map_ok_def header_map_into_iter_def)

subsection \<open>Optional callbacks\<close>

definition optional_callback_new :: "callback \<Rightarrow> callback option" where
  "optional_callback_new f = Some f"

definition optional_callback_default :: "callback option" where
  "optional_callback_default = None"

definition async_callback_new :: "callback \<Rightarrow> callback option" where
  "async_callback_new f = Some f"

definition async_callback_default :: "callback option" where
  "async_callback_default = None"

text \<open>
  A header map answers the last value inserted for a name and keeps its other entries, and it
  converts exactly when every name and every value in it is one the HTTP library accepts.
\<close>

lemma header_map_converts:
  "map_of (snd (header_map_insert k v m)) = (map_of m)(k \<mapsto> v) \<and>
   fst (header_map_insert k v m) = map_of m k \<and>
   returned (header_map_into_http X m) \<and> (is_ok (header_map_into_http X m) \<longleftrightarrow> header_map_ok X m)"
  by (simp add: header_map_insert_def update_conv' header_map_into_http_ok del: is_ok_iff)

end
