(* ===== verification/Eio_Websocket.thy ===== *)
theory Eio_Websocket
  imports Eio_Header
begin

text \<open>
  The websocket transports: \<open>asynchronous/async_transports/websocket_general.rs\<close>, \<open>websocket.rs\<close>
  and \<open>websocket_secure.rs\<close>, and the blocking wrappers in \<open>transports/\<close>. A transport is the number
  of its connection and its base URL.
\<close>

subsection \<open>The general transport\<close>

fun close_frame_to_error :: "(u16 \<times> bytes) option \<Rightarrow> eio_error" where
  "close_frame_to_error (Some (c, r)) = WebsocketClosed c r"
| "close_frame_to_error None = WebsocketClosed 1005 ''''"

definition from_utf8 :: "bytes \<Rightarrow> (eio_error, bytes) outcome" where
  "from_utf8 s = (if utf8_valid s then Ok s else Err (InvalidUtf8 (utf8_error_text s)))"

definition ws_general_new :: "nat \<Rightarrow> nat" where
  "ws_general_new c = c"

definition ws_probe :: "eio_packet_id \<Rightarrow> eio_packet" where
  "ws_probe i = eio_packet_new i ''probe''"

definition ws_general_upgrade :: "ext \<Rightarrow> nat \<Rightarrow> world \<Rightarrow> (eio_error, unit) outcome \<times> world" where
  "ws_general_upgrade X c w =
     ques (from_utf8 (eio_packet_into_bytes (b64 X) (ws_probe Ping)), w) (\<lambda>s w.
     ques (ws_send X c (WsText s) w) (\<lambda>_ w.
       case ws_recv X None c w of
         (InTime (WsMsg m), w) \<Rightarrow>
           if ws_into_data X m \<noteq> eio_packet_into_bytes (b64 X) (ws_probe Pong)
           then (Err InvalidPacket, w)
           else ques (from_utf8 (eio_packet_into_bytes (b64 X) (eio_packet_new Upgrade '''')), w) (\<lambda>s w.
                ques (ws_send X c (WsText s) w) (\<lambda>_ w. (Ok (), w)))
       | (InTime (WsFail t), w) \<Rightarrow> (Err (WebsocketError t), w)
       | (InTime WsEnd, w) \<Rightarrow> (Err IllegalWebsocketUpgrade, w)
       | (Elapsed, w) \<Rightarrow> (Hang, w)))"

definition ws_general_emit :: "ext \<Rightarrow> nat \<Rightarrow> bytes \<Rightarrow> bool \<Rightarrow> world \<Rightarrow> (eio_error, unit) outcome \<times> world" where
  "ws_general_emit X c d bin w =
     ques (if bin then Ok (WsBinary d) else and_then (from_utf8 d) (\<lambda>s. Ok (WsText s)), w) (\<lambda>m w.
     ques (ws_send X c m w) (\<lambda>_ w. (Ok (), w)))"

text \<open>
  \<open>poll_next\<close> skips pings, pongs and raw frames; it loops as long as such messages come, so it
  takes fuel. The deadline is that of a timeout around it.
\<close>

definition ws_binary_packet :: "bytes \<Rightarrow> bytes" where
  "ws_binary_packet d = u8_byte (eio_packet_id_to_u8 Message) # d"

fun ws_poll_loop :: "nat \<Rightarrow> ext \<Rightarrow> nat option \<Rightarrow> nat \<Rightarrow> world \<Rightarrow> bytes polled \<times> world" where
  "ws_poll_loop 0 X dl c w = (Hang, w)"
| "ws_poll_loop (Suc n) X dl c w =
     (case ws_recv X dl c w of
        (Elapsed, w) \<Rightarrow> (Ok Elapsed, w)
      | (InTime (WsMsg (WsText s)), w) \<Rightarrow> (Ok (InTime (Some s)), w)
      | (InTime (WsMsg (WsBinary d)), w) \<Rightarrow> (Ok (InTime (Some (ws_binary_packet d))), w)
      | (InTime (WsMsg (WsClose f)), w) \<Rightarrow> (Err (close_frame_to_error f), w)
      | (InTime (WsMsg _), w) \<Rightarrow> ws_poll_loop n X dl c w
      | (InTime (WsFail t), w) \<Rightarrow> (Err (WebsocketError t), w)
      | (InTime WsEnd, w) \<Rightarrow> (Ok (InTime None), w))"

definition ws_general_poll_next :: "ext \<Rightarrow> nat option \<Rightarrow> nat \<Rightarrow> world \<Rightarrow> bytes polled \<times> world" where
  "ws_general_poll_next X dl c w = ws_poll_loop (loop_fuel X) X dl c w"

text \<open>The \<open>Stream\<close> instance: the same loop over \<open>ready!(lock.poll_next_unpin(cx))\<close>.\<close>

fun ws_stream_loop :: "nat \<Rightarrow> ext \<Rightarrow> nat option \<Rightarrow> nat \<Rightarrow> world \<Rightarrow> bytes polled \<times> world" where
  "ws_stream_loop 0 X dl c w = (Hang, w)"
| "ws_stream_loop (Suc n) X dl c w =
     (let (next, w) = ws_recv X dl c w in
      case next of
        Elapsed \<Rightarrow> (Ok Elapsed, w)
      | InTime WsEnd \<Rightarrow> (Ok (InTime None), w)
      | InTime (WsFail t) \<Rightarrow> (Err (WebsocketError t), w)
      | InTime (WsMsg m) \<Rightarrow>
          (case m of
             WsText s \<Rightarrow> (Ok (InTime (Some s)), w)
           | WsBinary d \<Rightarrow> (Ok (InTime (Some (ws_binary_packet d))), w)
           | WsClose f \<Rightarrow> (Err (close_frame_to_error f), w)
           | _ \<Rightarrow> ws_stream_loop n X dl c w))"

definition ws_general_stream_next :: "ext \<Rightarrow> nat option \<Rightarrow> nat \<Rightarrow> world \<Rightarrow> bytes polled \<times> world" where
  "ws_general_stream_next X dl c w = ws_stream_loop (loop_fuel X) X dl c w"

subsection \<open>The plain and the secure transport\<close>

record ws_transport =
  ws_conn :: nat
  ws_url :: url

text \<open>The common shape of the two constructors and setters; \<open>s\<close> is the scheme.\<close>

definition unwrap :: "'a option \<Rightarrow> ('e, 'a) outcome" where
  "unwrap x = (case x of None \<Rightarrow> Panic | Some a \<Rightarrow> Ok a)"

definition has_pair :: "ext \<Rightarrow> bytes \<Rightarrow> bytes \<Rightarrow> url \<Rightarrow> bool" where
  "has_pair X k v u = list_ex (\<lambda>(k', v'). k' = k \<and> v' = v) (url_pairs X u)"

definition async_ws_new ::
  "ext \<Rightarrow> url \<Rightarrow> http_headers option \<Rightarrow> world \<Rightarrow> (eio_error, ws_transport) outcome \<times> world" where
  "async_ws_new X u h w =
     (let u1 = url_append_pair X ''transport'' ''websocket'' u in
      ques (unwrap (url_set_scheme X ''ws'' u1), w) (\<lambda>u2 w.
      ques (from_ext WebsocketError (ws_request_ok X u2), w) (\<lambda>_ w.
      ques (ws_connect X u2 h None w) (\<lambda>c w.
        (Ok \<lparr>ws_conn = ws_general_new c, ws_url = u2\<rparr>, w)))))"

definition async_ws_upgrade :: "ext \<Rightarrow> ws_transport \<Rightarrow> world \<Rightarrow> (eio_error, unit) outcome \<times> world" where
  "async_ws_upgrade X t w = ws_general_upgrade X (ws_conn t) w"

definition async_ws_poll_next :: "ext \<Rightarrow> nat option \<Rightarrow> ws_transport \<Rightarrow> world \<Rightarrow> bytes polled \<times> world" where
  "async_ws_poll_next X dl t w = ws_general_poll_next X dl (ws_conn t) w"

definition async_ws_emit ::
  "ext \<Rightarrow> ws_transport \<Rightarrow> bytes \<Rightarrow> bool \<Rightarrow> world \<Rightarrow> (eio_error, unit) outcome \<times> world" where
  "async_ws_emit X t d bin w = ws_general_emit X (ws_conn t) d bin w"

definition async_ws_base_url :: "ws_transport \<Rightarrow> (eio_error, url) outcome" where
  "async_ws_base_url t = Ok (ws_url t)"

definition async_ws_set_base_url :: "ext \<Rightarrow> url \<Rightarrow> ws_transport \<Rightarrow> (eio_error, ws_transport) outcome" where
  "async_ws_set_base_url X u t =
     (let u1 = (if has_pair X ''transport'' ''websocket'' u then u
                else url_append_pair X ''transport'' ''websocket'' u) in
      and_then (unwrap (url_set_scheme X ''ws'' u1)) (\<lambda>u2. Ok (t\<lparr>ws_url := u2\<rparr>)))"

definition async_ws_stream_next :: "ext \<Rightarrow> nat option \<Rightarrow> ws_transport \<Rightarrow> world \<Rightarrow> bytes polled \<times> world" where
  "async_ws_stream_next X dl t w = ws_general_stream_next X dl (ws_conn t) w"

definition async_wss_new ::
  "ext \<Rightarrow> url \<Rightarrow> tls option \<Rightarrow> http_headers option \<Rightarrow> world \<Rightarrow> (eio_error, ws_transport) outcome \<times> world" where
  "async_wss_new X u cfg h w =
     (let u1 = url_append_pair X ''transport'' ''websocket'' u in
      ques (unwrap (url_set_scheme X ''wss'' u1), w) (\<lambda>u2 w.
      ques (from_ext WebsocketError (ws_request_ok X u2), w) (\<lambda>_ w.
      ques (ws_connect X u2 h cfg w) (\<lambda>c w.
        (Ok \<lparr>ws_conn = ws_general_new c, ws_url = u2\<rparr>, w)))))"

definition async_wss_upgrade :: "ext \<Rightarrow> ws_transport \<Rightarrow> world \<Rightarrow> (eio_error, unit) outcome \<times> world" where
  "async_wss_upgrade X t w = ws_general_upgrade X (ws_conn t) w"

definition async_wss_poll_next :: "ext \<Rightarrow> nat option \<Rightarrow> ws_transport \<Rightarrow> world \<Rightarrow> bytes polled \<times> world" where
  "async_wss_poll_next X dl t w = ws_general_poll_next X dl (ws_conn t) w"

definition async_wss_stream_next :: "ext \<Rightarrow> nat option \<Rightarrow> ws_transport \<Rightarrow> world \<Rightarrow> bytes polled \<times> world" where
  "async_wss_stream_next X dl t w = ws_general_stream_next X dl (ws_conn t) w"

definition async_wss_emit ::
  "ext \<Rightarrow> ws_transport \<Rightarrow> bytes \<Rightarrow> bool \<Rightarrow> world \<Rightarrow> (eio_error, unit) outcome \<times> world" where
  "async_wss_emit X t d bin w = ws_general_emit X (ws_conn t) d bin w"

definition async_wss_base_url :: "ws_transport \<Rightarrow> (eio_error, url) outcome" where
  "async_wss_base_url t = Ok (ws_url t)"

definition async_wss_set_base_url :: "ext \<Rightarrow> url \<Rightarrow> ws_transport \<Rightarrow> (eio_error, ws_transport) outcome" where
  "async_wss_set_base_url X u t =
     (let u1 = (if has_pair X ''transport'' ''websocket'' u then u
                else url_append_pair X ''transport'' ''websocket'' u) in
      and_then (unwrap (url_set_scheme X ''wss'' u1)) (\<lambda>u2. Ok (t\<lparr>ws_url := u2\<rparr>)))"

subsection \<open>The blocking wrappers\<close>

definition ws_new ::
  "ext \<Rightarrow> url \<Rightarrow> http_headers option \<Rightarrow> world \<Rightarrow> (eio_error, ws_transport) outcome \<times> world" where
  "ws_new X u h w =
     ques (from_ext IncompleteIo (runtime_build X), w) (\<lambda>_ w.
     ques (async_ws_new X u h w) (\<lambda>t w. (Ok t, w)))"

definition ws_upgrade :: "ext \<Rightarrow> ws_transport \<Rightarrow> world \<Rightarrow> (eio_error, unit) outcome \<times> world" where
  "ws_upgrade X t w = async_ws_upgrade X t w"

definition ws_emit ::
  "ext \<Rightarrow> ws_transport \<Rightarrow> bytes \<Rightarrow> bool \<Rightarrow> world \<Rightarrow> (eio_error, unit) outcome \<times> world" where
  "ws_emit X t d bin w = async_ws_emit X t d bin w"

definition ws_poll :: "ext \<Rightarrow> u64 \<Rightarrow> ws_transport \<Rightarrow> world \<Rightarrow> (eio_error, bytes) outcome \<times> world" where
  "ws_poll X ms t w =
     ques (async_ws_poll_next X (Some (now w + unat ms)) t w) (\<lambda>r w.
       case r of Elapsed \<Rightarrow> (Err PingTimeout, w) | InTime b \<Rightarrow> (ok_or b IncompletePacket, w))"

definition ws_base_url :: "ws_transport \<Rightarrow> (eio_error, url) outcome" where
  "ws_base_url t = async_ws_base_url t"

definition ws_set_base_url :: "ext \<Rightarrow> url \<Rightarrow> ws_transport \<Rightarrow> (eio_error, ws_transport) outcome" where
  "ws_set_base_url X u t = async_ws_set_base_url X u t"

definition wss_new ::
  "ext \<Rightarrow> url \<Rightarrow> tls option \<Rightarrow> http_headers option \<Rightarrow> world \<Rightarrow> (eio_error, ws_transport) outcome \<times> world" where
  "wss_new X u cfg h w =
     ques (from_ext IncompleteIo (runtime_build X), w) (\<lambda>_ w.
     ques (async_wss_new X u cfg h w) (\<lambda>t w. (Ok t, w)))"

definition wss_upgrade :: "ext \<Rightarrow> ws_transport \<Rightarrow> world \<Rightarrow> (eio_error, unit) outcome \<times> world" where
  "wss_upgrade X t w = async_wss_upgrade X t w"

definition wss_emit ::
  "ext \<Rightarrow> ws_transport \<Rightarrow> bytes \<Rightarrow> bool \<Rightarrow> world \<Rightarrow> (eio_error, unit) outcome \<times> world" where
  "wss_emit X t d bin w = async_wss_emit X t d bin w"

definition wss_poll :: "ext \<Rightarrow> u64 \<Rightarrow> ws_transport \<Rightarrow> world \<Rightarrow> (eio_error, bytes) outcome \<times> world" where
  "wss_poll X ms t w =
     ques (async_wss_poll_next X (Some (now w + unat ms)) t w) (\<lambda>r w.
       case r of Elapsed \<Rightarrow> (Err PingTimeout, w) | InTime b \<Rightarrow> (ok_or b IncompletePacket, w))"

definition wss_base_url :: "ws_transport \<Rightarrow> (eio_error, url) outcome" where
  "wss_base_url t = async_wss_base_url t"

definition wss_set_base_url :: "ext \<Rightarrow> url \<Rightarrow> ws_transport \<Rightarrow> (eio_error, ws_transport) outcome" where
  "wss_set_base_url X u t = async_wss_set_base_url X u t"

subsection \<open>The read loop\<close>

text \<open>What the loop does with one item of the connection: skip it, or end with a result.\<close>

fun ws_read :: "ws_item \<Rightarrow> (eio_error, bytes option) outcome option" where
  "ws_read (WsMsg (WsText s)) = Some (Ok (Some s))"
| "ws_read (WsMsg (WsBinary d)) = Some (Ok (Some (ws_binary_packet d)))"
| "ws_read (WsMsg (WsClose f)) = Some (Err (close_frame_to_error f))"
| "ws_read (WsMsg (WsPing d)) = None"
| "ws_read (WsMsg (WsPong d)) = None"
| "ws_read (WsMsg (WsFrame d)) = None"
| "ws_read (WsFail t) = Some (Err (WebsocketError t))"
| "ws_read WsEnd = Some (Ok None)"

definition in_time :: "(eio_error, 'a option) outcome \<Rightarrow> 'a polled" where
  "in_time r = and_then r (\<lambda>a. Ok (InTime a))"

lemma ws_poll_loop_Suc:
  "ws_poll_loop (Suc n) X dl c w =
     (case ws_recv X dl c w of
        (Elapsed, w) \<Rightarrow> (Ok Elapsed, w)
      | (InTime i, w) \<Rightarrow> (case ws_read i of None \<Rightarrow> ws_poll_loop n X dl c w | Some r \<Rightarrow> (in_time r, w)))"
  by (simp add: in_time_def split: prod.split timed.split ws_item.split ws_message.split)

lemma ws_stream_loop_Suc:
  "ws_stream_loop (Suc n) X dl c w =
     (case ws_recv X dl c w of
        (Elapsed, w) \<Rightarrow> (Ok Elapsed, w)
      | (InTime i, w) \<Rightarrow> (case ws_read i of None \<Rightarrow> ws_stream_loop n X dl c w | Some r \<Rightarrow> (in_time r, w)))"
  by (simp add: in_time_def split: prod.split timed.split ws_item.split ws_message.split)

lemmas ws_loop_simps = ws_poll_loop_Suc ws_stream_loop_Suc

declare ws_poll_loop.simps(2) [simp del] ws_stream_loop.simps(2) [simp del]

lemma ws_stream_is_poll: "ws_stream_loop n X dl c w = ws_poll_loop n X dl c w"
  by (induction n arbitrary: w) (simp_all add: ws_loop_simps split: prod.split timed.split option.split)

lemma ws_poll_loop_frame:
  "grows w (snd (ws_poll_loop n X dl c w)) \<and> sent (snd (ws_poll_loop n X dl c w)) = sent w"
proof (induction n arbitrary: w)
  case (Suc n)
  obtain r w1 where r: "ws_recv X dl c w = (r, w1)" by fastforce
  with ws_recv_grows(1) [of w X dl c] ws_recv_grows(2) [of X dl c w]
  have w1: "grows w w1" "sent w1 = sent w" by simp_all
  with r Suc [of w1] show ?case
    by (auto simp: ws_poll_loop_Suc split: timed.split option.split intro: grows_trans)
qed simp

lemma ws_general_poll_frame [simp, world_frames]:
  "grows w (snd (ws_general_poll_next X dl c w))" "sent (snd (ws_general_poll_next X dl c w)) = sent w"
  using ws_poll_loop_frame by (simp_all add: ws_general_poll_next_def)

text \<open>
  The items a call skips are the ones before the first that ends it; without a deadline it
  returns that one, and the clock stands at its arrival.
\<close>

definition skips :: "ext \<Rightarrow> nat \<Rightarrow> nat \<Rightarrow> nat \<Rightarrow> bool" where
  "skips X c k n = (\<forall>j < n. ws_read (snd (net_recv X c (k + j))) = None)"

lemma ws_poll_loop_first:
  assumes "skips X c (received w c) j" and "j < n"
    and "ws_read (snd (net_recv X c (received w c + j))) = Some r"
  shows "fst (ws_poll_loop n X None c w) = in_time r \<and>
    received (snd (ws_poll_loop n X None c w)) c = received w c + j + 1"
  using assms
proof (induction j arbitrary: n w)
  case 0
  then obtain m where "n = Suc m" by (cases n) auto
  with 0 show ?case
    by (simp add: ws_poll_loop_Suc ws_recv_def past_def case_prod_beta Let_def)
next
  case (Suc j)
  then obtain m where n: "n = Suc m" by (cases n) auto
  define w1 where "w1 = snd (ws_recv X None c w)"
  have "ws_read (snd (net_recv X c (received w c))) = None"
    using Suc.prems(1) by (auto simp: skips_def dest: spec [of _ 0])
  then have step: "ws_poll_loop n X None c w = ws_poll_loop m X None c w1"
    by (simp add: n w1_def ws_poll_loop_Suc ws_recv_def past_def case_prod_beta Let_def)
  have k: "received w1 c = Suc (received w c)"
    by (simp add: w1_def ws_recv_def past_def case_prod_beta Let_def)
  have "skips X c (received w1 c) j"
    unfolding skips_def k
  proof (intro allI impI)
    fix i assume "i < j"
    with Suc.prems(1) show "ws_read (snd (net_recv X c (Suc (received w c) + i))) = None"
      by (auto simp: skips_def dest: spec [of _ "Suc i"])
  qed
  with Suc.IH [of w1 m] Suc.prems n k step show ?case by simp
qed

text \<open>
  C16. The websocket read, without a deadline, gives the first item that is not a ping, a pong or a raw frame: text as
  it is, binary behind the byte of a message, a close frame as its code and reason (1005 without
  one), an error as that error, the end as the end. Fuel for one more item than it skips is enough.
\<close>

theorem ws_poll_next_first:
  assumes "skips X c (received w c) j" and "j < loop_fuel X"
    and "ws_read (snd (net_recv X c (received w c + j))) = Some r"
  shows "fst (ws_general_poll_next X None c w) = in_time r \<and>
    received (snd (ws_general_poll_next X None c w)) c = received w c + j + 1"
  unfolding ws_general_poll_next_def using assms by (rule ws_poll_loop_first)

theorem ws_poll_next_first_witness:
  "fst (ws_general_poll_next
      (demo_items [(5, WsMsg (WsPing ''x'')), (9, WsMsg (WsClose (Some (4900, ''bye''))))]) None 0 demo_world) =
   Err (WebsocketClosed 4900 ''bye'')"
  using ws_poll_next_first [of "demo_items [(5, WsMsg (WsPing ''x'')), (9, WsMsg (WsClose (Some (4900, ''bye''))))]"
      0 demo_world 1 "Err (WebsocketClosed 4900 ''bye'')"]
  by (simp add: skips_def in_time_def)

text \<open>The \<open>Stream\<close> instance and \<open>poll_next\<close> read the same.\<close>

lemma ws_general_stream_next_eq [simp]: "ws_general_stream_next X dl c w = ws_general_poll_next X dl c w"
  by (simp add: ws_general_stream_next_def ws_general_poll_next_def ws_stream_is_poll)

end
