(* ===== verification/Eio_Polling.thy ===== *)
theory Eio_Polling
  imports Eio_Websocket
begin

text \<open>
  The polling transports: \<open>transports/polling.rs\<close> and \<open>async_transports/polling.rs\<close> with the
  generator of \<open>asynchronous/generator.rs\<close>.
\<close>

subsection \<open>The blocking transport\<close>

record polling =
  pl_url :: url
  pl_tls :: "tls option"
  pl_headers :: "http_headers option"

definition polling_new ::
  "ext \<Rightarrow> url \<Rightarrow> tls option \<Rightarrow> http_headers option \<Rightarrow> (eio_error, polling) outcome" where
  "polling_new X u t h =
     (if http_client_ok X t h
      then Ok \<lparr>pl_url = url_append_pair X ''transport'' ''polling'' u, pl_tls = t, pl_headers = h\<rparr>
      else Panic)"

text \<open>\<open>Transport::address\<close> over the base URL: the hash of the time keeps caches away.\<close>

definition stamped :: "ext \<Rightarrow> (eio_error, url) outcome \<Rightarrow> world \<Rightarrow> (eio_error, url) outcome" where
  "stamped X base w = and_then base (\<lambda>u. Ok (url_append_pair X ''t'' (time_hash X (now w)) u))"

definition polling_base_url :: "polling \<Rightarrow> (eio_error, url) outcome" where
  "polling_base_url t = Ok (pl_url t)"

definition polling_set_base_url :: "ext \<Rightarrow> url \<Rightarrow> polling \<Rightarrow> (eio_error, polling) outcome" where
  "polling_set_base_url X u t =
     (let u1 = (if has_pair X ''transport'' ''polling'' u then u
                else url_append_pair X ''transport'' ''polling'' u)
      in Ok (t\<lparr>pl_url := u1\<rparr>))"

definition polling_body :: "base64_engine \<Rightarrow> bytes \<Rightarrow> bool \<Rightarrow> bytes" where
  "polling_body B d bin = (if bin then CHR ''b'' # base64_encode B d else d)"

definition http_status_error :: "http_response \<Rightarrow> eio_error" where
  "http_status_error r = (case resp_text r of Inr b \<Rightarrow> HttpErrorWithBody (resp_status r) b
     | Inl e \<Rightarrow> IncompleteHttp (resp_status r))"

definition polling_emit ::
  "ext \<Rightarrow> polling \<Rightarrow> bytes \<Rightarrow> bool \<Rightarrow> world \<Rightarrow> (eio_error, unit) outcome \<times> world" where
  "polling_emit X t d bin w =
     ques (stamped X (polling_base_url t) w, w) (\<lambda>u w.
     ques (http_send X (HttpPost u (polling_body (b64 X) d bin) (pl_headers t) (pl_tls t)) w) (\<lambda>r w.
       if resp_status r \<noteq> 200 then (Err (http_status_error r), w) else (Ok (), w)))"

definition polling_poll :: "ext \<Rightarrow> u64 \<Rightarrow> polling \<Rightarrow> world \<Rightarrow> (eio_error, bytes) outcome \<times> world" where
  "polling_poll X ms t w =
     ques (stamped X (polling_base_url t) w, w) (\<lambda>u w.
     ques (http_send X (HttpGet u (Some ms) (pl_headers t) (pl_tls t)) w) (\<lambda>r w.
       if resp_status r \<noteq> 200 then (Err (http_status_error r), w)
       else (from_ext IncompleteResponseFromReqwest (resp_bytes r), w)))"

subsection \<open>The asynchronous transport\<close>

text \<open>
  The state of the \<open>try_stream!\<close> a generator holds: before a request, with one in flight (the
  instant its answer arrives and the answer), in the chunks of a body, or over.
\<close>

datatype poll_state =
    PollIdle
  | PollFlight nat "bytes + http_response"
  | PollChunks "(bytes + bytes) list"
  | PollOver

record async_polling =
  ap_url :: url
  ap_tls :: "tls option"
  ap_headers :: "http_headers option"
  ap_stream_url :: url
  ap_state :: poll_state

definition async_polling_new ::
  "ext \<Rightarrow> url \<Rightarrow> tls option \<Rightarrow> http_headers option \<Rightarrow> (eio_error, async_polling) outcome" where
  "async_polling_new X u t h =
     (if http_client_ok X t h
      then let u1 = url_append_pair X ''transport'' ''polling'' u
        in Ok \<lparr>ap_url = u1, ap_tls = t, ap_headers = h, ap_stream_url = u1, ap_state = PollIdle\<rparr>
      else Panic)"

definition async_polling_address :: "ext \<Rightarrow> url \<Rightarrow> world \<Rightarrow> (eio_error, url) outcome" where
  "async_polling_address X u w = Ok (url_append_pair X ''t'' (time_hash X (now w)) u)"

text \<open>\<open>send_request\<close>: sending it, and what its stream yields once the answer is there.\<close>

definition send_request :: "ext \<Rightarrow> async_polling \<Rightarrow> world \<Rightarrow> poll_state \<times> world" where
  "send_request X t w =
     (case async_polling_address X (ap_stream_url t) w of
        Ok u \<Rightarrow>
          (let r = HttpGet u None (ap_headers t) (ap_tls t); (d, a) = net_http X (http_count w) r
           in (PollFlight (now w + d) a, did (DidHttp r) (w\<lparr>http_count := http_count w + 1\<rparr>)))
      | _ \<Rightarrow> (PollOver, w))"

definition request_answer :: "bytes + http_response \<Rightarrow> (eio_error, http_response) outcome" where
  "request_answer a =
     and_then (from_ext IncompleteResponseFromReqwest a) (\<lambda>r.
       if resp_status r \<noteq> 200 then Err (http_status_error r) else Ok r)"

text \<open>\<open>stream\<close>: request after request, each chunk of a body an item; an error is the last one.\<close>

fun async_polling_loop ::
  "nat \<Rightarrow> ext \<Rightarrow> nat option \<Rightarrow> async_polling \<Rightarrow> world \<Rightarrow> bytes polled \<times> async_polling \<times> world" where
  "async_polling_loop 0 X dl t w = (Hang, t, w)"
| "async_polling_loop (Suc n) X dl t w =
     (case ap_state t of
        PollOver \<Rightarrow> (Ok (InTime None), t, w)
      | PollIdle \<Rightarrow> (let (s, w) = send_request X t w in async_polling_loop n X dl (t\<lparr>ap_state := s\<rparr>) w)
      | PollFlight i a \<Rightarrow>
          if past dl (max (now w) i) then (Ok Elapsed, t, w\<lparr>now := max (now w) (the dl)\<rparr>)
          else (let w = w\<lparr>now := max (now w) i\<rparr> in
                case request_answer a of
                  Ok r \<Rightarrow> async_polling_loop n X dl (t\<lparr>ap_state := PollChunks (resp_chunks r)\<rparr>) w
                | Err e \<Rightarrow> (Err e, t\<lparr>ap_state := PollOver\<rparr>, w)
                | Panic \<Rightarrow> (Panic, t, w)
                | Hang \<Rightarrow> (Hang, t, w))
      | PollChunks [] \<Rightarrow> async_polling_loop n X dl (t\<lparr>ap_state := PollIdle\<rparr>) w
      | PollChunks (Inr b # cs) \<Rightarrow> (Ok (InTime (Some b)), t\<lparr>ap_state := PollChunks cs\<rparr>, w)
      | PollChunks (Inl e # cs) \<Rightarrow>
          (Err (IncompleteResponseFromReqwest e), t\<lparr>ap_state := PollOver\<rparr>, w))"

text \<open>A generator is the state of its stream; polling it polls the stream.\<close>

definition generator_new :: "'g \<Rightarrow> 'g" where
  "generator_new g = g"

definition generator_poll_next :: "('g \<Rightarrow> world \<Rightarrow> 'a polled \<times> 'g \<times> world) \<Rightarrow> 'g \<Rightarrow> world \<Rightarrow> 'a polled \<times> 'g \<times> world" where
  "generator_poll_next step g w = step g w"

definition async_polling_next ::
  "ext \<Rightarrow> nat option \<Rightarrow> async_polling \<Rightarrow> world \<Rightarrow> bytes polled \<times> async_polling \<times> world" where
  "async_polling_next X dl t w =
     generator_poll_next (async_polling_loop (loop_fuel X) X dl) (generator_new t) w"

definition async_polling_base_url :: "async_polling \<Rightarrow> (eio_error, url) outcome" where
  "async_polling_base_url t = Ok (ap_url t)"

definition async_polling_set_base_url :: "ext \<Rightarrow> url \<Rightarrow> async_polling \<Rightarrow> (eio_error, async_polling) outcome" where
  "async_polling_set_base_url X u t =
     (let u1 = (if has_pair X ''transport'' ''polling'' u then u
                else url_append_pair X ''transport'' ''polling'' u)
      in Ok (t\<lparr>ap_url := u1\<rparr>))"

definition async_polling_emit ::
  "ext \<Rightarrow> async_polling \<Rightarrow> bytes \<Rightarrow> bool \<Rightarrow> world \<Rightarrow> (eio_error, unit) outcome \<times> world" where
  "async_polling_emit X t d bin w =
     ques (stamped X (async_polling_base_url t) w, w) (\<lambda>u w.
     ques (http_send X (HttpPost u (polling_body (b64 X) d bin) (ap_headers t) (ap_tls t)) w) (\<lambda>r w.
       if resp_status r \<noteq> 200 then (Err (http_status_error r), w) else (Ok (), w)))"

subsection \<open>What the transports send and return\<close>

lemma polling_body_packet:
  assumes "base64_codec B"
  shows "eio_packet_try_from B (polling_body B d True) = Ok (eio_packet_new MessageBinary d)"
proof -
  have "u8_byte (to_string_byte MessageBinary) = CHR ''b''" by code_simp
  with assms eio_codec.dec_enc [of B "eio_packet_new MessageBinary d"] show ?thesis
    by (simp add: polling_body_def eio_packet_into_bytes_def eio_packet_new_def eio_packet_wf_def)
qed

text \<open>\<open>answer X w r\<close>: what the network answers the request \<open>r\<close> made now.\<close>

definition answer :: "ext \<Rightarrow> world \<Rightarrow> http_request \<Rightarrow> bytes + http_response" where
  "answer X w r = snd (net_http X (http_count w) r)"

definition post_request :: "ext \<Rightarrow> polling \<Rightarrow> bytes \<Rightarrow> bool \<Rightarrow> world \<Rightarrow> http_request" where
  "post_request X t d bin w =
     HttpPost (url_append_pair X ''t'' (time_hash X (now w)) (pl_url t)) (polling_body (b64 X) d bin)
       (pl_headers t) (pl_tls t)"

lemma polling_emit_result:
  "fst (polling_emit X t d bin w) =
     and_then (request_answer (answer X w (post_request X t d bin w))) (\<lambda>_. Ok ())"
  by (cases "snd (net_http X (http_count w) (post_request X t d bin w))")
     (simp_all add: polling_emit_def stamped_def polling_base_url_def http_send_def case_prod_beta
        request_answer_def answer_def post_request_def)
lemma polling_emit_sent [simp]:
  "sent (snd (polling_emit X t d bin w)) = sent w @ [DidHttp (post_request X t d bin w)]"
proof -
  let ?r = "http_send X (post_request X t d bin w) w"
  have "sent (snd ?r) = sent w @ [DidHttp (post_request X t d bin w)]" by simp
  then show ?thesis
    by (cases ?r; cases "fst ?r")
       (auto simp: polling_emit_def stamped_def polling_base_url_def post_request_def)
qed

lemma polling_emit_grows [simp]: "grows w (snd (polling_emit X t d bin w))"
  by (auto simp: polling_emit_def stamped_def polling_base_url_def intro!: grows_ques)

lemma polling_poll_grows [simp]: "grows w (snd (polling_poll X ms t w))"
  by (auto simp: polling_poll_def stamped_def polling_base_url_def intro!: grows_ques)

lemma send_request_frame [simp]:
  "grows w (snd (send_request X t w))" "now (snd (send_request X t w)) = now w"
  by (simp_all add: send_request_def async_polling_address_def case_prod_beta Let_def grows_def)

lemma async_polling_loop_grows: "grows w (snd (snd (async_polling_loop n X dl t w)))"
proof (induction n arbitrary: t w)
  case (Suc n)
  have clock: "grows w (w\<lparr>now := max (now w) i\<rparr>)" for i by (simp add: grows_def)
  have "grows w (snd (snd (async_polling_loop n X dl t' (w\<lparr>now := max (now w) i\<rparr>))))" for t' i
    using clock Suc by (rule grows_trans)
  moreover have "grows w (snd (snd (async_polling_loop n X dl t' (snd (send_request X t w)))))" for t'
    by (rule grows_trans [OF send_request_frame(1) Suc])
  ultimately show ?case
    using Suc clock by (simp add: Let_def case_prod_beta split: poll_state.split list.split sum.split outcome.split)
qed simp

lemma async_polling_next_grows [simp]: "grows w (snd (snd (async_polling_next X dl t w)))"
  by (simp add: async_polling_next_def generator_poll_next_def async_polling_loop_grows)

lemma async_polling_emit_grows [simp]: "grows w (snd (async_polling_emit X t d bin w))"
  by (auto simp: async_polling_emit_def stamped_def async_polling_base_url_def intro!: grows_ques)

text \<open>
  Emitting over polling is one POST to the base URL with the time stamp: the data, or for an
  attachment \<open>b\<close> and its base64 text, which the packet decoder reads as the binary message. It
  succeeds exactly when the answer has status 200; another status is an error with the body.
\<close>

lemma polling_emit_posts:
  assumes "base64_codec (b64 X)"
  shows "sent (snd (polling_emit X t d bin w)) = sent w @ [DidHttp (post_request X t d bin w)] \<and>
    fst (polling_emit X t d bin w) =
      (case answer X w (post_request X t d bin w) of
         Inl e \<Rightarrow> Err (IncompleteResponseFromReqwest e)
       | Inr r \<Rightarrow> if resp_status r = 200 then Ok () else Err (http_status_error r)) \<and>
    (bin \<longrightarrow> eio_packet_try_from (b64 X) (polling_body (b64 X) d bin) = Ok (eio_packet_new MessageBinary d))"
proof -
  have "fst (polling_emit X t d bin w) =
      (case answer X w (post_request X t d bin w) of
         Inl e \<Rightarrow> Err (IncompleteResponseFromReqwest e)
       | Inr r \<Rightarrow> if resp_status r = 200 then Ok () else Err (http_status_error r))"
    unfolding polling_emit_result by (simp add: request_answer_def split: sum.split)
  with assms show ?thesis by (simp add: polling_body_packet)
qed

end
