(* ===== verification/Eio_Transport.thy ===== *)
theory Eio_Transport
  imports Eio_Polling
begin

text \<open>
  \<open>transport.rs\<close> and \<open>asynchronous/transport.rs\<close>: the traits as a locale, the enumerations of the
  transports as datatypes, and \<open>as_transport\<close> as a case distinction in each operation.
\<close>

datatype transport = Polling polling | WebsocketSecure ws_transport | Websocket ws_transport

definition transport_from_polling :: "polling \<Rightarrow> transport" where
  "transport_from_polling t = Polling t"

definition transport_from_wss :: "ws_transport \<Rightarrow> transport" where
  "transport_from_wss t = WebsocketSecure t"

definition transport_from_ws :: "ws_transport \<Rightarrow> transport" where
  "transport_from_ws t = Websocket t"

fun transport_emit ::
  "ext \<Rightarrow> transport \<Rightarrow> bytes \<Rightarrow> bool \<Rightarrow> world \<Rightarrow> (eio_error, unit) outcome \<times> world" where
  "transport_emit X (Polling t) d bin w = polling_emit X t d bin w"
| "transport_emit X (Websocket t) d bin w = ws_emit X t d bin w"
| "transport_emit X (WebsocketSecure t) d bin w = wss_emit X t d bin w"

fun transport_poll :: "ext \<Rightarrow> u64 \<Rightarrow> transport \<Rightarrow> world \<Rightarrow> (eio_error, bytes) outcome \<times> world" where
  "transport_poll X ms (Polling t) w = polling_poll X ms t w"
| "transport_poll X ms (Websocket t) w = ws_poll X ms t w"
| "transport_poll X ms (WebsocketSecure t) w = wss_poll X ms t w"

fun transport_base_url :: "transport \<Rightarrow> (eio_error, url) outcome" where
  "transport_base_url (Polling t) = polling_base_url t"
| "transport_base_url (Websocket t) = ws_base_url t"
| "transport_base_url (WebsocketSecure t) = wss_base_url t"

fun transport_set_base_url :: "ext \<Rightarrow> url \<Rightarrow> transport \<Rightarrow> (eio_error, transport) outcome" where
  "transport_set_base_url X u (Polling t) = and_then (polling_set_base_url X u t) (\<lambda>t. Ok (Polling t))"
| "transport_set_base_url X u (Websocket t) = and_then (ws_set_base_url X u t) (\<lambda>t. Ok (Websocket t))"
| "transport_set_base_url X u (WebsocketSecure t) =
     and_then (wss_set_base_url X u t) (\<lambda>t. Ok (WebsocketSecure t))"

definition transport_address :: "ext \<Rightarrow> transport \<Rightarrow> world \<Rightarrow> (eio_error, url) outcome" where
  "transport_address X t w = stamped X (transport_base_url t) w"

datatype async_transport =
    AsyncPolling async_polling
  | AsyncWebsocket ws_transport
  | AsyncWebsocketSecure ws_transport

definition async_transport_from_polling :: "async_polling \<Rightarrow> async_transport" where
  "async_transport_from_polling t = AsyncPolling t"

definition async_transport_from_wss :: "ws_transport \<Rightarrow> async_transport" where
  "async_transport_from_wss t = AsyncWebsocketSecure t"

definition async_transport_from_ws :: "ws_transport \<Rightarrow> async_transport" where
  "async_transport_from_ws t = AsyncWebsocket t"

fun async_transport_emit ::
  "ext \<Rightarrow> async_transport \<Rightarrow> bytes \<Rightarrow> bool \<Rightarrow> world \<Rightarrow> (eio_error, unit) outcome \<times> world" where
  "async_transport_emit X (AsyncPolling t) d bin w = async_polling_emit X t d bin w"
| "async_transport_emit X (AsyncWebsocket t) d bin w = async_ws_emit X t d bin w"
| "async_transport_emit X (AsyncWebsocketSecure t) d bin w = async_wss_emit X t d bin w"

text \<open>\<open>as_pin_box\<close>: the next item of the byte stream of the transport.\<close>

fun async_transport_next ::
  "ext \<Rightarrow> nat option \<Rightarrow> async_transport \<Rightarrow> world \<Rightarrow> bytes polled \<times> async_transport \<times> world" where
  "async_transport_next X dl (AsyncPolling t) w =
     (let (r, t', w) = async_polling_next X dl t w in (r, AsyncPolling t', w))"
| "async_transport_next X dl (AsyncWebsocket t) w =
     (let (r, w) = async_ws_stream_next X dl t w in (r, AsyncWebsocket t, w))"
| "async_transport_next X dl (AsyncWebsocketSecure t) w =
     (let (r, w) = async_wss_stream_next X dl t w in (r, AsyncWebsocketSecure t, w))"

fun async_transport_base_url :: "async_transport \<Rightarrow> (eio_error, url) outcome" where
  "async_transport_base_url (AsyncPolling t) = async_polling_base_url t"
| "async_transport_base_url (AsyncWebsocket t) = async_ws_base_url t"
| "async_transport_base_url (AsyncWebsocketSecure t) = async_wss_base_url t"

fun async_transport_set_base_url ::
  "ext \<Rightarrow> url \<Rightarrow> async_transport \<Rightarrow> (eio_error, async_transport) outcome" where
  "async_transport_set_base_url X u (AsyncPolling t) =
     and_then (async_polling_set_base_url X u t) (\<lambda>t. Ok (AsyncPolling t))"
| "async_transport_set_base_url X u (AsyncWebsocket t) =
     and_then (async_ws_set_base_url X u t) (\<lambda>t. Ok (AsyncWebsocket t))"
| "async_transport_set_base_url X u (AsyncWebsocketSecure t) =
     and_then (async_wss_set_base_url X u t) (\<lambda>t. Ok (AsyncWebsocketSecure t))"

definition async_transport_address :: "ext \<Rightarrow> async_transport \<Rightarrow> world \<Rightarrow> (eio_error, url) outcome" where
  "async_transport_address X t w = stamped X (async_transport_base_url t) w"

subsection \<open>The contract of a transport\<close>

text \<open>
  What a client relies on. \<open>get\<close> always answers; after \<open>put\<close> the URL names the transport; \<open>send\<close>
  only adds to the trace, at most one message, and always that one if it succeeds. \<open>fits X k u\<close> is
  what it needs of the URL library: appending a pair makes it one of the pairs, and changing the
  scheme keeps the pairs.
\<close>

definition fits :: "ext \<Rightarrow> bytes \<Rightarrow> url \<Rightarrow> bool" where
  "fits X k u \<longleftrightarrow>
     has_pair X ''transport'' k (url_append_pair X ''transport'' k u) \<and>
     (\<forall>s \<in> {''ws'', ''wss''}. \<forall>v \<in> {u, url_append_pair X ''transport'' k u}.
        case url_set_scheme X s v of None \<Rightarrow> True | Some v' \<Rightarrow> url_pairs X v' = url_pairs X v)"

text \<open>Sending a list of messages with one of them, whatever each call returns; counts the successes.\<close>

fun send_all :: "('t \<Rightarrow> bytes \<Rightarrow> bool \<Rightarrow> world \<Rightarrow> (eio_error, unit) outcome \<times> world) \<Rightarrow>
    't \<Rightarrow> (bytes \<times> bool) list \<Rightarrow> world \<Rightarrow> nat \<times> world" where
  "send_all send t [] w = (0, w)"
| "send_all send t ((d, b) # ms) w =
     (let (r, w) = send t d b w; (n, w) = send_all send t ms w in ((if is_ok r then 1 else 0) + n, w))"

locale transport_contract =
  fixes X :: ext
    and kind :: "'t \<Rightarrow> bytes"
    and get :: "'t \<Rightarrow> (eio_error, url) outcome"
    and put :: "url \<Rightarrow> 't \<Rightarrow> (eio_error, 't) outcome"
    and send :: "'t \<Rightarrow> bytes \<Rightarrow> bool \<Rightarrow> world \<Rightarrow> (eio_error, unit) outcome \<times> world"
  assumes get_ok: "is_ok (get t)"
    and put_kind: "put u t = Ok t' \<Longrightarrow> kind t' = kind t"
    and put_get: "put u t = Ok t' \<Longrightarrow> fits X (kind t) u \<Longrightarrow>
      \<exists>u'. get t' = Ok u' \<and> has_pair X ''transport'' (kind t) u'"
    and send_grows: "grows w (snd (send t d bin w))"
    and send_returned: "returned (fst (send t d bin w))"
    and send_once: "\<exists>es. sent (snd (send t d bin w)) = sent w @ es \<and> length es \<le> 1 \<and>
      (is_ok (fst (send t d bin w)) \<longrightarrow> length es = 1)"
begin

lemma send_all_grows: "grows w (snd (send_all send t ms w))"
proof (induction ms arbitrary: w)
  case (Cons m ms)
  obtain d b where m: "m = (d, b)" by (cases m)
  have "grows w (snd (send_all send t ms (snd (send t d b w))))"
    using send_grows Cons by (rule grows_trans)
  then show ?case by (simp add: m case_prod_beta Let_def)
qed simp

lemma send_all_bounds:
  "length (sent w) + fst (send_all send t ms w) \<le> length (sent (snd (send_all send t ms w))) \<and>
   length (sent (snd (send_all send t ms w))) \<le> length (sent w) + length ms"
proof (induction ms arbitrary: w)
  case (Cons m ms)
  obtain d b where m: "m = (d, b)" by (cases m)
  from send_once [of t d b w] Cons [of "snd (send t d b w)"] show ?case
    by (auto simp: m case_prod_beta Let_def)
qed simp

lemma put_put: "put u t = Ok t1 \<Longrightarrow> put v t1 = Ok t2 \<Longrightarrow> fits X (kind t) v \<Longrightarrow>
    \<exists>u'. get t2 = Ok u' \<and> has_pair X ''transport'' (kind t) u'"
  using put_get [of v t1 t2] put_kind [of u t t1] by simp

end

subsection \<open>The transports keep the contract\<close>

lemma ws_general_emit_unfold:
  "ws_general_emit X c d bin w =
     (if \<not> bin \<and> \<not> utf8_valid d then (Err (InvalidUtf8 (utf8_error_text d)), w)
      else ques (ws_send X c (if bin then WsBinary d else WsText d) w) (\<lambda>_ w. (Ok (), w)))"
  by (simp add: ws_general_emit_def from_utf8_def)

text \<open>An operation that ends after one effect of the network, whatever it answers.\<close>

lemma once_after:
  assumes "sent (snd rs) = sent w @ [e]" and "grows w (snd rs)" and "returned (fst rs)"
    and "\<And>a w1. snd (k a w1) = w1" and "\<And>a w1. returned (fst (k a w1))"
  shows "grows w (snd (ques rs k)) \<and> returned (fst (ques rs k)) \<and> sent (snd (ques rs k)) = sent w @ [e]"
  using assms by (cases "(rs, k)" rule: ques.cases) auto

lemma ws_general_emit_frame:
  "grows w (snd (ws_general_emit X c d bin w)) \<and> returned (fst (ws_general_emit X c d bin w)) \<and>
   (\<exists>es. sent (snd (ws_general_emit X c d bin w)) = sent w @ es \<and> length es \<le> 1 \<and>
     (is_ok (fst (ws_general_emit X c d bin w)) \<longrightarrow> length es = 1))"
proof (cases "\<not> bin \<and> \<not> utf8_valid d")
  case False
  let ?m = "if bin then WsBinary d else WsText d"
  let ?r = "ques (ws_send X c ?m w) (\<lambda>_ w. (Ok (), w))"
  have eq: "ws_general_emit X c d bin w = ?r"
    using False by (simp only: ws_general_emit_unfold if_False)
  have "grows w (snd ?r) \<and> returned (fst ?r) \<and> sent (snd ?r) = sent w @ [DidSend c ?m]"
    by (rule once_after) (simp_all del: fun_upd_apply)
  then show ?thesis unfolding eq by (intro conjI exI [of _ "[DidSend c ?m]"]) simp_all
qed (simp add: ws_general_emit_unfold)

lemma post_emit_frame:
  "grows w (snd (ques (http_send X r w) (\<lambda>a w. if resp_status a \<noteq> 200 then (Err (http_status_error a), w)
     else (Ok (), w)))) \<and>
   returned (fst (ques (http_send X r w) (\<lambda>a w. if resp_status a \<noteq> 200 then (Err (http_status_error a), w)
     else (Ok (), w)))) \<and>
   sent (snd (ques (http_send X r w) (\<lambda>a w. if resp_status a \<noteq> 200 then (Err (http_status_error a), w)
     else (Ok (), w)))) = sent w @ [DidHttp r]"
  by (rule once_after) simp_all

lemma polling_emit_frame:
  "grows w (snd (polling_emit X t d bin w)) \<and> returned (fst (polling_emit X t d bin w)) \<and>
   (\<exists>es. sent (snd (polling_emit X t d bin w)) = sent w @ es \<and> length es \<le> 1 \<and>
     (is_ok (fst (polling_emit X t d bin w)) \<longrightarrow> length es = 1))"
  unfolding polling_emit_def stamped_def polling_base_url_def and_then.simps ques.simps
  using post_emit_frame by fastforce

lemma async_polling_emit_frame:
  "grows w (snd (async_polling_emit X t d bin w)) \<and> returned (fst (async_polling_emit X t d bin w)) \<and>
   (\<exists>es. sent (snd (async_polling_emit X t d bin w)) = sent w @ es \<and> length es \<le> 1 \<and>
     (is_ok (fst (async_polling_emit X t d bin w)) \<longrightarrow> length es = 1))"
  unfolding async_polling_emit_def stamped_def async_polling_base_url_def and_then.simps ques.simps
  using post_emit_frame by fastforce

text \<open>The kind of a transport, as its URL spells it.\<close>

definition transport_kind :: "transport \<Rightarrow> bytes" where
  "transport_kind t = (case t of Polling _ \<Rightarrow> ''polling'' | _ \<Rightarrow> ''websocket'')"

definition async_transport_kind :: "async_transport \<Rightarrow> bytes" where
  "async_transport_kind t = (case t of AsyncPolling _ \<Rightarrow> ''polling'' | _ \<Rightarrow> ''websocket'')"

lemmas ws_url_defs =
  ws_base_url_def ws_set_base_url_def wss_base_url_def wss_set_base_url_def
  async_ws_base_url_def async_ws_set_base_url_def async_wss_base_url_def async_wss_set_base_url_def

lemma fits_scheme:
  assumes "fits X ''websocket'' u" and "s \<in> {''ws'', ''wss''}"
    and "url_set_scheme X s (if has_pair X ''transport'' ''websocket'' u then u
           else url_append_pair X ''transport'' ''websocket'' u) = Some v"
  shows "has_pair X ''transport'' ''websocket'' v"
  using assms by (auto simp: fits_def has_pair_def split: if_splits option.splits)

lemma unwrap_Ok [simp]: "unwrap x = Ok a \<longleftrightarrow> x = Some a"
  by (simp add: unwrap_def split: option.split)

lemma set_base_url_pair:
  "polling_set_base_url X u p = Ok p' \<Longrightarrow> fits X ''polling'' u \<Longrightarrow>
     has_pair X ''transport'' ''polling'' (pl_url p')"
  "async_polling_set_base_url X u a = Ok a' \<Longrightarrow> fits X ''polling'' u \<Longrightarrow>
     has_pair X ''transport'' ''polling'' (ap_url a')"
  "async_ws_set_base_url X u t = Ok t' \<Longrightarrow> fits X ''websocket'' u \<Longrightarrow>
     has_pair X ''transport'' ''websocket'' (ws_url t')"
  "async_wss_set_base_url X u t = Ok t' \<Longrightarrow> fits X ''websocket'' u \<Longrightarrow>
     has_pair X ''transport'' ''websocket'' (ws_url t')"
  using fits_scheme [of X u "''ws''" "ws_url t'"] fits_scheme [of X u "''wss''" "ws_url t'"]
  by (auto simp: polling_set_base_url_def async_polling_set_base_url_def async_ws_set_base_url_def
      async_wss_set_base_url_def fits_def Let_def and_then_Ok_iff split: if_splits)

interpretation transport: transport_contract X transport_kind transport_base_url
  "transport_set_base_url X" "transport_emit X" for X
proof unfold_locales
  fix t show "is_ok (transport_base_url t)"
    by (cases t) (simp_all add: polling_base_url_def ws_url_defs)
next
  fix u t t' assume "transport_set_base_url X u t = Ok t'"
  then show "transport_kind t' = transport_kind t"
    by (cases t) (auto simp: transport_kind_def and_then_Ok_iff)
next
  fix u t t' assume put: "transport_set_base_url X u t = Ok t'" and fit: "fits X (transport_kind t) u"
  from put fit show "\<exists>u'. transport_base_url t' = Ok u' \<and> has_pair X ''transport'' (transport_kind t) u'"
    by (cases t)
       (auto simp: transport_kind_def and_then_Ok_iff polling_base_url_def ws_base_url_def wss_base_url_def
          async_ws_base_url_def async_wss_base_url_def ws_set_base_url_def wss_set_base_url_def
          dest: set_base_url_pair)
next
  fix w t d bin
  have f: "grows w (snd (transport_emit X t d bin w)) \<and> returned (fst (transport_emit X t d bin w)) \<and>
      (\<exists>es. sent (snd (transport_emit X t d bin w)) = sent w @ es \<and> length es \<le> 1 \<and>
        (is_ok (fst (transport_emit X t d bin w)) \<longrightarrow> length es = 1))"
    using ws_general_emit_frame polling_emit_frame
    by (cases t) (simp_all only: transport_emit.simps ws_emit_def wss_emit_def async_ws_emit_def async_wss_emit_def)
  from f show "grows w (snd (transport_emit X t d bin w))" by blast
  from f show "returned (fst (transport_emit X t d bin w))" by blast
  from f show "\<exists>es. sent (snd (transport_emit X t d bin w)) = sent w @ es \<and> length es \<le> 1 \<and>
        (is_ok (fst (transport_emit X t d bin w)) \<longrightarrow> length es = 1)" by blast
qed

interpretation async_transport: transport_contract X async_transport_kind async_transport_base_url
  "async_transport_set_base_url X" "async_transport_emit X" for X
proof unfold_locales
  fix t show "is_ok (async_transport_base_url t)"
    by (cases t) (simp_all add: async_polling_base_url_def ws_url_defs)
next
  fix u t t' assume "async_transport_set_base_url X u t = Ok t'"
  then show "async_transport_kind t' = async_transport_kind t"
    by (cases t) (auto simp: async_transport_kind_def and_then_Ok_iff)
next
  fix u t t'
  assume "async_transport_set_base_url X u t = Ok t'" and "fits X (async_transport_kind t) u"
  then show "\<exists>u'. async_transport_base_url t' = Ok u' \<and>
      has_pair X ''transport'' (async_transport_kind t) u'"
    by (cases t)
       (auto simp: async_transport_kind_def and_then_Ok_iff async_polling_base_url_def
          async_ws_base_url_def async_wss_base_url_def dest: set_base_url_pair)
next
  fix w t d bin
  have f: "grows w (snd (async_transport_emit X t d bin w)) \<and>
      returned (fst (async_transport_emit X t d bin w)) \<and>
      (\<exists>es. sent (snd (async_transport_emit X t d bin w)) = sent w @ es \<and> length es \<le> 1 \<and>
        (is_ok (fst (async_transport_emit X t d bin w)) \<longrightarrow> length es = 1))"
    using ws_general_emit_frame async_polling_emit_frame
    by (cases t) (simp_all only: async_transport_emit.simps async_ws_emit_def async_wss_emit_def)
  from f show "grows w (snd (async_transport_emit X t d bin w))" by blast
  from f show "returned (fst (async_transport_emit X t d bin w))" by blast
  from f show "\<exists>es. sent (snd (async_transport_emit X t d bin w)) = sent w @ es \<and> length es \<le> 1 \<and>
        (is_ok (fst (async_transport_emit X t d bin w)) \<longrightarrow> length es = 1)" by blast
qed

lemma ws_poll_frame:
  "grows w (snd (ws_poll X ms t w)) \<and> sent (snd (ws_poll X ms t w)) = sent w"
  "grows w (snd (wss_poll X ms t w)) \<and> sent (snd (wss_poll X ms t w)) = sent w"
proof -
  have "grows w (snd (ques r (\<lambda>r w. case r of Elapsed \<Rightarrow> (Err PingTimeout, w)
      | InTime b \<Rightarrow> (ok_or b IncompletePacket, w)))) \<and>
    sent (snd (ques r (\<lambda>r w. case r of Elapsed \<Rightarrow> (Err PingTimeout, w)
      | InTime b \<Rightarrow> (ok_or b IncompletePacket, w)))) = sent w"
    if "grows w (snd r)" "sent (snd r) = sent w" for r :: "bytes polled \<times> world"
    using that by (cases r; cases "fst r") (auto split: timed.split)
  then show "grows w (snd (ws_poll X ms t w)) \<and> sent (snd (ws_poll X ms t w)) = sent w"
    "grows w (snd (wss_poll X ms t w)) \<and> sent (snd (wss_poll X ms t w)) = sent w"
    by (simp_all add: ws_poll_def wss_poll_def async_ws_poll_next_def async_wss_poll_next_def)
qed

lemma transport_poll_grows [simp]: "grows w (snd (transport_poll X ms t w))"
  using ws_poll_frame by (cases t) simp_all

lemma async_transport_next_grows [simp]: "grows w (snd (snd (async_transport_next X dl t w)))"
  by (cases t) (simp_all add: case_prod_beta Let_def async_ws_stream_next_def async_wss_stream_next_def)

text \<open>
  Setting the base URL of any of the six transports leaves a URL that names the transport,
  and a second call keeps that: the pair the server chooses the transport by is never lost.
\<close>

lemma transport_url_names_it:
  assumes "fits X (transport_kind t) u" and "fits X (async_transport_kind a) v"
    and "transport_set_base_url X u t = Ok t'" and "async_transport_set_base_url X v a = Ok a'"
  shows "(\<exists>u'. transport_base_url t' = Ok u' \<and> has_pair X ''transport'' (transport_kind t) u') \<and>
    (\<exists>v'. async_transport_base_url a' = Ok v' \<and> has_pair X ''transport'' (async_transport_kind a) v')"
  using transport.put_get [OF assms(3,1)] async_transport.put_get [OF assms(4,2)] by blast

text \<open>
  Sending any messages over any blocking transport: never more messages on the network than
  calls, never fewer than calls that succeeded, and the trace only grows. The same holds of the
  asynchronous transports.
\<close>

lemma transport_sends_at_most_once:
  "grows w (snd (send_all (transport_emit X) t ms w)) \<and>
   length (sent w) + fst (send_all (transport_emit X) t ms w) \<le> length (sent (snd (send_all (transport_emit X) t ms w))) \<and>
   length (sent (snd (send_all (transport_emit X) t ms w))) \<le> length (sent w) + length ms \<and>
   length (sent (snd (send_all (async_transport_emit X) a ms w))) \<le> length (sent w) + length ms"
  using transport.send_all_grows transport.send_all_bounds async_transport.send_all_bounds by blast

end
