(* ===== verification/Connection.thy ===== *)
theory Connection
  imports World
begin

text \<open>
  The contract of a connection, which the sockets of both protocols provide: \<open>is_open\<close> reads the
  flag, \<open>send\<close> on a closed connection is refused with the error \<open>closed_error\<close> and reaches neither
  the network nor the state, and whatever \<open>close\<close> returns, the connection is closed after it.
  The state is a pair whose second part is the world.
\<close>

text \<open>Sending messages one after the other, whatever each call returns; collects the results.\<close>

fun send_each ::
  "('m \<Rightarrow> 's \<times> world \<Rightarrow> ('e, unit) outcome \<times> 's \<times> world) \<Rightarrow> 'm list \<Rightarrow> 's \<times> world \<Rightarrow>
   ('e, unit) outcome list \<times> 's \<times> world" where
  "send_each send [] sw = ([], sw)"
| "send_each send (m # ms) sw =
     (let (r, sw) = send m sw; (rs, sw) = send_each send ms sw in (r # rs, sw))"

locale connection =
  fixes is_open :: "'s \<Rightarrow> bool"
    and send :: "'m \<Rightarrow> 's \<times> world \<Rightarrow> ('e, unit) outcome \<times> 's \<times> world"
    and close :: "'s \<times> world \<Rightarrow> ('e, unit) outcome \<times> 's \<times> world"
    and closed_error :: 'e
  assumes send_closed: "\<not> is_open s \<Longrightarrow>
      \<exists>w'. send m (s, w) = (Err closed_error, s, w') \<and> sent w' = sent w \<and> grows w w'"
    and close_closes: "returned (fst (close (s, w))) \<Longrightarrow> \<not> is_open (fst (snd (close (s, w))))"
    and close_grows: "grows w (snd (snd (close (s, w))))"
begin

lemma send_each_closed:
  "\<not> is_open s \<Longrightarrow>
   \<exists>w'. send_each send ms (s, w) = (replicate (length ms) (Err closed_error), s, w') \<and>
     sent w' = sent w \<and> grows w w'"
proof (induction ms arbitrary: w)
  case (Cons m ms)
  then obtain w1 where w1: "send m (s, w) = (Err closed_error, s, w1)" "sent w1 = sent w" "grows w w1"
    using send_closed by blast
  with Cons obtain w2 where "send_each send ms (s, w1) = (replicate (length ms) (Err closed_error), s, w2)"
    "sent w2 = sent w1" "grows w1 w2" by blast
  with w1 show ?case by (auto intro: grows_trans)
qed simp

lemma silent_after_close:
  assumes "returned (fst (close (s, w)))"
  shows "\<exists>w'. send_each send ms (snd (close (s, w))) =
      (replicate (length ms) (Err closed_error), fst (snd (close (s, w))), w') \<and>
    sent w' = sent (snd (snd (close (s, w)))) \<and> grows w w'"
proof -
  obtain w' where "send_each send ms (fst (snd (close (s, w))), snd (snd (close (s, w)))) =
      (replicate (length ms) (Err closed_error), fst (snd (close (s, w))), w')"
    "sent w' = sent (snd (snd (close (s, w))))" "grows (snd (snd (close (s, w)))) w'"
    using send_each_closed [OF close_closes [OF assms]] by blast
  with close_grows [of w s] show ?thesis by (auto intro: grows_trans)
qed

end

end
