(* ===== verification/Eio_Socket.thy ===== *)
theory Eio_Socket
  imports Eio_Transport Connection
begin

text \<open>
  \<open>engineio/src/socket.rs\<close>: the blocking socket. Its \<open>Arc\<close>s, atomics and locks are the fields of
  the record, shared by all clones of it; a state is the socket with the world. Instants are
  milliseconds of the world's clock.
\<close>

record eio_socket =
  es_transport :: transport
  es_on_close :: "callback option"
  es_on_data :: "callback option"
  es_on_error :: "callback option"
  es_on_open :: "callback option"
  es_on_packet :: "callback option"
  es_connected :: bool
  es_last_ping :: nat
  es_last_pong :: nat
  es_connection_data :: handshake_packet
  es_remaining :: "eio_packet list option"
  es_max_ping_timeout :: u64

type_synonym eio_state = "eio_socket \<times> world"

definition DEFAULT_MAX_POLL_TIMEOUT :: u64 where
  "DEFAULT_MAX_POLL_TIMEOUT = 45000"

text \<open>\<open>ping_interval + ping_timeout\<close> on \<open>u64\<close>: a build with overflow checks panics.\<close>

definition add_u64 :: "bool \<Rightarrow> u64 \<Rightarrow> u64 \<Rightarrow> ('e, u64) outcome" where
  "add_u64 oc a b = (if oc \<and> unat a + unat b \<ge> 2 ^ 64 then Panic else Ok (a + b))"

definition eio_socket_new ::
  "ext \<Rightarrow> transport \<Rightarrow> handshake_packet \<Rightarrow> callback option \<Rightarrow> callback option \<Rightarrow> callback option \<Rightarrow>
   callback option \<Rightarrow> callback option \<Rightarrow> world \<Rightarrow> (eio_error, eio_socket) outcome" where
  "eio_socket_new X t h cl da er op pa w =
     and_then (add_u64 (overflow_checks X) (ping_interval h) (ping_timeout h)) (\<lambda>m.
       Ok \<lparr>es_transport = t, es_on_close = cl, es_on_data = da, es_on_error = er, es_on_open = op,
          es_on_packet = pa, es_connected = False, es_last_ping = now w, es_last_pong = now w,
          es_connection_data = h, es_remaining = None, es_max_ping_timeout = m\<rparr>)"

definition eio_call_error_callback :: "bytes \<Rightarrow> eio_state \<Rightarrow> eio_state" where
  "eio_call_error_callback t = (\<lambda>(s, w). (s, call_opt (es_on_error s) (ArgText t) w))"

definition eio_socket_emit :: "ext \<Rightarrow> eio_packet \<Rightarrow> eio_state \<Rightarrow> (eio_error, unit) outcome \<times> eio_state" where
  "eio_socket_emit X p = (\<lambda>(s, w).
     if \<not> es_connected s
     then (Err IllegalActionBeforeOpen,
           eio_call_error_callback (eio_error_display IllegalActionBeforeOpen) (s, w))
     else let bin = (packet_id p = MessageBinary);
            d = (if bin then data p else eio_packet_into_bytes (b64 X) p)
       in case transport_emit X (es_transport s) d bin w of
            (Err e, w) \<Rightarrow> (Err e, eio_call_error_callback (eio_error_display e) (s, w))
          | (r, w) \<Rightarrow> (r, s, w))"

definition eio_socket_connect :: "ext \<Rightarrow> eio_state \<Rightarrow> (eio_error, unit) outcome \<times> eio_state" where
  "eio_socket_connect X = (\<lambda>(s, w).
     let s = s\<lparr>es_connected := True\<rparr>;
         w = call_opt (es_on_open s) ArgUnit w;
         s = s\<lparr>es_last_ping := now w\<rparr>
     in ques (eio_socket_emit X (eio_packet_new Pong '''') (s, w)) (\<lambda>_ sw. (Ok (), sw)))"

definition eio_socket_disconnect :: "ext \<Rightarrow> eio_state \<Rightarrow> (eio_error, unit) outcome \<times> eio_state" where
  "eio_socket_disconnect X = (\<lambda>(s, w).
     let w = call_opt (es_on_close s) ArgUnit w in
     on_return (eio_socket_emit X (eio_packet_new Close '''') (s, w)) (\<lambda>_ (s, w).
       (Ok (), s\<lparr>es_connected := False\<rparr>, w)))"

text \<open>The time left, in \<open>u64\<close> milliseconds; an instant before the last ping gives 0.\<close>

definition eio_time_to_next_ping :: "eio_state \<Rightarrow> (eio_error, u64) outcome" where
  "eio_time_to_next_ping = (\<lambda>(s, w).
     if es_last_ping s \<le> now w
     then let since = (of_nat (now w - es_last_ping s) :: u64)
          in if since > es_max_ping_timeout s then Ok 0 else Ok (es_max_ping_timeout s - since)
     else Ok 0)"

fun eio_poll_loop :: "nat \<Rightarrow> ext \<Rightarrow> eio_state \<Rightarrow> (eio_error, eio_packet option) outcome \<times> eio_state" where
  "eio_poll_loop 0 X (s, w) = (Hang, s, w)"
| "eio_poll_loop (Suc n) X (s, w) =
     (if es_connected s then
        (case map_option eio_iter_next (es_remaining s) of
           Some (Some p, rest) \<Rightarrow> (Ok (Some p), s\<lparr>es_remaining := Some rest\<rparr>, w)
         | _ \<Rightarrow>
             ques (eio_time_to_next_ping (s, w), s, w) (\<lambda>ms (s, w).
             case transport_poll X ms (es_transport s) w of
               (Ok d, w) \<Rightarrow>
                 if d = [] then eio_poll_loop n X (s, w)
                 else ques (eio_payload_try_from (b64 X) d, s, w) (\<lambda>ps (s, w).
                   case eio_iter_next ps of
                     (Some p, rest) \<Rightarrow> (Ok (Some p), s\<lparr>es_remaining := Some rest\<rparr>, w)
                   | (None, rest) \<Rightarrow> eio_poll_loop n X (s, w))
             | (Err e, w) \<Rightarrow> (Err e, s, w)
             | (Panic, w) \<Rightarrow> (Panic, s, w)
             | (Hang, w) \<Rightarrow> (Hang, s, w)))
      else (Ok None, s, w))"

definition eio_socket_poll :: "ext \<Rightarrow> eio_state \<Rightarrow> (eio_error, eio_packet option) outcome \<times> eio_state" where
  "eio_socket_poll X sw = eio_poll_loop (loop_fuel X) X sw"

definition eio_socket_is_connected :: "eio_socket \<Rightarrow> (eio_error, bool) outcome" where
  "eio_socket_is_connected s = Ok (es_connected s)"

definition eio_socket_pinged :: "eio_state \<Rightarrow> (eio_error, unit) outcome \<times> eio_state" where
  "eio_socket_pinged = (\<lambda>(s, w). (Ok (), s\<lparr>es_last_ping := now w\<rparr>, w))"

definition eio_handle_packet :: "eio_packet \<Rightarrow> eio_state \<Rightarrow> eio_state" where
  "eio_handle_packet p = (\<lambda>(s, w). (s, call_opt (es_on_packet s) (ArgPacket p) w))"

definition eio_handle_data :: "bytes \<Rightarrow> eio_state \<Rightarrow> eio_state" where
  "eio_handle_data d = (\<lambda>(s, w). (s, call_opt (es_on_data s) (ArgBytes d) w))"

definition eio_handle_close :: "eio_state \<Rightarrow> eio_state" where
  "eio_handle_close = (\<lambda>(s, w).
     let w = call_opt (es_on_close s) ArgUnit w in (s\<lparr>es_connected := False\<rparr>, w))"

subsection \<open>Frames of the operations\<close>

lemma eio_call_error_callback_simps [simp]:
  "fst (eio_call_error_callback t (s, w)) = s"
  "sent (snd (eio_call_error_callback t (s, w))) = sent w"
  "grows w (snd (eio_call_error_callback t (s, w)))"
  "now (snd (eio_call_error_callback t (s, w))) = now w"
  by (simp_all add: eio_call_error_callback_def)

lemma eio_socket_emit_frame [simp]:
  "fst (snd (eio_socket_emit X p (s, w))) = s"
  "grows w (snd (snd (eio_socket_emit X p (s, w))))"
  "returned (fst (eio_socket_emit X p (s, w)))"
proof -
  let ?d = "if packet_id p = MessageBinary then data p else eio_packet_into_bytes (b64 X) p"
  obtain r w1 where r: "transport_emit X (es_transport s) ?d (packet_id p = MessageBinary) w = (r, w1)"
    by fastforce
  have g: "grows w w1" and t: "returned r"
    using transport.send_grows [of w X "es_transport s" ?d "packet_id p = MessageBinary"]
      transport.send_returned [of X "es_transport s" ?d "packet_id p = MessageBinary" w] r by simp_all
  show "fst (snd (eio_socket_emit X p (s, w))) = s" "grows w (snd (snd (eio_socket_emit X p (s, w))))"
    "returned (fst (eio_socket_emit X p (s, w)))"
    using r g t
    by (cases r; auto simp: eio_socket_emit_def Let_def eio_call_error_callback_def
          intro: grows_trans)+
qed

lemma eio_socket_emit_closed:
  "\<not> es_connected s \<Longrightarrow>
   eio_socket_emit X p (s, w) =
     (Err IllegalActionBeforeOpen, s,
      call_opt (es_on_error s) (ArgText (eio_error_display IllegalActionBeforeOpen)) w)"
  by (simp add: eio_socket_emit_def eio_call_error_callback_def)

lemma eio_socket_disconnect_frame:
  "\<exists>w'. eio_socket_disconnect X (s, w) = (Ok (), s\<lparr>es_connected := False\<rparr>, w') \<and> grows w w'"
proof -
  let ?w = "call_opt (es_on_close s) ArgUnit w"
  obtain r w1 where r: "eio_socket_emit X (eio_packet_new Close '''') (s, ?w) = (r, s, w1)"
    using eio_socket_emit_frame(1) [of X "eio_packet_new Close ''''" s ?w]
    by (cases "eio_socket_emit X (eio_packet_new Close '''') (s, ?w)") auto
  have "grows w w1" and "returned r"
    using eio_socket_emit_frame(2) [of ?w X "eio_packet_new Close ''''" s]
      eio_socket_emit_frame(3) [of X "eio_packet_new Close ''''" s ?w] r
    by (auto intro: grows_trans [OF grows_call_opt])
  with r show ?thesis by (cases r) (auto simp: eio_socket_disconnect_def)
qed

interpretation eio_connection: connection es_connected "eio_socket_emit X" "eio_socket_disconnect X"
  IllegalActionBeforeOpen for X
proof unfold_locales
  fix s :: eio_socket and m w assume "\<not> es_connected s"
  then show "\<exists>w'. eio_socket_emit X m (s, w) = (Err IllegalActionBeforeOpen, s, w') \<and>
      sent w' = sent w \<and> grows w w'"
    by (simp add: eio_socket_emit_closed)
next
  fix s w
  show "\<not> es_connected (fst (snd (eio_socket_disconnect X (s, w))))"
    "grows w (snd (snd (eio_socket_disconnect X (s, w))))"
    using eio_socket_disconnect_frame [of X s w] by auto
qed

subsection \<open>The heartbeat\<close>

lemma eio_time_to_next_ping_value:
  assumes "now w - es_last_ping s < 2 ^ 64"
  shows "\<exists>ms. eio_time_to_next_ping (s, w) = Ok ms \<and>
    unat ms = (if es_last_ping s \<le> now w then unat (es_max_ping_timeout s) - (now w - es_last_ping s) else 0)"
proof (cases "es_last_ping s \<le> now w")
  case True
  let ?e = "of_nat (now w - es_last_ping s) :: u64"
  have e: "unat ?e = now w - es_last_ping s"
    using assms by (simp add: unat_of_nat)
  show ?thesis
  proof (cases "?e > es_max_ping_timeout s")
    case True
    then have "unat (es_max_ping_timeout s) < now w - es_last_ping s"
      using e by (simp add: word_less_nat_alt)
    with True show ?thesis by (simp add: eio_time_to_next_ping_def)
  next
    case False
    then have "unat (es_max_ping_timeout s - ?e) = unat (es_max_ping_timeout s) - unat ?e"
      by (intro unat_sub) (simp add: not_less)
    with False True e show ?thesis by (simp add: eio_time_to_next_ping_def Let_def)
  qed
qed (simp add: eio_time_to_next_ping_def)

lemma ws_recv_now: "now (snd (ws_recv X (Some d) c w)) \<le> max (now w) d"
  by (auto simp: ws_recv_def past_def case_prod_beta Let_def not_less)

lemma ws_poll_loop_now: "now (snd (ws_poll_loop n X (Some d) c w)) \<le> max (now w) d"
proof (induction n arbitrary: w)
  case (Suc n)
  obtain r w1 where r: "ws_recv X (Some d) c w = (r, w1)" by fastforce
  with ws_recv_now [of X d c w] have "now w1 \<le> max (now w) d" by simp
  with r Suc [of w1] show ?case
    by (auto simp: ws_poll_loop_Suc split: timed.split option.split)
qed simp

text \<open>A websocket transport of the blocking kind.\<close>

fun is_websocket :: "transport \<Rightarrow> bool" where
  "is_websocket (Polling t) = False"
| "is_websocket (Websocket t) = True"
| "is_websocket (WebsocketSecure t) = True"

text \<open>The connection below it.\<close>

fun wire_conn :: "transport \<Rightarrow> nat" where
  "wire_conn (Polling t) = 0"
| "wire_conn (Websocket t) = ws_conn t"
| "wire_conn (WebsocketSecure t) = ws_conn t"

lemma transport_poll_now:
  assumes "is_websocket t"
  shows "now (snd (transport_poll X ms t w)) \<le> now w + unat ms"
proof -
  have "now (snd (ques r (\<lambda>r w. case r of Elapsed \<Rightarrow> (Err PingTimeout, w)
      | InTime b \<Rightarrow> (ok_or b IncompletePacket, w)))) = now (snd r)" for r :: "bytes polled \<times> world"
    by (cases r; cases "fst r") (auto split: timed.split)
  moreover have "now (snd (ws_poll_loop n X (Some (now w + unat ms)) c w)) \<le> now w + unat ms" for n c
    using ws_poll_loop_now [of n X "now w + unat ms" c w] by (simp add: max_def)
  ultimately show ?thesis
    using assms
    by (cases t) (simp_all add: ws_poll_def wss_poll_def async_ws_poll_next_def async_wss_poll_next_def
        ws_general_poll_next_def)
qed

lemma eio_poll_loop_bound:
  assumes "is_websocket (es_transport s)" and "now w - es_last_ping s < 2 ^ 64"
  shows "now (snd (snd (eio_poll_loop n X (s, w)))) \<le>
    max (now w) (es_last_ping s + unat (es_max_ping_timeout s))"
  using assms(2)
proof (induction n arbitrary: w)
  case (Suc n)
  let ?b = "es_last_ping s + unat (es_max_ping_timeout s)"
  obtain ms where ms: "eio_time_to_next_ping (s, w) = Ok ms"
    "unat ms = (if es_last_ping s \<le> now w then unat (es_max_ping_timeout s) - (now w - es_last_ping s) else 0)"
    using eio_time_to_next_ping_value [OF Suc.prems] by blast
  obtain r w1 where r: "transport_poll X ms (es_transport s) w = (r, w1)" by fastforce
  have w1: "now w1 \<le> max (now w) ?b"
    using transport_poll_now [OF assms(1), of X ms w] r ms(2) by (auto simp: max_def split: if_splits)
  have "unat (es_max_ping_timeout s) < 2 ^ 64"
    using unsigned_less [of "es_max_ping_timeout s", where ?'a = nat] by simp
  with w1 Suc.prems have "now w1 - es_last_ping s < 2 ^ 64" by (auto simp: max_def split: if_splits)
  from Suc.IH [OF this] w1 have IH: "now (snd (snd (eio_poll_loop n X (s, w1)))) \<le> max (now w) ?b"
    by (auto simp: max_def split: if_splits)
  have net: "now (snd (snd (ques (eio_payload_try_from (b64 X) d, s, w1) (\<lambda>ps (s, w).
      case eio_iter_next ps of (Some p, rest) \<Rightarrow> (Ok (Some p), s\<lparr>es_remaining := Some rest\<rparr>, w)
      | (None, rest) \<Rightarrow> eio_poll_loop n X (s, w))))) \<le> max (now w) ?b" for d
    using IH w1 by (cases "eio_payload_try_from (b64 X) d") (auto split: prod.split option.split)
  show ?case
    using IH w1 net
    by (auto simp: ms(1) r split: option.split prod.split outcome.split)
qed simp

subsection \<open>Delivery of the buffered packets\<close>

text \<open>Polling several times in a row.\<close>

fun eio_poll_each :: "nat \<Rightarrow> ext \<Rightarrow> eio_state \<Rightarrow> (eio_error, eio_packet option) outcome list \<times> eio_state" where
  "eio_poll_each 0 X sw = ([], sw)"
| "eio_poll_each (Suc n) X sw =
     (let (r, sw) = eio_socket_poll X sw; (rs, sw) = eio_poll_each n X sw in (r # rs, sw))"

lemma eio_poll_buffered:
  assumes "es_connected s" and "es_remaining s = Some (p # ps)" and "0 < loop_fuel X"
  shows "eio_socket_poll X (s, w) = (Ok (Some p), s\<lparr>es_remaining := Some ps\<rparr>, w)"
  using assms by (cases "loop_fuel X") (simp_all add: eio_socket_poll_def)

lemma eio_poll_each_buffered:
  assumes "es_connected s" and "es_remaining s = Some (ps @ qs)" and "0 < loop_fuel X"
  shows "eio_poll_each (length ps) X (s, w) =
    (map (\<lambda>p. Ok (Some p)) ps, s\<lparr>es_remaining := Some qs\<rparr>, w)"
  using assms(1,2)
proof (induction ps arbitrary: s)
  case (Cons p ps)
  with assms(3) have "eio_socket_poll X (s, w) = (Ok (Some p), s\<lparr>es_remaining := Some (ps @ qs)\<rparr>, w)"
    by (simp add: eio_poll_buffered)
  with Cons show ?case by simp
qed simp

lemma eio_poll_fetch:
  assumes "es_connected s" and "es_remaining s \<in> {None, Some []}" and "0 < loop_fuel X"
    and "eio_time_to_next_ping (s, w) = Ok ms"
    and "transport_poll X ms (es_transport s) w = (Ok d, w1)" and "d \<noteq> []"
    and "eio_payload_try_from (b64 X) d = Ok (p # ps)"
  shows "eio_socket_poll X (s, w) = (Ok (Some p), s\<lparr>es_remaining := Some ps\<rparr>, w1)"
  using assms by (cases "loop_fuel X") (auto simp: eio_socket_poll_def)

lemma eio_packet_into_bytes_not_Nil [simp]: "eio_packet_into_bytes B p \<noteq> []"
  by (simp add: eio_packet_into_bytes_def)

lemma join_with_not_Nil: "ss \<noteq> [] \<Longrightarrow> (\<And>s. s \<in> set ss \<Longrightarrow> s \<noteq> []) \<Longrightarrow> join_with c ss \<noteq> []"
  by (induction c ss rule: join_with.induct) auto

text \<open>
  Disconnecting always returns and closes the socket, whatever the network does with the
  close packet; from then on every emit is refused with \<open>IllegalActionBeforeOpen\<close> and nothing more
  is sent, and polling ends without touching the network.
\<close>

lemma eio_disconnect_closes:
  "\<exists>s' w1. eio_socket_disconnect X (s, w) = (Ok (), s', w1) \<and> \<not> es_connected s' \<and> grows w w1 \<and>
     (\<exists>w2. send_each (eio_socket_emit X) ps (s', w1) =
        (replicate (length ps) (Err IllegalActionBeforeOpen), s', w2) \<and> sent w2 = sent w1) \<and>
     (loop_fuel X = 0 \<or> eio_socket_poll X (s', w1) = (Ok None, s', w1))"
proof -
  let ?s = "s\<lparr>es_connected := False\<rparr>"
  obtain w1 where w1: "eio_socket_disconnect X (s, w) = (Ok (), ?s, w1)" "grows w w1"
    using eio_socket_disconnect_frame by blast
  have quiet: "\<exists>w2. send_each (eio_socket_emit X) ps (?s, w1) =
        (replicate (length ps) (Err IllegalActionBeforeOpen), ?s, w2) \<and> sent w2 = sent w1"
    using eio_connection.silent_after_close [of X s w ps] w1(1) by auto
  have "loop_fuel X = 0 \<or> eio_socket_poll X (?s, w1) = (Ok None, ?s, w1)"
    by (cases "loop_fuel X") (simp_all add: eio_socket_poll_def)
  with w1 quiet show ?thesis by (intro exI [of _ ?s] exI [of _ w1]) simp
qed

text \<open>
  C3. A body holding the chain of the packets \<open>ps\<close> is fetched once and then delivered packet by
  packet, in order, none lost, none twice, without another request.
\<close>

theorem eio_poll_delivers_payload:
  assumes "base64_codec (b64 X)" and "list_all eio_packet_framed ps" and "ps \<noteq> []"
    and "es_connected s" and "es_remaining s \<in> {None, Some []}" and "0 < loop_fuel X"
    and "eio_time_to_next_ping (s, w) = Ok ms"
    and "transport_poll X ms (es_transport s) w = (eio_payload_into_bytes (b64 X) ps, w1)"
  shows "eio_poll_each (length ps) X (s, w) =
    (map (\<lambda>p. Ok (Some p)) ps, s\<lparr>es_remaining := Some []\<rparr>, w1)"
proof -
  let ?d = "join_with SEPARATOR (map (eio_packet_into_bytes (b64 X)) ps)"
  obtain p qs where ps: "ps = p # qs" using assms(3) by (cases ps) auto
  have "eio_payload_try_from (b64 X) ?d = Ok ps"
    using eio_frames.dec_frames [of ps "b64 X"] assms(1-3) by (simp add: eio_payload_try_from_def list_all_iff)
  moreover have "?d \<noteq> []"
    using assms(3) by (intro join_with_not_Nil) auto
  ultimately have "eio_socket_poll X (s, w) = (Ok (Some p), s\<lparr>es_remaining := Some qs\<rparr>, w1)"
    using assms ps by (intro eio_poll_fetch) auto
  moreover have "eio_poll_each (length qs) X (s\<lparr>es_remaining := Some qs\<rparr>, w1) =
      (map (\<lambda>p. Ok (Some p)) qs, s\<lparr>es_remaining := Some []\<rparr>, w1)"
    using eio_poll_each_buffered [of "s\<lparr>es_remaining := Some qs\<rparr>" qs "[]" X w1] assms by simp
  ultimately show ?thesis by (simp add: ps)
qed

text \<open>A connected socket for the witnesses.\<close>

definition demo_handshake :: handshake_packet where
  "demo_handshake = \<lparr>sid = ''x'', upgrades = [], ping_interval = 25, ping_timeout = 20\<rparr>"

definition demo_socket :: "transport \<Rightarrow> eio_socket" where
  "demo_socket t = \<lparr>es_transport = t, es_on_close = None, es_on_data = None, es_on_error = Some 1,
     es_on_open = None, es_on_packet = None, es_connected = True, es_last_ping = 0, es_last_pong = 0,
     es_connection_data = demo_handshake, es_remaining = None, es_max_ping_timeout = 45\<rparr>"

definition demo_polling :: polling where
  "demo_polling = \<lparr>pl_url = ''http://h/'', pl_tls = None, pl_headers = None\<rparr>"

definition demo_ws :: ws_transport where
  "demo_ws = \<lparr>ws_conn = 0, ws_url = ''ws://h/''\<rparr>"

lemma demo_socket_simps [simp]:
  "es_transport (demo_socket t) = t" "es_connected (demo_socket t)" "es_remaining (demo_socket t) = None"
  "es_last_ping (demo_socket t) = 0" "es_max_ping_timeout (demo_socket t) = 45"
  "es_on_close (demo_socket t) = None" "es_on_error (demo_socket t) = Some 1"
  "es_on_data (demo_socket t) = None" "es_on_packet (demo_socket t) = None"
  by (simp_all add: demo_socket_def)

lemma demo_time_left: "eio_time_to_next_ping (demo_socket t, demo_world) = Ok 45"
  by (simp add: eio_time_to_next_ping_def)

theorem eio_poll_delivers_payload_witness:
  "\<exists>w1. eio_poll_each 2 (demo_answers [(3, Inr (demo_response 200 (''2'' @ [CHR 0x1E] @ ''4hi'')))])
      (demo_socket (Polling demo_polling), demo_world) =
    ([Ok (Some (eio_packet_new Ping '''')), Ok (Some (eio_packet_new Message ''hi''))],
     (demo_socket (Polling demo_polling))\<lparr>es_remaining := Some []\<rparr>, w1)"
proof -
  let ?ps = "[eio_packet_new Ping '''', eio_packet_new Message ''hi'']"
  let ?X = "demo_answers [(3, Inr (demo_response 200 (''2'' @ [CHR 0x1E] @ ''4hi'')))]"
  have enc: "eio_payload_into_bytes letters_engine ?ps = Ok (''2'' @ [CHR 0x1E] @ ''4hi'')" by code_simp
  have fetch: "\<exists>w1. transport_poll ?X 45 (Polling demo_polling) demo_world =
      (Ok (''2'' @ [CHR 0x1E] @ ''4hi''), w1)"
    by (simp add: polling_poll_def stamped_def polling_base_url_def http_send_def demo_response_def)
  then obtain w1 where w1: "transport_poll ?X 45 (Polling demo_polling) demo_world =
      (Ok (''2'' @ [CHR 0x1E] @ ''4hi''), w1)" by blast
  have "eio_poll_each (length ?ps) ?X (demo_socket (Polling demo_polling), demo_world) =
    (map (\<lambda>p. Ok (Some p)) ?ps, (demo_socket (Polling demo_polling))\<lparr>es_remaining := Some []\<rparr>, w1)"
    by (rule eio_poll_delivers_payload [where ms = 45])
       (use enc w1 demo_time_left in \<open>simp_all add: eio_packet_framed_def eio_packet_wf_def eio_packet_new_def\<close>)
  then show ?thesis by (intro exI [of _ w1]) (simp add: numeral_2_eq_2)
qed

text \<open>
  C24. The heartbeat over a websocket: a poll never keeps the caller beyond \<open>ping_interval\<close> plus
  \<open>ping_timeout\<close> after the last ping, whatever the server sends; if that instant has passed already
  it does not wait at all.
\<close>

theorem eio_poll_deadline:
  assumes "is_websocket (es_transport s)" and "now w - es_last_ping s < 2 ^ 64"
  shows "now (snd (snd (eio_socket_poll X (s, w)))) \<le>
    max (now w) (es_last_ping s + unat (es_max_ping_timeout s))"
  unfolding eio_socket_poll_def using assms by (rule eio_poll_loop_bound)

theorem eio_poll_deadline_witness:
  "now (snd (snd (eio_socket_poll (demo_items [(100, WsEnd)]) (demo_socket (Websocket demo_ws), demo_world)))) \<le> 45"
  using eio_poll_deadline [of "demo_socket (Websocket demo_ws)" demo_world "demo_items [(100, WsEnd)]"]
  by simp

text \<open>
  C35. A binary websocket message whose data is empty or begins with the separator byte 1E does not reach
  the user. Over both kinds of websocket the poll that reads it puts the byte of a message before the
  data, decodes that as a chain of packets and fails with \<open>IncompletePacket\<close>; the message is used up,
  so the next poll reads the one after it, and nothing of its data is kept in the socket.
\<close>

theorem ws_binary_separator_lost:
  assumes "es_connected s" and "es_remaining s \<in> {None, Some []}" and "0 < loop_fuel X"
    and "es_transport s \<in> {Websocket t, WebsocketSecure t}" and "eio_time_to_next_ping (s, w) = Ok ms"
    and "net_recv X (ws_conn t) (received w (ws_conn t)) = (i, WsMsg (WsBinary d))"
    and "d = [] \<or> hd d = SEPARATOR"
    and "i \<le> now w + unat ms"
  shows "eio_socket_poll X (s, w) = (Err IncompletePacket, s,
    w\<lparr>now := max (now w) i, received := (received w)(ws_conn t := received w (ws_conn t) + 1)\<rparr>)"
proof -
  have four: "ws_binary_packet d = [CHR 0x04] @ d"
    by (simp add: ws_binary_packet_def u8_byte_def, code_simp)
  have bad: "eio_packet_try_from (b64 X) [CHR 0x04] = Err IncompletePacket"
    by (simp add: eio_packet_try_from_Cons byte_u8_def eio_packet_id_try_from_def)
  have pay: "eio_payload_try_from (b64 X) (ws_binary_packet d) = Err IncompletePacket"
    unfolding four using assms(7) by (cases d) (auto simp: eio_payload_try_from_def bad)
  have "ws_general_poll_next X (Some (now w + unat ms)) (ws_conn t) w =
      (Ok (InTime (Some (ws_binary_packet d))),
       w\<lparr>now := max (now w) i, received := (received w)(ws_conn t := received w (ws_conn t) + 1)\<rparr>)"
    using assms(3,6,8)
    by (cases "loop_fuel X") (simp_all add: ws_general_poll_next_def ws_poll_loop_Suc ws_recv_def past_def
        in_time_def Let_def)
  with assms pay show ?thesis
    by (cases "loop_fuel X")
       (auto simp: eio_socket_poll_def ws_poll_def wss_poll_def async_ws_poll_next_def async_wss_poll_next_def ws_binary_packet_def)
qed

theorem ws_binary_separator_lost_witness:
  "eio_socket_poll (demo_items [(5, WsMsg (WsBinary [CHR 0x1E, CHR ''x'']))])
     (demo_socket (Websocket demo_ws), demo_world) = (Err IncompletePacket, demo_socket (Websocket demo_ws),
       demo_world\<lparr>now := max (now demo_world) 5, received := (received demo_world)(ws_conn demo_ws := received demo_world (ws_conn demo_ws) + 1)\<rparr>)"
  using ws_binary_separator_lost [of "demo_socket (Websocket demo_ws)"
      "demo_items [(5, WsMsg (WsBinary [CHR 0x1E, CHR ''x'']))]" demo_ws demo_world 45 5 "[CHR 0x1E, CHR ''x'']"]
  by (simp add: demo_time_left)

end
