(* ===== verification/Eio_Client.thy ===== *)
theory Eio_Client
  imports Eio_Socket
begin

text \<open>
  \<open>engineio/src/client/client.rs\<close>: the builder with the handshake and the upgrade to a websocket, the
  blocking client and its iterator. A builder method takes the builder by value and returns it;
  the handshake, which borrows it, returns the changed one.
\<close>

record eio_builder =
  cb_url :: url
  cb_tls :: "tls option"
  cb_headers :: "header_map option"
  cb_handshake :: "handshake_packet option"
  cb_on_error :: "callback option"
  cb_on_open :: "callback option"
  cb_on_close :: "callback option"
  cb_on_data :: "callback option"
  cb_on_packet :: "callback option"

definition ENGINE_IO_VERSION :: nat where
  "ENGINE_IO_VERSION = 4"

definition eio_builder_new :: "ext \<Rightarrow> url \<Rightarrow> eio_builder" where
  "eio_builder_new X u =
     (let u1 = url_append_pair X ''EIO'' (show_nat ENGINE_IO_VERSION) u;
          u2 = (if url_path X u1 = ''/'' then url_set_path X ''/engine.io/'' u1 else u1)
      in \<lparr>cb_url = u2, cb_tls = None, cb_headers = None, cb_handshake = None,
          cb_on_error = optional_callback_default, cb_on_open = optional_callback_default,
          cb_on_close = optional_callback_default, cb_on_data = optional_callback_default,
          cb_on_packet = optional_callback_default\<rparr>)"

definition eio_builder_tls_config :: "tls \<Rightarrow> eio_builder \<Rightarrow> eio_builder" where
  "eio_builder_tls_config t b = b\<lparr>cb_tls := Some t\<rparr>"

definition eio_builder_headers :: "header_map \<Rightarrow> eio_builder \<Rightarrow> eio_builder" where
  "eio_builder_headers h b = b\<lparr>cb_headers := Some h\<rparr>"

definition eio_builder_on_close :: "callback \<Rightarrow> eio_builder \<Rightarrow> eio_builder" where
  "eio_builder_on_close f b = b\<lparr>cb_on_close := optional_callback_new f\<rparr>"

definition eio_builder_on_data :: "callback \<Rightarrow> eio_builder \<Rightarrow> eio_builder" where
  "eio_builder_on_data f b = b\<lparr>cb_on_data := optional_callback_new f\<rparr>"

definition eio_builder_on_error :: "callback \<Rightarrow> eio_builder \<Rightarrow> eio_builder" where
  "eio_builder_on_error f b = b\<lparr>cb_on_error := optional_callback_new f\<rparr>"

definition eio_builder_on_open :: "callback \<Rightarrow> eio_builder \<Rightarrow> eio_builder" where
  "eio_builder_on_open f b = b\<lparr>cb_on_open := optional_callback_new f\<rparr>"

definition eio_builder_on_packet :: "callback \<Rightarrow> eio_builder \<Rightarrow> eio_builder" where
  "eio_builder_on_packet f b = b\<lparr>cb_on_packet := optional_callback_new f\<rparr>"

subsection \<open>The handshake\<close>

text \<open>What the transport's first packet is turned into; \<open>poll\<close> is its \<open>poll\<close>.\<close>

definition eio_handshake_with_transport ::
  "ext \<Rightarrow> (u64 \<Rightarrow> world \<Rightarrow> (eio_error, bytes) outcome \<times> world) \<Rightarrow> eio_builder \<times> world \<Rightarrow>
   (eio_error, unit) outcome \<times> eio_builder \<times> world" where
  "eio_handshake_with_transport X poll = (\<lambda>(b, w).
     if cb_handshake b \<noteq> None then (Ok (), b, w)
     else case poll DEFAULT_MAX_POLL_TIMEOUT w of (r, w) \<Rightarrow>
       ques (and_then r (\<lambda>d. and_then (eio_packet_try_from (b64 X) d)
               (handshake_try_from (json_handshake X))), b, w) (\<lambda>h (b, w).
         (Ok (), b\<lparr>cb_handshake := Some h, cb_url := url_append_pair X ''sid'' (sid h) (cb_url b)\<rparr>, w)))"

text \<open>\<open>headers.map(|v| v.try_into().unwrap())\<close>: a header the HTTP library refuses panics.\<close>

definition unwrap_headers :: "ext \<Rightarrow> header_map option \<Rightarrow> (eio_error, http_headers option) outcome" where
  "unwrap_headers X h = (case h of None \<Rightarrow> Ok None
     | Some m \<Rightarrow> (case header_map_into_http X m of Ok hs \<Rightarrow> Ok (Some hs) | Hang \<Rightarrow> Hang | _ \<Rightarrow> Panic))"

definition convert_headers :: "ext \<Rightarrow> header_map option \<Rightarrow> (eio_error, http_headers option) outcome" where
  "convert_headers X h = (case h of None \<Rightarrow> Ok None
     | Some m \<Rightarrow> and_then (header_map_into_http X m) (\<lambda>hs. Ok (Some hs)))"

definition eio_handshake :: "ext \<Rightarrow> eio_builder \<times> world \<Rightarrow> (eio_error, unit) outcome \<times> eio_builder \<times> world" where
  "eio_handshake X = (\<lambda>(b, w).
     if cb_handshake b \<noteq> None then (Ok (), b, w)
     else ques (and_then (unwrap_headers X (cb_headers b)) (polling_new X (cb_url b) (cb_tls b)), b, w)
       (\<lambda>t bw. eio_handshake_with_transport X (\<lambda>ms. polling_poll X ms t) bw))"

definition eio_websocket_upgrade :: "eio_builder \<Rightarrow> (eio_error, bool) outcome" where
  "eio_websocket_upgrade b =
     and_then (unwrap (cb_handshake b)) (\<lambda>h.
       Ok (list_ex (\<lambda>u. to_lowercase u = ''websocket'') (upgrades h)))"

subsection \<open>Building a client\<close>

text \<open>A client is its socket. The common last step of the constructors.\<close>

definition eio_client_of ::
  "ext \<Rightarrow> transport \<Rightarrow> eio_builder \<Rightarrow> world \<Rightarrow> (eio_error, eio_socket) outcome \<times> world" where
  "eio_client_of X t b w =
     (and_then (unwrap (cb_handshake b)) (\<lambda>h.
        eio_socket_new X t h (cb_on_close b) (cb_on_data b) (cb_on_error b) (cb_on_open b)
          (cb_on_packet b) w), w)"

definition eio_build_polling :: "ext \<Rightarrow> eio_builder \<Rightarrow> world \<Rightarrow> (eio_error, eio_socket) outcome \<times> world" where
  "eio_build_polling X b w =
     (case eio_handshake X (b, w) of
        (Ok _, b, w) \<Rightarrow>
          ques (and_then (unwrap_headers X (cb_headers b)) (polling_new X (cb_url b) (cb_tls b)), w) (\<lambda>t w.
            eio_client_of X (transport_from_polling t) b w)
      | (Err e, b, w) \<Rightarrow> (Err e, w)
      | (Panic, b, w) \<Rightarrow> (Panic, w)
      | (Hang, b, w) \<Rightarrow> (Hang, w))"

text \<open>The two arms of \<open>build_websocket\<close> after the transport is made.\<close>

definition eio_websocket_ready ::
  "ext \<Rightarrow> (world \<Rightarrow> (eio_error, unit) outcome \<times> world) \<Rightarrow>
   (u64 \<Rightarrow> world \<Rightarrow> (eio_error, bytes) outcome \<times> world) \<Rightarrow> transport \<Rightarrow> eio_builder \<Rightarrow> world \<Rightarrow>
   (eio_error, eio_socket) outcome \<times> world" where
  "eio_websocket_ready X upgrade poll t b w =
     (if cb_handshake b \<noteq> None
      then ques (upgrade w) (\<lambda>_ w. eio_client_of X t b w)
      else case eio_handshake_with_transport X poll (b, w) of
             (Ok _, b, w) \<Rightarrow> eio_client_of X t b w
           | (Err e, b, w) \<Rightarrow> (Err e, w)
           | (Panic, b, w) \<Rightarrow> (Panic, w)
           | (Hang, b, w) \<Rightarrow> (Hang, w))"

definition eio_build_websocket :: "ext \<Rightarrow> eio_builder \<Rightarrow> world \<Rightarrow> (eio_error, eio_socket) outcome \<times> world" where
  "eio_build_websocket X b w =
     ques (from_ext InvalidUrl (url_parse X (cb_url b)), w) (\<lambda>u w.
     ques (convert_headers X (cb_headers b), w) (\<lambda>h w.
       if url_scheme X u \<in> {''http'', ''ws''} then
         ques (ws_new X u h w) (\<lambda>t w.
           eio_websocket_ready X (ws_upgrade X t) (\<lambda>ms. ws_poll X ms t) (transport_from_ws t) b w)
       else if url_scheme X u \<in> {''https'', ''wss''} then
         ques (wss_new X u (cb_tls b) h w) (\<lambda>t w.
           eio_websocket_ready X (wss_upgrade X t) (\<lambda>ms. wss_poll X ms t) (transport_from_wss t) b w)
       else (Err (InvalidUrlScheme (url_scheme X u)), w)))"

definition eio_build_websocket_with_upgrade ::
  "ext \<Rightarrow> eio_builder \<Rightarrow> world \<Rightarrow> (eio_error, eio_socket) outcome \<times> world" where
  "eio_build_websocket_with_upgrade X b w =
     (case eio_handshake X (b, w) of
        (Ok _, b, w) \<Rightarrow>
          ques (eio_websocket_upgrade b, w) (\<lambda>up w.
            if up then eio_build_websocket X b w else (Err IllegalWebsocketUpgrade, w))
      | (Err e, b, w) \<Rightarrow> (Err e, w)
      | (Panic, b, w) \<Rightarrow> (Panic, w)
      | (Hang, b, w) \<Rightarrow> (Hang, w))"

definition eio_build :: "ext \<Rightarrow> eio_builder \<Rightarrow> world \<Rightarrow> (eio_error, eio_socket) outcome \<times> world" where
  "eio_build X b w =
     (case eio_handshake X (b, w) of
        (Ok _, b, w) \<Rightarrow>
          ques (eio_websocket_upgrade b, w) (\<lambda>up w.
            if up then eio_build_websocket_with_upgrade X b w else eio_build_polling X b w)
      | (Err e, b, w) \<Rightarrow> (Err e, w)
      | (Panic, b, w) \<Rightarrow> (Panic, w)
      | (Hang, b, w) \<Rightarrow> (Hang, w))"

definition eio_build_with_fallback ::
  "ext \<Rightarrow> eio_builder \<Rightarrow> world \<Rightarrow> (eio_error, eio_socket) outcome \<times> world" where
  "eio_build_with_fallback X b w =
     (case eio_build X b w of
        (Err e, w) \<Rightarrow> eio_build_polling X b w
      | r \<Rightarrow> r)"

subsection \<open>The client\<close>

definition eio_client_close :: "ext \<Rightarrow> eio_state \<Rightarrow> (eio_error, unit) outcome \<times> eio_state" where
  "eio_client_close X sw = eio_socket_disconnect X sw"

definition eio_client_connect :: "ext \<Rightarrow> eio_state \<Rightarrow> (eio_error, unit) outcome \<times> eio_state" where
  "eio_client_connect X sw = eio_socket_connect X sw"

definition eio_client_disconnect :: "ext \<Rightarrow> eio_state \<Rightarrow> (eio_error, unit) outcome \<times> eio_state" where
  "eio_client_disconnect X sw = eio_socket_disconnect X sw"

definition eio_client_emit :: "ext \<Rightarrow> eio_packet \<Rightarrow> eio_state \<Rightarrow> (eio_error, unit) outcome \<times> eio_state" where
  "eio_client_emit X p sw = eio_socket_emit X p sw"

definition eio_client_poll :: "ext \<Rightarrow> eio_state \<Rightarrow> (eio_error, eio_packet option) outcome \<times> eio_state" where
  "eio_client_poll X sw =
     ques (eio_socket_poll X sw) (\<lambda>r sw.
       case r of
         None \<Rightarrow> (Ok None, sw)
       | Some p \<Rightarrow>
           let sw = eio_handle_packet p sw in
           (case packet_id p of
              MessageBinary \<Rightarrow> (Ok (Some p), eio_handle_data (data p) sw)
            | Message \<Rightarrow> (Ok (Some p), eio_handle_data (data p) sw)
            | Close \<Rightarrow> (Ok (Some p), eio_handle_close sw)
            | Open \<Rightarrow> (Panic, sw)
            | Upgrade \<Rightarrow> (Ok (Some p), sw)
            | Ping \<Rightarrow>
                ques (eio_socket_pinged sw) (\<lambda>_ sw.
                ques (eio_client_emit X (eio_packet_new Pong '''') sw) (\<lambda>_ sw. (Ok (Some p), sw)))
            | Pong \<Rightarrow> (Panic, sw)
            | Noop \<Rightarrow> (Ok (Some p), sw)))"

definition eio_client_is_connected :: "eio_socket \<Rightarrow> (eio_error, bool) outcome" where
  "eio_client_is_connected s = eio_socket_is_connected s"

text \<open>\<open>Iter::next\<close>: \<open>Inl\<close> is an item that is an error, \<open>Inr\<close> one that is a packet.\<close>

definition eio_client_iter_next ::
  "ext \<Rightarrow> eio_state \<Rightarrow> (eio_error, (eio_error + eio_packet) option) outcome \<times> eio_state" where
  "eio_client_iter_next X sw =
     on_return (eio_client_poll X sw) (\<lambda>r sw.
       case r of
         Inr (Some p) \<Rightarrow> (Ok (Some (Inr p)), sw)
       | Inr None \<Rightarrow> (Ok None, sw)
       | Inl e \<Rightarrow> (Ok (Some (Inl e)), sw))"

subsection \<open>The upgrade\<close>

lemma control_packet_bytes:
  "eio_packet_into_bytes B (ws_probe Ping) = ''2probe''"
  "eio_packet_into_bytes B (ws_probe Pong) = ''3probe''"
  "eio_packet_into_bytes B (eio_packet_new Upgrade '''') = ''5''"
  "eio_packet_into_bytes B (eio_packet_new Pong '''') = ''3''"
  "eio_packet_into_bytes B (eio_packet_new Close '''') = ''1''"
proof -
  have "u8_byte (to_string_byte Ping) = CHR ''2''" "u8_byte (to_string_byte Pong) = CHR ''3''"
    "u8_byte (to_string_byte Upgrade) = CHR ''5''" "u8_byte (to_string_byte Close) = CHR ''1''"
    by code_simp+
  then show "eio_packet_into_bytes B (ws_probe Ping) = ''2probe''"
    "eio_packet_into_bytes B (ws_probe Pong) = ''3probe''"
    "eio_packet_into_bytes B (eio_packet_new Upgrade '''') = ''5''"
    "eio_packet_into_bytes B (eio_packet_new Pong '''') = ''3''"
    "eio_packet_into_bytes B (eio_packet_new Close '''') = ''1''"
    by (simp_all add: eio_packet_into_bytes_def ws_probe_def eio_packet_new_def)
qed

lemma control_packet_utf8:
  "from_utf8 ''2probe'' = Ok ''2probe''" "from_utf8 ''5'' = Ok ''5''"
  by (simp_all add: from_utf8_def is_ascii_def)

lemma ws_send_cases:
  obtains w1 where "ws_send X c m w = (Ok (), w1)" "sent w1 = sent w @ [DidSend c m]" "received w1 = received w"
  | t w1 where "ws_send X c m w = (Err (WebsocketError t), w1)" "sent w1 = sent w @ [DidSend c m]"
proof -
  obtain r w1 where r: "ws_send X c m w = (r, w1)" by fastforce
  with ws_send_sent [of X c m w] have s: "sent w1 = sent w @ [DidSend c m]" by simp
  from r show thesis
    by (cases "snd (net_send X (send_count w) m)")
       (use s in \<open>auto simp: ws_send_def case_prod_beta Let_def intro: that\<close>)
qed

text \<open>The upgrade of an engine.io session over connection \<open>c\<close>.\<close>

lemma ws_upgrade_result:
  "fst (ws_general_upgrade X c w) = Ok () \<Longrightarrow>
     sent (snd (ws_general_upgrade X c w)) =
       sent w @ [DidSend c (WsText ''2probe''), DidSend c (WsText ''5'')] \<and>
     (\<exists>m. snd (net_recv X c (received w c)) = WsMsg m \<and> ws_into_data X m = ''3probe'')"
  "\<exists>es. sent (snd (ws_general_upgrade X c w)) = sent w @ es \<and>
     prefix es [DidSend c (WsText ''2probe''), DidSend c (WsText ''5'')]"
proof -
  have all: "(fst (ws_general_upgrade X c w) = Ok () \<longrightarrow>
     sent (snd (ws_general_upgrade X c w)) =
       sent w @ [DidSend c (WsText ''2probe''), DidSend c (WsText ''5'')] \<and>
     (\<exists>m. snd (net_recv X c (received w c)) = WsMsg m \<and> ws_into_data X m = ''3probe'')) \<and>
   (\<exists>es. sent (snd (ws_general_upgrade X c w)) = sent w @ es \<and>
     prefix es [DidSend c (WsText ''2probe''), DidSend c (WsText ''5'')])"
  proof (cases rule: ws_send_cases [of X c "WsText ''2probe''" w])
    case (1 w1)
    obtain i w2 where i: "ws_recv X None c w1 = (InTime i, w2)" "snd (net_recv X c (received w c)) = i"
      using 1 by (simp add: ws_recv_def past_def case_prod_beta Let_def)
    have w2: "sent w2 = sent w @ [DidSend c (WsText ''2probe'')]"
      using ws_recv_grows(2) [of X None c w1] i 1 by simp
    show ?thesis
    proof (cases i)
      case (WsMsg m)
      show ?thesis
        by (cases rule: ws_send_cases [of X c "WsText ''5''" w2])
           (use 1 i [unfolded WsMsg] w2 in
             \<open>auto simp: ws_general_upgrade_def control_packet_bytes control_packet_utf8\<close>)
    qed (use 1 i w2 in \<open>auto simp: ws_general_upgrade_def control_packet_bytes control_packet_utf8\<close>)
  next
    case (2 t w1)
    then show ?thesis
      by (auto simp: ws_general_upgrade_def control_packet_bytes control_packet_utf8)
  qed
  then show "\<exists>es. sent (snd (ws_general_upgrade X c w)) = sent w @ es \<and>
     prefix es [DidSend c (WsText ''2probe''), DidSend c (WsText ''5'')]" by blast
  from all show "fst (ws_general_upgrade X c w) = Ok () \<Longrightarrow>
     sent (snd (ws_general_upgrade X c w)) =
       sent w @ [DidSend c (WsText ''2probe''), DidSend c (WsText ''5'')] \<and>
     (\<exists>m. snd (net_recv X c (received w c)) = WsMsg m \<and> ws_into_data X m = ''3probe'')" by blast
qed

lemma ws_new_Ok:
  assumes "ws_new X u h w = (Ok t, w1)"
  shows "sent w1 = sent w @ [DidConnect (ws_url t) h None] \<and> ws_conn t = connect_count w \<and>
    received w1 = received w \<and>
    url_set_scheme X ''ws'' (url_append_pair X ''transport'' ''websocket'' u) = Some (ws_url t)"
proof -
  let ?v = "url_append_pair X ''transport'' ''websocket'' u"
  from assms obtain v where v: "url_set_scheme X ''ws'' ?v = Some v"
    by (cases "runtime_build X"; cases "url_set_scheme X ''ws'' ?v")
       (auto simp: ws_new_def async_ws_new_def unwrap_def Let_def)
  obtain r w2 where c: "ws_connect X v h None w = (r, w2)" by fastforce
  have s: "sent w2 = sent w @ [DidConnect v h None]" "received w2 = received w" and k: "\<And>n. r = Ok n \<Longrightarrow> n = connect_count w"
    using c by (auto simp: ws_connect_def case_prod_beta Let_def sent_def split: sum.splits)
  from assms v c s k show ?thesis
    by (cases "runtime_build X"; cases "ws_request_ok X v"; cases r)
       (auto simp: ws_new_def async_ws_new_def unwrap_def Let_def ws_general_new_def)
qed

lemma eio_socket_new_Ok:
  "eio_socket_new X t h cl da er op pa w = Ok s \<Longrightarrow>
   es_transport s = t \<and> \<not> es_connected s \<and> es_connection_data s = h \<and> es_remaining s = None \<and>
   es_max_ping_timeout s = ping_interval h + ping_timeout h"
  by (auto simp: eio_socket_new_def add_u64_def and_then_Ok_iff split: if_splits)

lemma eio_client_of_Ok:
  "eio_client_of X t b w = (Ok s, w1) \<Longrightarrow>
   w1 = w \<and> es_transport s = t \<and> \<not> es_connected s \<and> cb_handshake b = Some (es_connection_data s)"
  by (cases "cb_handshake b") (auto simp: eio_client_of_def unwrap_def dest: eio_socket_new_Ok)

text \<open>
  C23. With a session from the handshake, a plain websocket client is built only after the whole
  upgrade: one connection to the URL with \<open>transport=websocket\<close> and scheme \<open>ws\<close>, the probe, the
  server's \<open>3probe\<close> as the first message on it, the upgrade packet; nothing else is sent, and the client is not yet open.
\<close>

theorem eio_upgrade_protocol:
  assumes "cb_handshake b = Some h" and "url_parse X (cb_url b) = Inr u"
    and "url_scheme X u \<in> {''http'', ''ws''}" and "eio_build_websocket X b w = (Ok s, w1)"
  shows "\<exists>v hs m. es_transport s = Websocket \<lparr>ws_conn = connect_count w, ws_url = v\<rparr> \<and>
    url_set_scheme X ''ws'' (url_append_pair X ''transport'' ''websocket'' u) = Some v \<and>
    convert_headers X (cb_headers b) = Ok hs \<and>
    sent w1 = sent w @ [DidConnect v hs None, DidSend (connect_count w) (WsText ''2probe''),
                        DidSend (connect_count w) (WsText ''5'')] \<and>
    snd (net_recv X (connect_count w) (received w (connect_count w))) = WsMsg m \<and>
    ws_into_data X m = ''3probe'' \<and> es_connection_data s = h \<and> \<not> es_connected s"
proof -
  from assms obtain hs where hs: "convert_headers X (cb_headers b) = Ok hs"
    by (cases "convert_headers X (cb_headers b)") (auto simp: eio_build_websocket_def)
  with assms obtain t w2 where t: "ws_new X u hs w = (Ok t, w2)"
    by (cases "ws_new X u hs w"; cases "fst (ws_new X u hs w)") (auto simp: eio_build_websocket_def)
  obtain r w3 where r: "ws_upgrade X t w2 = (r, w3)" by fastforce
  with assms hs t have "r = Ok ()"
    by (cases r) (auto simp: eio_build_websocket_def eio_websocket_ready_def)
  with assms hs t r have c: "eio_client_of X (transport_from_ws t) b w3 = (Ok s, w1)"
    by (auto simp: eio_build_websocket_def eio_websocket_ready_def)
  have up: "fst (ws_general_upgrade X (ws_conn t) w2) = Ok ()" "snd (ws_general_upgrade X (ws_conn t) w2) = w3"
    using r \<open>r = Ok ()\<close> by (simp_all add: ws_upgrade_def async_ws_upgrade_def)
  from ws_upgrade_result(1) [OF up(1)] obtain m where
    m: "snd (net_recv X (ws_conn t) (received w2 (ws_conn t))) = WsMsg m" "ws_into_data X m = ''3probe''"
       "sent w3 = sent w2 @ [DidSend (ws_conn t) (WsText ''2probe''), DidSend (ws_conn t) (WsText ''5'')]"
    using up(2) by auto
  from ws_new_Ok [OF t] eio_client_of_Ok [OF c] assms(1) hs m show ?thesis
    by (intro exI [of _ "ws_url t"] exI [of _ hs] exI [of _ m]) (auto simp: transport_from_ws_def)
qed

definition demo_upgrade :: ext where
  "demo_upgrade = demo_items [(4, WsMsg (WsText ''3probe''))]"

definition demo_builder :: eio_builder where
  "demo_builder = (eio_builder_new demo_upgrade ''http://h'')\<lparr>cb_handshake := Some demo_handshake\<rparr>"

theorem eio_upgrade_protocol_witness:
  "\<exists>s w1 v. eio_build_websocket demo_upgrade demo_builder demo_world = (Ok s, w1) \<and>
     sent w1 = [DidConnect v None None, DidSend 0 (WsText ''2probe''), DidSend 0 (WsText ''5'')]"
proof -
  have "is_ok (fst (eio_build_websocket demo_upgrade demo_builder demo_world))"
    by (simp add: eio_build_websocket_def demo_upgrade_def demo_items_def demo_ext_def demo_builder_def
        eio_builder_new_def convert_headers_def demo_scheme_def demo_append_def ENGINE_IO_VERSION_def
        ws_new_def async_ws_new_def unwrap_def ws_connect_def ws_general_new_def eio_websocket_ready_def
        ws_upgrade_def async_ws_upgrade_def ws_general_upgrade_def control_packet_bytes control_packet_utf8
        ws_send_def ws_recv_def past_def did_def demo_world_def eio_client_of_def eio_socket_new_def
        add_u64_def demo_handshake_def Let_def)
  then obtain s w1 where b: "eio_build_websocket demo_upgrade demo_builder demo_world = (Ok s, w1)"
    by (cases "eio_build_websocket demo_upgrade demo_builder demo_world") auto
  have u: "url_parse demo_upgrade (cb_url demo_builder) = Inr (cb_url demo_builder)" by code_simp
  have sch: "url_scheme demo_upgrade (cb_url demo_builder) \<in> {''http'', ''ws''}" by code_simp
  have hs: "cb_handshake demo_builder = Some demo_handshake" "cb_headers demo_builder = None"
    by (simp_all add: demo_builder_def eio_builder_new_def Let_def)
  from eio_upgrade_protocol [OF hs(1) u sch b] b hs(2) show ?thesis
    by (auto simp: convert_headers_def)
qed

subsection \<open>The client's reaction to a packet\<close>

lemma eio_client_poll_packet:
  assumes "eio_socket_poll X sw = (Ok (Some p), s1, w1)"
  shows "eio_client_poll X sw =
    (let w2 = call_opt (es_on_packet s1) (ArgPacket p) w1 in
     if packet_id p \<in> {Message, MessageBinary}
     then (Ok (Some p), s1, call_opt (es_on_data s1) (ArgBytes (data p)) w2)
     else if packet_id p = Close
     then (Ok (Some p), s1\<lparr>es_connected := False\<rparr>, call_opt (es_on_close s1) ArgUnit w2)
     else if packet_id p \<in> {Open, Pong} then (Panic, s1, w2)
     else if packet_id p = Ping
     then ques (eio_client_emit X (eio_packet_new Pong '''') (s1\<lparr>es_last_ping := now w2\<rparr>, w2))
            (\<lambda>_ sw. (Ok (Some p), sw))
     else (Ok (Some p), s1, w2))"
  using assms
  by (cases "packet_id p")
     (simp_all add: eio_client_poll_def eio_handle_packet_def eio_handle_data_def eio_handle_close_def
        eio_socket_pinged_def Let_def)

lemma eio_client_poll_returned:
  assumes "eio_socket_poll X sw = (Ok (Some p), s1, w1)"
  shows "returned (fst (eio_client_poll X sw)) \<longleftrightarrow> packet_id p \<notin> {Open, Pong}"
proof -
  let ?w = "call_opt (es_on_packet s1) (ArgPacket p) w1"
  have "returned (fst (ques (eio_client_emit X q (s, w)) (\<lambda>_ sw. (Ok (Some p), sw))))" for q s w
    using eio_socket_emit_frame(3) [of X q s w]
    by (cases "eio_socket_emit X q (s, w)"; cases "fst (eio_socket_emit X q (s, w))")
       (auto simp: eio_client_emit_def)
  then show ?thesis
    by (cases "packet_id p") (simp_all add: eio_client_poll_packet [OF assms] Let_def)
qed

text \<open>
  C32. The blocking client panics exactly when the server sends an open or a pong packet: every
  other packet it has read is returned to the caller or, if answering a ping fails, an error is.
\<close>

theorem eio_client_poll_panics:
  assumes "eio_socket_poll X sw = (Ok (Some p), s1, w1)"
  shows "(fst (eio_client_poll X sw) = Panic \<longleftrightarrow> packet_id p \<in> {Open, Pong}) \<and>
    (packet_id p \<notin> {Open, Pong, Ping} \<longrightarrow> fst (eio_client_poll X sw) = Ok (Some p)) \<and>
    (packet_id p = Ping \<longrightarrow> fst (eio_client_poll X sw) = Ok (Some p) \<or>
       (\<exists>e. fst (eio_client_poll X sw) = Err e))"
proof -
  have "fst (eio_client_poll X sw) = Panic" if "packet_id p \<in> {Open, Pong}"
    using that by (auto simp: eio_client_poll_packet [OF assms] Let_def)
  moreover have "fst (eio_client_poll X sw) = Ok (Some p)" if "packet_id p \<notin> {Open, Pong, Ping}"
    using that by (cases "packet_id p") (simp_all add: eio_client_poll_packet [OF assms] Let_def)
  moreover have "fst (eio_client_poll X sw) = Ok (Some p) \<or> (\<exists>e. fst (eio_client_poll X sw) = Err e)"
    if "packet_id p = Ping"
  proof -
    have "fst (ques rs (\<lambda>_ sw. (Ok (Some p), sw))) = Ok (Some p) \<or>
        (\<exists>e. fst (ques rs (\<lambda>_ sw. (Ok (Some p), sw))) = Err e)"
      if "returned (fst rs)" for rs :: "(eio_error, unit) outcome \<times> eio_state"
      using that by (cases rs; cases "fst rs") auto
    then show ?thesis
      using that by (simp add: eio_client_poll_packet [OF assms] Let_def eio_client_emit_def)
  qed
  ultimately show ?thesis using eio_client_poll_returned [OF assms] by fastforce
qed

theorem eio_client_poll_panics_witness:
  "fst (eio_client_poll (demo_items [])
     ((demo_socket (Websocket demo_ws))\<lparr>es_remaining := Some [eio_packet_new Pong '''']\<rparr>, demo_world)) = Panic"
proof -
  let ?s = "(demo_socket (Websocket demo_ws))\<lparr>es_remaining := Some [eio_packet_new Pong '''']\<rparr>"
  have "eio_socket_poll (demo_items []) (?s, demo_world) =
      (Ok (Some (eio_packet_new Pong '''')), ?s\<lparr>es_remaining := Some []\<rparr>, demo_world)"
    by (rule eio_poll_buffered) simp_all
  from eio_client_poll_panics [OF this] show ?thesis by (simp add: eio_packet_new_def)
qed

lemma eio_client_iter_closed:
  "\<not> es_connected s \<Longrightarrow> 0 < loop_fuel X \<Longrightarrow> fst (eio_client_iter_next X (s, w)) = Ok None"
  by (cases "loop_fuel X") (simp_all add: eio_client_iter_next_def eio_client_poll_def eio_socket_poll_def)

text \<open>
  C15. The ping cycle: a ping restarts the heartbeat at the current instant and is answered by a
  pong on the transport; a close packet closes the client, so that the next poll ends the iteration.
\<close>

theorem eio_client_poll_reacts:
  assumes "eio_socket_poll X sw = (Ok (Some p), s1, w1)" and "es_connected s1"
  shows "(packet_id p = Ping \<longrightarrow>
      fst (snd (eio_client_poll X sw)) = s1\<lparr>es_last_ping := now w1\<rparr> \<and>
      sent (snd (snd (eio_client_poll X sw))) =
        sent (snd (transport_emit X (es_transport s1) ''3'' False
          (call_opt (es_on_packet s1) (ArgPacket p) w1)))) \<and>
    (packet_id p = Close \<longrightarrow>
      \<not> es_connected (fst (snd (eio_client_poll X sw))) \<and>
      (0 < loop_fuel X \<longrightarrow>
        fst (eio_client_iter_next X (snd (eio_client_poll X sw))) = Ok None))"
proof -
  let ?w = "call_opt (es_on_packet s1) (ArgPacket p) w1"
  let ?s = "s1\<lparr>es_last_ping := now w1\<rparr>"
  have emit: "sent (snd (snd (ques (eio_client_emit X (eio_packet_new Pong '''') (?s, ?w)) (\<lambda>_ sw. (Ok (Some p), sw))))) =
      sent (snd (transport_emit X (es_transport s1) ''3'' False ?w)) \<and>
    fst (snd (ques (eio_client_emit X (eio_packet_new Pong '''') (?s, ?w)) (\<lambda>_ sw. (Ok (Some p), sw)))) = ?s"
    using assms(2) control_packet_bytes(4) [of "b64 X"]
    by (cases "transport_emit X (es_transport s1) ''3'' False ?w";
        cases "fst (transport_emit X (es_transport s1) ''3'' False ?w)")
       (auto simp: eio_client_emit_def eio_socket_emit_def eio_call_error_callback_def eio_packet_new_def)
  then show ?thesis
    by (auto simp: eio_client_poll_packet [OF assms(1)] Let_def eio_client_iter_closed)
qed

theorem eio_client_poll_reacts_witness:
  "sent (snd (snd (eio_client_poll (demo_items [])
     ((demo_socket (Websocket demo_ws))\<lparr>es_remaining := Some [eio_packet_new Ping '''']\<rparr>, demo_world)))) =
   [DidSend 0 (WsText ''3'')]"
proof -
  let ?s = "(demo_socket (Websocket demo_ws))\<lparr>es_remaining := Some [eio_packet_new Ping '''']\<rparr>"
  have "eio_socket_poll (demo_items []) (?s, demo_world) =
      (Ok (Some (eio_packet_new Ping '''')), ?s\<lparr>es_remaining := Some []\<rparr>, demo_world)"
    by (rule eio_poll_buffered) simp_all
  from eio_client_poll_reacts [OF this]
  have "sent (snd (snd (eio_client_poll (demo_items []) (?s, demo_world)))) =
      sent (snd (transport_emit (demo_items []) (Websocket demo_ws) ''3'' False demo_world))"
    by (simp add: eio_packet_new_def call_opt_def)
  moreover have "sent (snd (transport_emit (demo_items []) (Websocket demo_ws) ''3'' False demo_world)) =
      [DidSend 0 (WsText ''3'')]"
    by (simp add: ws_emit_def async_ws_emit_def ws_general_emit_unfold is_ascii_def
        demo_ws_def ws_send_def case_prod_beta demo_items_def demo_ext_def did_def sent_def demo_world_def)
  ultimately show ?thesis by simp
qed

end
