(* ===== verification/Sio_Socket.thy ===== *)
theory Sio_Socket
  imports Sio_Packet Eio_Client
begin

text \<open>\<open>socketio/src/socket.rs\<close>: the blocking socket.io socket over an engine.io client.\<close>

record sio_socket =
  ss_engine :: eio_socket
  ss_connected :: bool

type_synonym sio_state = "sio_socket \<times> world"

definition sio_socket_new :: "eio_socket \<Rightarrow> (sio_error, sio_socket) outcome" where
  "sio_socket_new e = Ok \<lparr>ss_engine = e, ss_connected = False\<rparr>"

text \<open>An operation of the engine client, its error converted by \<open>?\<close>.\<close>

definition on_engine ::
  "(eio_state \<Rightarrow> (eio_error, 'a) outcome \<times> eio_state) \<Rightarrow> sio_state \<Rightarrow> (sio_error, 'a) outcome \<times> sio_state" where
  "on_engine f = (\<lambda>(s, w). case f (ss_engine s, w) of (r, e, w) \<Rightarrow>
     (map_err SioIncompleteResponseFromEngineIo r, s\<lparr>ss_engine := e\<rparr>, w))"

definition sio_is_engineio_connected :: "sio_socket \<Rightarrow> (sio_error, bool) outcome" where
  "sio_is_engineio_connected s =
     map_err SioIncompleteResponseFromEngineIo (eio_client_is_connected (ss_engine s))"

definition sio_socket_connect :: "ext \<Rightarrow> sio_state \<Rightarrow> (sio_error, unit) outcome \<times> sio_state" where
  "sio_socket_connect X sw =
     ques (on_engine (eio_client_connect X) sw) (\<lambda>_ (s, w). (Ok (), s\<lparr>ss_connected := True\<rparr>, w))"

definition sio_socket_disconnect :: "ext \<Rightarrow> sio_state \<Rightarrow> (sio_error, unit) outcome \<times> sio_state" where
  "sio_socket_disconnect X = (\<lambda>(s, w).
     ques (sio_is_engineio_connected s, s, w) (\<lambda>c (s, w).
     ques (if c then on_engine (eio_client_disconnect X) (s, w) else (Ok (), s, w)) (\<lambda>_ (s, w).
       (Ok (), if ss_connected s then s\<lparr>ss_connected := False\<rparr> else s, w))))"

fun sio_send_attachments :: "ext \<Rightarrow> bytes list \<Rightarrow> sio_state \<Rightarrow> (sio_error, unit) outcome \<times> sio_state" where
  "sio_send_attachments X [] sw = (Ok (), sw)"
| "sio_send_attachments X (a # as) sw =
     ques (on_engine (eio_client_emit X (eio_packet_new MessageBinary a)) sw) (\<lambda>_ sw.
       sio_send_attachments X as sw)"

definition sio_socket_send :: "ext \<Rightarrow> sio_packet \<Rightarrow> sio_state \<Rightarrow> (sio_error, unit) outcome \<times> sio_state" where
  "sio_socket_send X p = (\<lambda>(s, w).
     ques (sio_is_engineio_connected s, s, w) (\<lambda>c (s, w).
       if \<not> c \<or> \<not> ss_connected s then (Err SioIllegalActionBeforeOpen, s, w)
       else ques (sio_packet_into_bytes (overflow_checks X) p, s, w) (\<lambda>b sw.
         ques (on_engine (eio_client_emit X (eio_packet_new Message b)) sw) (\<lambda>_ sw.
           case attachments p of
             Some as \<Rightarrow> sio_send_attachments X as sw
           | None \<Rightarrow> (Ok (), sw)))))"

definition sio_socket_emit ::
  "ext \<Rightarrow> bytes \<Rightarrow> event \<Rightarrow> payload \<Rightarrow> sio_state \<Rightarrow> (sio_error, unit) outcome \<times> sio_state" where
  "sio_socket_emit X n e d sw =
     ques (new_from_payload (json X) d e n None, sw) (\<lambda>p sw. sio_socket_send X p sw)"

definition sio_socket_ack ::
  "ext \<Rightarrow> bytes \<Rightarrow> payload \<Rightarrow> i32 option \<Rightarrow> sio_state \<Rightarrow> (sio_error, unit) outcome \<times> sio_state" where
  "sio_socket_ack X n d i sw =
     ques (ack_from_payload (json X) d n i, sw) (\<lambda>p sw. sio_socket_send X p sw)"

definition sio_handle_socketio_packet :: "sio_packet \<Rightarrow> sio_socket \<Rightarrow> sio_socket" where
  "sio_handle_socketio_packet p s = (case packet_type p of
     Connect \<Rightarrow> s\<lparr>ss_connected := True\<rparr>
   | ConnectError \<Rightarrow> s\<lparr>ss_connected := False\<rparr>
   | Disconnect \<Rightarrow> s\<lparr>ss_connected := False\<rparr>
   | _ \<Rightarrow> s)"

text \<open>The loop over the attachments still to come; the ones read so far are in order.\<close>

fun sio_read_attachments ::
  "nat \<Rightarrow> ext \<Rightarrow> bytes list \<Rightarrow> sio_state \<Rightarrow> (sio_error, bytes list) outcome \<times> sio_state" where
  "sio_read_attachments 0 X as sw = (Ok as, sw)"
| "sio_read_attachments (Suc k) X as sw =
     ques (on_engine (eio_client_poll X) sw) (\<lambda>r sw.
       case r of
         Some p \<Rightarrow>
           (if packet_id p \<in> {MessageBinary, Message} then sio_read_attachments k X (as @ [data p]) sw
            else (Err (SioInvalidAttachmentPacketType (eio_packet_id_to_u8 (packet_id p))), sw))
       | None \<Rightarrow> (Err SioIncompletePacket, sw))"

definition sio_handle_engineio_packet ::
  "ext \<Rightarrow> eio_packet \<Rightarrow> sio_state \<Rightarrow> (sio_error, sio_packet) outcome \<times> sio_state" where
  "sio_handle_engineio_packet X ep sw =
     ques (sio_packet_try_from (json X) (data ep), sw) (\<lambda>p sw.
       if attachment_count p > 0
       then ques (sio_read_attachments (unat (attachment_count p)) X [] sw) (\<lambda>as sw.
              (Ok (p\<lparr>attachments := Some as\<rparr>), sw))
       else (Ok p, sw))"

fun sio_poll_loop :: "nat \<Rightarrow> ext \<Rightarrow> sio_state \<Rightarrow> (sio_error, sio_packet option) outcome \<times> sio_state" where
  "sio_poll_loop 0 X sw = (Hang, sw)"
| "sio_poll_loop (Suc n) X sw =
     ques (on_engine (eio_client_poll X) sw) (\<lambda>r sw.
       case r of
         None \<Rightarrow> (Ok None, sw)
       | Some ep \<Rightarrow>
           if packet_id ep = Message \<or> packet_id ep = MessageBinary
           then ques (sio_handle_engineio_packet X ep sw) (\<lambda>p (s, w).
                  (Ok (Some p), sio_handle_socketio_packet p s, w))
           else sio_poll_loop n X sw)"

definition sio_socket_poll :: "ext \<Rightarrow> sio_state \<Rightarrow> (sio_error, sio_packet option) outcome \<times> sio_state" where
  "sio_socket_poll X sw = sio_poll_loop (loop_fuel X) X sw"

subsection \<open>The contract of a connection\<close>

definition sio_is_open :: "sio_socket \<Rightarrow> bool" where
  "sio_is_open s \<longleftrightarrow> ss_connected s \<and> es_connected (ss_engine s)"

lemma sio_is_engineio_connected_simp [simp]:
  "sio_is_engineio_connected s = Ok (es_connected (ss_engine s))"
  by (simp add: sio_is_engineio_connected_def eio_client_is_connected_def eio_socket_is_connected_def)

lemma sio_send_closed:
  "\<not> sio_is_open s \<Longrightarrow> sio_socket_send X p (s, w) = (Err SioIllegalActionBeforeOpen, s, w)"
  by (auto simp: sio_socket_send_def sio_is_open_def)

lemma sio_disconnect_frame:
  "\<exists>s' w'. sio_socket_disconnect X (s, w) = (Ok (), s', w') \<and> \<not> ss_connected s' \<and>
     \<not> es_connected (ss_engine s') \<and> grows w w'"
proof (cases "es_connected (ss_engine s)")
  case True
  obtain w' where "eio_socket_disconnect X (ss_engine s, w) =
      (Ok (), (ss_engine s)\<lparr>es_connected := False\<rparr>, w')" "grows w w'"
    using eio_socket_disconnect_frame by blast
  with True show ?thesis by (auto simp: sio_socket_disconnect_def on_engine_def eio_client_disconnect_def)
qed (auto simp: sio_socket_disconnect_def)

interpretation sio_connection: connection sio_is_open "sio_socket_send X" "sio_socket_disconnect X"
  SioIllegalActionBeforeOpen for X
proof unfold_locales
  fix s :: sio_socket and m w assume "\<not> sio_is_open s"
  then show "\<exists>w'. sio_socket_send X m (s, w) = (Err SioIllegalActionBeforeOpen, s, w') \<and>
      sent w' = sent w \<and> grows w w'"
    by (simp add: sio_send_closed)
next
  fix s :: sio_socket and w
  show "\<not> sio_is_open (fst (snd (sio_socket_disconnect X (s, w))))"
    "grows w (snd (snd (sio_socket_disconnect X (s, w))))"
    using sio_disconnect_frame [of X s w] by (auto simp: sio_is_open_def)
qed

subsection \<open>Sending with attachments\<close>

text \<open>What one engine packet is on a websocket: binary data raw, all else as text.\<close>

definition ws_frame :: "ext \<Rightarrow> eio_packet \<Rightarrow> ws_message" where
  "ws_frame X p = (if packet_id p = MessageBinary then WsBinary (data p)
     else WsText (eio_packet_into_bytes (b64 X) p))"

lemma eio_emit_ws_Ok:
  assumes "is_websocket (es_transport s)" and "eio_client_emit X p (s, w) = (Ok (), s', w')"
  shows "s' = s \<and> sent w' = sent w @ [DidSend (wire_conn (es_transport s)) (ws_frame X p)]"
proof -
  have "sent w2 = sent w @ [DidSend c m]" if "ws_send X c m w = (r, w2)" for c m r w2
    using that ws_send_sent [of X c m w] by simp
  with assms show ?thesis
    by (cases "es_transport s")
       (auto simp: eio_client_emit_def eio_socket_emit_def Let_def ws_emit_def wss_emit_def async_ws_emit_def
        async_wss_emit_def ws_general_emit_unfold ws_frame_def
        elim!: ques.elims split: if_splits prod.splits outcome.splits)
qed

lemma on_engine_emit_Ok:
  assumes "is_websocket (es_transport (ss_engine s))"
    and "on_engine (eio_client_emit X p) (s, w) = (Ok (), s', w')"
  shows "s' = s \<and> sent w' = sent w @ [DidSend (wire_conn (es_transport (ss_engine s))) (ws_frame X p)]"
  using assms eio_emit_ws_Ok [of "ss_engine s" X p w]
  by (auto simp: on_engine_def split: prod.splits)

lemma sio_send_attachments_Ok:
  assumes "is_websocket (es_transport (ss_engine s))" and "sio_send_attachments X as (s, w) = (Ok (), s', w')"
  shows "s' = s \<and> sent w' = sent w @ map (\<lambda>a. DidSend (wire_conn (es_transport (ss_engine s))) (WsBinary a)) as"
  using assms(2)
proof (induction as arbitrary: w)
  case (Cons a as)
  obtain r s1 w1 where r: "on_engine (eio_client_emit X (eio_packet_new MessageBinary a)) (s, w) = (r, s1, w1)"
    by (cases "on_engine (eio_client_emit X (eio_packet_new MessageBinary a)) (s, w)") auto
  with Cons.prems have "r = Ok ()" by (cases r) auto
  with r on_engine_emit_Ok [OF assms(1), of X "eio_packet_new MessageBinary a" w s1 w1]
  have "s1 = s" "sent w1 = sent w @ [DidSend (wire_conn (es_transport (ss_engine s))) (WsBinary a)]"
    by (simp_all add: ws_frame_def eio_packet_new_def)
  with Cons r \<open>r = Ok ()\<close> show ?case by auto
qed simp

lemma sio_send_Ok:
  assumes "is_websocket (es_transport (ss_engine s))"
    and "sio_packet_into_bytes (overflow_checks X) p = Ok b"
    and "sio_socket_send X p (s, w) = (Ok (), s', w')"
  shows "s' = s \<and> sent w' = sent w @ DidSend (wire_conn (es_transport (ss_engine s))) (WsText (CHR ''4'' # b)) #
       map (\<lambda>a. DidSend (wire_conn (es_transport (ss_engine s))) (WsBinary a))
         (case attachments p of None \<Rightarrow> [] | Some as \<Rightarrow> as)"
proof -
  from assms sio_send_closed [of s X p w] have "sio_is_open s" by fastforce
  obtain r1 s1 w1 where e: "on_engine (eio_client_emit X (eio_packet_new Message b)) (s, w) = (r1, s1, w1)"
    by (cases "on_engine (eio_client_emit X (eio_packet_new Message b)) (s, w)") auto
  with assms \<open>sio_is_open s\<close> have "r1 = Ok ()"
    by (cases r1) (auto simp: sio_socket_send_def sio_is_open_def)
  have "u8_byte (to_string_byte Message) = CHR ''4''" by code_simp
  with on_engine_emit_Ok [OF assms(1), of X "eio_packet_new Message b" w s1 w1] e \<open>r1 = Ok ()\<close>
  have "s1 = s" "sent w1 = sent w @ [DidSend (wire_conn (es_transport (ss_engine s))) (WsText (CHR ''4'' # b))]"
    by (simp_all add: ws_frame_def eio_packet_new_def eio_packet_into_bytes_def)
  with assms e \<open>r1 = Ok ()\<close> \<open>sio_is_open s\<close> sio_send_attachments_Ok [OF assms(1), of X _ w1 s' w']
  show ?thesis
    by (auto simp: sio_socket_send_def sio_is_open_def split: option.splits)
qed

text \<open>
  C28. A successful send of a packet is its text in one frame and then each of its attachments in a
  frame of its own, in order and raw; nothing else is sent. A send on a socket that is closed, or
  was never opened, is refused and sends nothing.
\<close>

theorem sio_send_frames:
  assumes "is_websocket (es_transport (ss_engine s))"
    and "sio_packet_into_bytes (overflow_checks X) p = Ok b"
    and "sio_socket_send X p (s, w) = (r, s', w')"
  shows "(r = Ok () \<longrightarrow> s' = s \<and> sent w' = sent w @
       DidSend (wire_conn (es_transport (ss_engine s))) (WsText (CHR ''4'' # b)) #
       map (\<lambda>a. DidSend (wire_conn (es_transport (ss_engine s))) (WsBinary a)) (case attachments p of None \<Rightarrow> [] | Some as \<Rightarrow> as)) \<and>
    (\<not> sio_is_open s \<longrightarrow> r = Err SioIllegalActionBeforeOpen \<and> s' = s \<and> w' = w)"
  using sio_send_Ok [OF assms(1,2)] sio_send_closed [of s X p w] assms(3) by auto

definition demo_sio :: "eio_packet list \<Rightarrow> sio_socket" where
  "demo_sio ps = \<lparr>ss_engine = (demo_socket (Websocket demo_ws))\<lparr>es_remaining := Some ps\<rparr>, ss_connected = True\<rparr>"

theorem sio_send_frames_witness:
  "\<exists>r w'. sio_socket_send demo_ext (sio_packet_new BinaryEvent ''/'' (Some (quoted ''e'')) None 1 (Some [''xy'']))
     (demo_sio [], demo_world) = (r, demo_sio [], w') \<and> r = Ok () \<and>
   length (sent w') = 2"
proof -
  let ?p = "sio_packet_new BinaryEvent ''/'' (Some (quoted ''e'')) None 1 (Some [''xy''])"
  let ?b = "''51-['' @ quoted ''e'' @ '','' @ placeholder ''0'' @ '']''"
  have one: "show_nat 1 = ''1''" by code_simp
  then have b: "sio_packet_into_bytes (overflow_checks demo_ext) ?p = Ok ?b"
    by (simp add: sio_packet_into_bytes_def sio_packet_body_def sio_packet_new_def is_binary_type_def
        last_attachment_def demo_ext_def)
  have four: "u8_byte (to_string_byte Message) = CHR ''4''" by code_simp
  obtain r s' w' where r: "sio_socket_send demo_ext ?p (demo_sio [], demo_world) = (r, s', w')"
    by (cases "sio_socket_send demo_ext ?p (demo_sio [], demo_world)") auto
  have "utf8_valid (CHR ''4'' # ?b)"
    by (simp add: is_ascii_def quoted_def placeholder_def)
  then have "r = Ok ()"
    using r b four
    by (simp add: sio_socket_send_def demo_sio_def on_engine_def eio_client_emit_def eio_socket_emit_def
        eio_packet_new_def eio_packet_into_bytes_def ws_emit_def async_ws_emit_def ws_general_emit_unfold
        ws_send_def case_prod_beta sio_packet_new_def demo_ext_def del: append_Cons append_Nil)
  with sio_send_frames [of "demo_sio []" demo_ext ?p ?b demo_world, OF _ b r] r show ?thesis
    by (simp add: demo_sio_def sio_packet_new_def)
qed

subsection \<open>Receiving with attachments\<close>

lemma eio_client_poll_buffered:
  assumes "es_connected e" and "es_remaining e = Some (p # ps)" and "0 < loop_fuel X"
    and "packet_id p \<in> {Message, MessageBinary}"
  shows "\<exists>w'. eio_client_poll X (e, w) = (Ok (Some p), e\<lparr>es_remaining := Some ps\<rparr>, w') \<and>
    sent w' = sent w \<and> grows w w'"
proof -
  have "eio_socket_poll X (e, w) = (Ok (Some p), e\<lparr>es_remaining := Some ps\<rparr>, w)"
    using assms by (intro eio_poll_buffered)
  from eio_client_poll_packet [OF this] assms(4) show ?thesis
    by (auto simp: Let_def intro: grows_trans [OF grows_call_opt grows_call_opt])
qed

lemma on_engine_poll_buffered:
  assumes "es_connected (ss_engine s)" and "es_remaining (ss_engine s) = Some (p # ps)"
    and "0 < loop_fuel X" and "packet_id p \<in> {Message, MessageBinary}"
  shows "\<exists>w'. on_engine (eio_client_poll X) (s, w) =
      (Ok (Some p), s\<lparr>ss_engine := (ss_engine s)\<lparr>es_remaining := Some ps\<rparr>\<rparr>, w') \<and> sent w' = sent w"
  using eio_client_poll_buffered [OF assms, of w] by (auto simp: on_engine_def)

lemma sio_read_attachments_buffered:
  assumes "es_connected (ss_engine s)" and "0 < loop_fuel X"
    and "es_remaining (ss_engine s) = Some (map (eio_packet_new MessageBinary) as @ rest)"
  shows "\<exists>w'. sio_read_attachments (length as) X acc (s, w) =
      (Ok (acc @ as), s\<lparr>ss_engine := (ss_engine s)\<lparr>es_remaining := Some rest\<rparr>\<rparr>, w') \<and> sent w' = sent w"
  using assms(1,3)
proof (induction as arbitrary: s w acc)
  case (Cons a as)
  let ?ps = "map (eio_packet_new MessageBinary) as @ rest"
  let ?s = "s\<lparr>ss_engine := (ss_engine s)\<lparr>es_remaining := Some ?ps\<rparr>\<rparr>"
  obtain w1 where w1: "on_engine (eio_client_poll X) (s, w) =
      (Ok (Some (eio_packet_new MessageBinary a)), ?s, w1)" "sent w1 = sent w"
    using on_engine_poll_buffered [of s "eio_packet_new MessageBinary a" ?ps X w] Cons.prems assms(2)
    by (auto simp: eio_packet_new_def)
  obtain w2 where "sio_read_attachments (length as) X (acc @ [a]) (?s, w1) =
      (Ok ((acc @ [a]) @ as), ?s\<lparr>ss_engine := (ss_engine ?s)\<lparr>es_remaining := Some rest\<rparr>\<rparr>, w2)" "sent w2 = sent w1"
    using Cons.IH [of ?s "acc @ [a]" w1] Cons.prems by auto
  with w1 show ?case by (auto simp: eio_packet_new_def)
qed simp


definition demo_binary_event :: sio_packet where
  "demo_binary_event = sio_packet_new BinaryEvent ''/'' (Some (quoted ''e'')) None 1 None"

lemma demo_binary_event_wf: "sio_packet_wf plain_json_lib demo_binary_event"
  by (simp add: demo_binary_event_def sio_packet_wf_def sio_packet_new_def nsp_ok_def id_ok_def
      is_binary_type_def body_ok_def sio_binary_body_def quoted_def placeholder_def
      plain_json_lib_def is_ascii_def is_ascii_digit_def)


end
