(* ===== verification/Sio_Raw_Client.thy ===== *)
theory Sio_Raw_Client
  imports Sio_Socket
begin

text \<open>
  \<open>socketio/src/client/raw_client.rs\<close> with \<open>client/callback.rs\<close>: the blocking client of one
  connection. The callback tables are behind mutexes that are not re-entrant; \<open>rc_locked\<close> says that
  this thread holds those of \<open>on\<close> and \<open>on_any\<close>, so locking them again never returns. A callback is
  a handle; the actions of its code on the client it is handed are run in place (\<open>run_actions\<close>).
  They may disconnect, which calls callbacks again: the functions that run callbacks take
  \<open>disconnect\<close> as the argument \<open>disc\<close>, and \<open>raw_disconnect\<close> ties the knot with fuel for the depth.
\<close>

record ack =
  ak_id :: i32
  ak_timeout :: nat
  ak_started :: nat
  ak_callback :: callback

record raw_client =
  rc_socket :: sio_socket
  rc_on :: "event \<rightharpoonup> callback"
  rc_on_any :: "callback option"
  rc_on_close :: "callback option"
  rc_acks :: "ack list"
  rc_nsp :: bytes
  rc_auth :: "json option"
  rc_epoch :: u64
  rc_locked :: bool

type_synonym raw_state = "raw_client \<times> world"

definition raw_client_new ::
  "sio_socket \<Rightarrow> bytes \<Rightarrow> (event \<rightharpoonup> callback) \<Rightarrow> callback option \<Rightarrow> callback option \<Rightarrow> u64 \<Rightarrow> json option \<Rightarrow>
   (sio_error, raw_client) outcome" where
  "raw_client_new s n on any cl ep au =
     Ok \<lparr>rc_socket = s, rc_on = on, rc_on_any = any, rc_on_close = cl, rc_acks = [], rc_nsp = n,
        rc_auth = au, rc_epoch = ep, rc_locked = False\<rparr>"

text \<open>An operation of the socket of the client.\<close>

definition on_sio ::
  "(sio_state \<Rightarrow> (sio_error, 'a) outcome \<times> sio_state) \<Rightarrow> raw_state \<Rightarrow> (sio_error, 'a) outcome \<times> raw_state" where
  "on_sio f = (\<lambda>(c, w). case f (rc_socket c, w) of (r, s, w) \<Rightarrow> (r, c\<lparr>rc_socket := s\<rparr>, w))"

definition raw_connect :: "ext \<Rightarrow> raw_state \<Rightarrow> (sio_error, unit) outcome \<times> raw_state" where
  "raw_connect X cw =
     ques (on_sio (sio_socket_connect X) cw) (\<lambda>_ (c, w).
       let auth = map_option (json_to_string (json X)) (rc_auth c);
           p = sio_packet_new Connect (rc_nsp c) auth None 0 None in
       ques (on_sio (sio_socket_send X p) (c, w)) (\<lambda>_ (c, w).
         (Ok (), c\<lparr>rc_epoch := rc_epoch c + 1\<rparr>, w)))"

definition raw_emit :: "ext \<Rightarrow> event \<Rightarrow> payload \<Rightarrow> raw_state \<Rightarrow> (sio_error, unit) outcome \<times> raw_state" where
  "raw_emit X e d = (\<lambda>(c, w). on_sio (sio_socket_emit X (rc_nsp c) e d) (c, w))"

definition raw_ack :: "ext \<Rightarrow> payload \<Rightarrow> raw_state \<Rightarrow> (sio_error, unit) outcome \<times> raw_state" where
  "raw_ack X d = (\<lambda>(c, w). on_sio (sio_socket_ack X (rc_nsp c) d None) (c, w))"

definition raw_ack_with_id :: "ext \<Rightarrow> i32 \<Rightarrow> payload \<Rightarrow> raw_state \<Rightarrow> (sio_error, unit) outcome \<times> raw_state" where
  "raw_ack_with_id X i d = (\<lambda>(c, w). on_sio (sio_socket_ack X (rc_nsp c) d (Some i)) (c, w))"

text \<open>The random id is in 0 to 998; it stands in the list before the packet is sent.\<close>

definition raw_emit_with_ack ::
  "ext \<Rightarrow> event \<Rightarrow> payload \<Rightarrow> nat \<Rightarrow> callback \<Rightarrow> raw_state \<Rightarrow> (sio_error, unit) outcome \<times> raw_state" where
  "raw_emit_with_ack X e d ms h = (\<lambda>(c, w).
     let i = random_id X (length (trace w)) in
     ques (new_from_payload (json X) d e (rc_nsp c) (Some i), c, w) (\<lambda>p (c, w).
       let a = \<lparr>ak_id = i, ak_timeout = ms, ak_started = now w, ak_callback = h\<rparr> in
       ques (on_sio (sio_socket_send X p) (c\<lparr>rc_acks := rc_acks c @ [a]\<rparr>, w)) (\<lambda>_ cw. (Ok (), cw))))"

subsection \<open>Callbacks\<close>

type_synonym raw_op = "raw_state \<Rightarrow> (sio_error, unit) outcome \<times> raw_state"

text \<open>
  What the callback's code does with the client, in order and whatever each call returns; a call
  that does not come back ends it.
\<close>

fun run_action :: "raw_op \<Rightarrow> ext \<Rightarrow> user_action \<Rightarrow> raw_op" where
  "run_action disc X (UserEmit e d) cw = raw_emit X e d cw"
| "run_action disc X (UserEmitWithAck e d ms h) cw = raw_emit_with_ack X e d ms h cw"
| "run_action disc X (UserAck d) cw = raw_ack X d cw"
| "run_action disc X (UserAckWithId i d) cw = raw_ack_with_id X i d cw"
| "run_action disc X UserDisconnect cw = disc cw"

fun run_actions :: "raw_op \<Rightarrow> ext \<Rightarrow> user_action list \<Rightarrow> raw_op" where
  "run_actions disc X [] cw = (Ok (), cw)"
| "run_actions disc X (u # us) cw = on_return (run_action disc X u cw) (\<lambda>_ cw. run_actions disc X us cw)"

definition run_user :: "raw_op \<Rightarrow> ext \<Rightarrow> callback \<Rightarrow> callback_arg \<Rightarrow> raw_op" where
  "run_user disc X h a = (\<lambda>(c, w).
     run_actions disc X (user_code X (length (trace w)) h a) (c, did (DidCall h a) w))"

fun wants_any :: "event \<Rightarrow> bool" where
  "wants_any EvMessage = True"
| "wants_any (EvCustom s) = True"
| "wants_any e = False"

definition raw_callback :: "raw_op \<Rightarrow> ext \<Rightarrow> event \<Rightarrow> payload \<Rightarrow> i32 option \<Rightarrow> raw_op" where
  "raw_callback disc X e d i = (\<lambda>(c, w).
     if rc_locked c then (Hang, c, w)
     else let d = set_ack_id i d in
       on_return (case rc_on c e of
           Some h \<Rightarrow> run_user disc X h (ArgPayload d) (c\<lparr>rc_locked := True\<rparr>, w)
         | None \<Rightarrow> (Ok (), c\<lparr>rc_locked := True\<rparr>, w)) (\<lambda>_ (c, w).
       on_return (case rc_on_any c of
           Some h \<Rightarrow> if wants_any e then run_user disc X h (ArgEvent e d) (c, w) else (Ok (), c, w)
         | None \<Rightarrow> (Ok (), c, w)) (\<lambda>_ (c, w).
         (Ok (), c\<lparr>rc_locked := False\<rparr>, w))))"

text \<open>The close callback is taken out while it runs, and put back.\<close>

definition raw_callback_close :: "raw_op \<Rightarrow> ext \<Rightarrow> bytes \<Rightarrow> u64 \<Rightarrow> raw_op" where
  "raw_callback_close disc X reason ep cw =
     ques (raw_callback disc X EvClose (payload_from_str (json X) reason) None cw) (\<lambda>_ (c, w).
       case rc_on_close c of
         None \<Rightarrow> (Ok (), c, w)
       | Some h \<Rightarrow>
           on_return (run_user disc X h (ArgClose (payload_from_str (json X) reason) ep)
               (c\<lparr>rc_on_close := None\<rparr>, w)) (\<lambda>_ (c, w).
             (Ok (), c\<lparr>rc_on_close := Some h\<rparr>, w)))"

fun raw_disconnect_at :: "nat \<Rightarrow> ext \<Rightarrow> raw_op" where
  "raw_disconnect_at 0 X cw = (Hang, cw)"
| "raw_disconnect_at (Suc n) X cw =
     (let p = sio_packet_new Disconnect (rc_nsp (fst cw)) None None 0 None in
      on_return (on_sio (sio_socket_send X p) cw) (\<lambda>_ cw.
      ques (on_sio (sio_socket_disconnect X) cw) (\<lambda>_ (c, w).
        raw_callback_close (raw_disconnect_at n X) X (close_reason_as_str IOClientDisconnect)
          (rc_epoch c) (c, w))))"

definition raw_disconnect :: "ext \<Rightarrow> raw_op" where
  "raw_disconnect X = raw_disconnect_at (loop_fuel X) X"

subsection \<open>Packets\<close>

text \<open>The first outstanding ack with the id, taken out of the list.\<close>

fun take_ack :: "i32 \<Rightarrow> ack list \<Rightarrow> (ack \<times> ack list) option" where
  "take_ack i [] = None"
| "take_ack i (a # as) = (if ak_id a = i then Some (a, as)
     else map_option (\<lambda>(b, bs). (b, a # bs)) (take_ack i as))"

definition raw_handle_ack :: "ext \<Rightarrow> sio_packet \<Rightarrow> raw_op" where
  "raw_handle_ack X p = (\<lambda>(c, w).
     case pkt_id p of None \<Rightarrow> (Ok (), c, w) | Some i \<Rightarrow>
     case take_ack i (rc_acks c) of None \<Rightarrow> (Ok (), c, w) | Some (a, as) \<Rightarrow>
       let cw = (c\<lparr>rc_acks := as\<rparr>, w) in
       if now w - ak_started a < ak_timeout a
       then ques (case pkt_data p of
             Some s \<Rightarrow> run_user (raw_disconnect X) X (ak_callback a)
               (ArgPayload (set_ack_id (pkt_id p) (payload_from_string (json X) s))) cw
           | None \<Rightarrow> (Ok (), cw)) (\<lambda>_ cw.
           case attachments p of
             Some (b # bs) \<Rightarrow> run_user (raw_disconnect X) X (ak_callback a) (ArgPayload (PBinary b (pkt_id p))) cw
           | _ \<Rightarrow> (Ok (), cw))
       else (Ok (), cw))"

definition raw_handle_binary_event :: "ext \<Rightarrow> sio_packet \<Rightarrow> raw_op" where
  "raw_handle_binary_event X p cw =
     (let e = (case pkt_data p of Some s \<Rightarrow> event_from (filter (\<lambda>c. c \<noteq> CHR ''\"'') s) | None \<Rightarrow> EvMessage)
      in case attachments p of
        Some (b # bs) \<Rightarrow> raw_callback (raw_disconnect X) X e (PBinary b (pkt_id p)) (pkt_id p) cw
      | _ \<Rightarrow> (Ok (), cw))"

text \<open>Which event an array of values is for, and with what.\<close>

fun split_event :: "json list \<Rightarrow> (sio_error, event \<times> json list) outcome" where
  "split_event [] = Err SioIncompletePacket"
| "split_event [v] = Ok (EvMessage, [v])"
| "split_event (JString e # vs) = Ok (event_from e, vs)"
| "split_event vs = Ok (EvMessage, vs)"

definition raw_handle_event :: "ext \<Rightarrow> sio_packet \<Rightarrow> raw_op" where
  "raw_handle_event X p cw = (case pkt_data p of None \<Rightarrow> (Ok (), cw) | Some s \<Rightarrow>
     (case json_from_str (json X) s of
        Inr (JArray vs) \<Rightarrow> ques (split_event vs, cw) (\<lambda>(e, ps) cw.
          raw_callback (raw_disconnect X) X e (payload_from_values ps) (pkt_id p) cw)
      | _ \<Rightarrow> (Ok (), cw)))"

text \<open>An error a handler returns is told to the \<open>error\<close> callback; an ack also returns it.\<close>

definition report_error :: "ext \<Rightarrow> sio_error \<Rightarrow> raw_op" where
  "report_error X e = raw_callback (raw_disconnect X) X EvError
     (payload_from_string (json X) (sio_error_display e)) None"

definition raw_handle_socketio_packet :: "ext \<Rightarrow> sio_packet \<Rightarrow> raw_op" where
  "raw_handle_socketio_packet X p = (\<lambda>(c, w).
     if pkt_nsp p \<noteq> rc_nsp c then (Ok (), c, w)
     else case packet_type p of
       Connect \<Rightarrow> raw_callback (raw_disconnect X) X EvConnect (payload_from_str (json X) '''') None (c, w)
     | Disconnect \<Rightarrow> raw_callback_close (raw_disconnect X) X (close_reason_as_str IOServerDisconnect)
         (rc_epoch c) (c, w)
     | ConnectError \<Rightarrow> raw_callback (raw_disconnect X) X EvError
         (payload_from_string (json X) (''Received an ConnectError frame: '' @
           (case pkt_data p of Some s \<Rightarrow> s | None \<Rightarrow> quoted ''No error message provided''))) None (c, w)
     | BinaryEvent \<Rightarrow> on_return (raw_handle_binary_event X p (c, w)) (\<lambda>r cw.
         case r of Inl e \<Rightarrow> report_error X e cw | Inr _ \<Rightarrow> (Ok (), cw))
     | Event \<Rightarrow> on_return (raw_handle_event X p (c, w)) (\<lambda>r cw.
         case r of Inl e \<Rightarrow> report_error X e cw | Inr _ \<Rightarrow> (Ok (), cw))
     | _ \<Rightarrow> on_return (raw_handle_ack X p (c, w)) (\<lambda>r cw.
         case r of Inl e \<Rightarrow> ques (report_error X e cw) (\<lambda>_ cw. (Err e, cw)) | Inr _ \<Rightarrow> (Ok (), cw)))"

fun raw_poll_loop :: "nat \<Rightarrow> ext \<Rightarrow> raw_state \<Rightarrow> (sio_error, sio_packet option) outcome \<times> raw_state" where
  "raw_poll_loop 0 X cw = (Hang, cw)"
| "raw_poll_loop (Suc n) X cw =
     on_return (on_sio (sio_socket_poll X) cw) (\<lambda>r cw.
       case r of
         Inl e \<Rightarrow> ques (report_error X e cw) (\<lambda>_ cw. (Err e, cw))
       | Inr (Some p) \<Rightarrow>
           if pkt_nsp p = rc_nsp (fst cw)
           then ques (raw_handle_socketio_packet X p cw) (\<lambda>_ cw. (Ok (Some p), cw))
           else raw_poll_loop n X cw
       | Inr None \<Rightarrow> (Ok None, cw))"

definition raw_poll :: "ext \<Rightarrow> raw_state \<Rightarrow> (sio_error, sio_packet option) outcome \<times> raw_state" where
  "raw_poll X cw = raw_poll_loop (loop_fuel X) X cw"

subsection \<open>What every operation keeps\<close>

text \<open>
  The tables, the close callback, the namespace, the session and the locks are what they were,
  whatever the callbacks' code did in between: only the socket and the outstanding acks change. And
  no callback opens a socket: it is the same after the handlers, or closed.
\<close>

definition tables_kept :: "raw_client \<Rightarrow> raw_client \<Rightarrow> bool" where
  "tables_kept c c' \<longleftrightarrow> c' = c\<lparr>rc_socket := rc_socket c', rc_acks := rc_acks c'\<rparr>"

definition raw_frame :: "raw_client \<Rightarrow> raw_client \<Rightarrow> bool" where
  "raw_frame c c' \<longleftrightarrow> tables_kept c c' \<and>
     (rc_socket c' = rc_socket c \<or> \<not> es_connected (ss_engine (rc_socket c')))"

lemma tables_kept_iff: "tables_kept c c' \<longleftrightarrow> rc_on c' = rc_on c \<and> rc_on_any c' = rc_on_any c \<and>
    rc_on_close c' = rc_on_close c \<and> rc_nsp c' = rc_nsp c \<and> rc_auth c' = rc_auth c \<and>
    rc_epoch c' = rc_epoch c \<and> rc_locked c' = rc_locked c"
  by (cases c; cases c') (auto simp: tables_kept_def)

lemmas raw_frame_iff = raw_frame_def tables_kept_iff

text \<open>Whether or not it comes back, an operation goes on in time, opens no engine and starts no session.\<close>

definition steady :: "raw_client \<Rightarrow> world \<Rightarrow> raw_client \<Rightarrow> world \<Rightarrow> bool" where
  "steady c w c' w' \<longleftrightarrow> grows w w' \<and> rc_epoch c' = rc_epoch c \<and>
     (\<not> es_connected (ss_engine (rc_socket c)) \<longrightarrow> \<not> es_connected (ss_engine (rc_socket c')))"

definition framed :: "raw_op \<Rightarrow> bool" where
  "framed f \<longleftrightarrow> (\<forall>c w. steady c w (fst (snd (f (c, w)))) (snd (snd (f (c, w)))) \<and>
     (returned (fst (f (c, w))) \<longrightarrow> raw_frame c (fst (snd (f (c, w))))))"

lemma framedD:
  assumes "framed f" and "f (c, w) = (r, c', w')"
  shows "steady c w c' w'" and "returned r \<Longrightarrow> raw_frame c c'"
proof -
  have "steady c w (fst (snd (f (c, w)))) (snd (snd (f (c, w)))) \<and>
      (returned (fst (f (c, w))) \<longrightarrow> raw_frame c (fst (snd (f (c, w)))))"
    using assms(1) unfolding framed_def by blast
  with assms(2) show "steady c w c' w'" and "returned r \<Longrightarrow> raw_frame c c'" by simp_all
qed

lemma steady_trans: "steady c w c1 w1 \<Longrightarrow> steady c1 w1 c2 w2 \<Longrightarrow> steady c w c2 w2"
  by (auto simp: steady_def intro: grows_trans)

lemma steady_same [simp]:
  "steady c w c w' = grows w w'"
  "steady (c\<lparr>rc_locked := b\<rparr>) w c' w' = steady c w c' w'" "steady c w (c'\<lparr>rc_locked := b\<rparr>) w' = steady c w c' w'"
  "steady (c\<lparr>rc_acks := k\<rparr>) w c' w' = steady c w c' w'" "steady c w (c'\<lparr>rc_acks := k\<rparr>) w' = steady c w c' w'"
  "steady (c\<lparr>rc_on_close := h\<rparr>) w c' w' = steady c w c' w'" "steady c w (c'\<lparr>rc_on_close := h\<rparr>) w' = steady c w c' w'"
  by (simp_all add: steady_def)

lemma framedI:
  "(\<And>c w r c' w'. f (c, w) = (r, c', w') \<Longrightarrow> steady c w c' w' \<and> (returned r \<longrightarrow> raw_frame c c')) \<Longrightarrow> framed f"
  unfolding framed_def by (metis prod.collapse)

lemma sio_send_attachments_grows:
  "fst (snd (sio_send_attachments X as (s, w))) = s \<and> grows w (snd (snd (sio_send_attachments X as (s, w))))"
proof (induction as arbitrary: w)
  case (Cons a as)
  obtain r e w1 where r: "eio_socket_emit X (eio_packet_new MessageBinary a) (ss_engine s, w) = (r, e, w1)"
    by (cases "eio_socket_emit X (eio_packet_new MessageBinary a) (ss_engine s, w)") auto
  with eio_socket_emit_frame(1,2) [where X = X and p = "eio_packet_new MessageBinary a" and s = "ss_engine s" and w = w]
  have "e = ss_engine s" "grows w w1" by simp_all
  with r Cons show ?case
    by (cases r) (auto simp: on_engine_def eio_client_emit_def intro: grows_trans)
qed simp

lemma sio_socket_send_frame:
  "fst (snd (sio_socket_send X p (s, w))) = s \<and> grows w (snd (snd (sio_socket_send X p (s, w))))"
proof (cases "sio_is_open s \<and> (\<exists>b. sio_packet_into_bytes (overflow_checks X) p = Ok b)")
  case True
  then obtain b where b: "sio_packet_into_bytes (overflow_checks X) p = Ok b" by blast
  obtain r e w1 where r: "eio_socket_emit X (eio_packet_new Message b) (ss_engine s, w) = (r, e, w1)"
    by (cases "eio_socket_emit X (eio_packet_new Message b) (ss_engine s, w)") auto
  with eio_socket_emit_frame(1,2) [where X = X and p = "eio_packet_new Message b" and s = "ss_engine s" and w = w]
  have "e = ss_engine s" "grows w w1" by simp_all
  with r b True sio_send_attachments_grows [where X = X and s = s and w = w1] show ?thesis
    by (cases r) (auto simp: sio_socket_send_def sio_is_open_def on_engine_def eio_client_emit_def
        split: option.split intro: grows_trans)
next
  case False
  show ?thesis
  proof (cases "sio_is_open s")
    case True
    with False show ?thesis
      by (cases "sio_packet_into_bytes (overflow_checks X) p") (auto simp: sio_socket_send_def sio_is_open_def)
  qed (simp add: sio_send_closed)
qed

lemma on_sio_send_frame:
  assumes "on_sio (sio_socket_send X p) (c, w) = (r, c', w')"
  shows "c' = c" and "grows w w'"
proof -
  obtain r1 s1 w1 where s: "sio_socket_send X p (rc_socket c, w) = (r1, s1, w1)"
    by (cases "sio_socket_send X p (rc_socket c, w)") auto
  with sio_socket_send_frame [where X = X and p = p and s = "rc_socket c" and w = w] assms
  show "c' = c" "grows w w'" by (auto simp: on_sio_def)
qed

lemma raw_frame_refl [simp]: "raw_frame c c"
  by (simp add: raw_frame_iff)

lemma raw_frame_trans: "raw_frame c c' \<Longrightarrow> raw_frame c' c'' \<Longrightarrow> raw_frame c c''"
  by (auto simp: raw_frame_iff)

lemma raw_emit_eq:
  "raw_emit X e d (c, w) = ques (new_from_payload (json X) d e (rc_nsp c) None, c, w)
     (\<lambda>p. on_sio (sio_socket_send X p))"
  by (cases "new_from_payload (json X) d e (rc_nsp c) None")
    (auto simp: raw_emit_def on_sio_def sio_socket_emit_def split: prod.split)

lemma raw_acks_eq:
  "raw_ack X d (c, w) = ques (ack_from_payload (json X) d (rc_nsp c) None, c, w)
     (\<lambda>p. on_sio (sio_socket_send X p))"
  "raw_ack_with_id X i d (c, w) = ques (ack_from_payload (json X) d (rc_nsp c) (Some i), c, w)
     (\<lambda>p. on_sio (sio_socket_send X p))"
  by (cases "ack_from_payload (json X) d (rc_nsp c) None", auto simp: raw_ack_def on_sio_def
        sio_socket_ack_def split: prod.split,
      cases "ack_from_payload (json X) d (rc_nsp c) (Some i)", auto simp: raw_ack_with_id_def on_sio_def
        sio_socket_ack_def split: prod.split)

lemma framed_ques_send: "framed (\<lambda>cw. ques (m (fst cw), cw) (\<lambda>p. on_sio (sio_socket_send X p)))"
proof (rule framedI)
  fix c w r c' w'
  assume a: "ques (m (fst (c, w)), c, w) (\<lambda>p. on_sio (sio_socket_send X p)) = (r, c', w')"
  show "steady c w c' w' \<and> (returned r \<longrightarrow> raw_frame c c')"
  proof (cases "m c")
    case (Ok p)
    with a on_sio_send_frame [of X p c w r c' w'] show ?thesis by simp
  qed (use a in auto)
qed

lemma framed_raw_sends [simp]:
  "framed (raw_emit X e d)" "framed (raw_ack X d)" "framed (raw_ack_with_id X i d)"
proof -
  have e: "raw_emit X e d = (\<lambda>cw. ques (new_from_payload (json X) d e (rc_nsp (fst cw)) None, cw)
      (\<lambda>p. on_sio (sio_socket_send X p)))"
    and a: "raw_ack X d = (\<lambda>cw. ques (ack_from_payload (json X) d (rc_nsp (fst cw)) None, cw)
      (\<lambda>p. on_sio (sio_socket_send X p)))"
    and i: "raw_ack_with_id X i d = (\<lambda>cw. ques (ack_from_payload (json X) d (rc_nsp (fst cw)) (Some i), cw)
      (\<lambda>p. on_sio (sio_socket_send X p)))"
    by (auto simp: raw_emit_eq raw_acks_eq fun_eq_iff)
  show "framed (raw_emit X e d)" "framed (raw_ack X d)" "framed (raw_ack_with_id X i d)"
    unfolding e a i by (rule framed_ques_send)+
qed

lemma framed_raw_emit_with_ack [simp]: "framed (raw_emit_with_ack X e d ms h)"
proof (rule framedI)
  fix c w r c' w'
  assume r: "raw_emit_with_ack X e d ms h (c, w) = (r, c', w')"
  let ?i = "random_id X (length (trace w))"
  let ?c = "c\<lparr>rc_acks := rc_acks c @ [\<lparr>ak_id = ?i, ak_timeout = ms, ak_started = now w, ak_callback = h\<rparr>]\<rparr>"
  show "steady c w c' w' \<and> (returned r \<longrightarrow> raw_frame c c')"
  proof (cases "new_from_payload (json X) d e (rc_nsp c) (Some ?i)")
    case (Ok p)
    obtain r1 c1 w1 where s: "on_sio (sio_socket_send X p) (?c, w) = (r1, c1, w1)"
      by (cases "on_sio (sio_socket_send X p) (?c, w)") auto
    with on_sio_send_frame [OF s] Ok r show ?thesis
      by (cases r1) (auto simp: raw_emit_with_ack_def Let_def raw_frame_iff steady_def)
  qed (use r in \<open>auto simp: raw_emit_with_ack_def Let_def\<close>)
qed

text \<open>Composition: the frame of a sequence is that of its parts.\<close>

lemma framed_id [simp]: "framed (\<lambda>cw. (r, cw))" "framed (Pair r)"
  by (auto simp: framed_def)

lemma framed_ques:
  assumes "framed f" and "framed g" shows "framed (\<lambda>cw. ques (f cw) (\<lambda>_. g))"
proof (rule framedI)
  fix c w r c' w'
  assume a: "ques (f (c, w)) (\<lambda>_. g) = (r, c', w')"
  obtain r1 c1 w1 where f: "f (c, w) = (r1, c1, w1)" by (cases "f (c, w)") auto
  with a framedD [OF assms(1) f] framedD [OF assms(2), where c = c1 and w = w1]
  show "steady c w c' w' \<and> (returned r \<longrightarrow> raw_frame c c')"
    by (cases r1) (auto intro: steady_trans raw_frame_trans)
qed

lemma framed_on_return:
  assumes "framed f" and "\<And>x. framed (g x)" shows "framed (\<lambda>cw. on_return (f cw) g)"
proof (rule framedI)
  fix c w r c' w'
  assume a: "on_return (f (c, w)) g = (r, c', w')"
  obtain r1 c1 w1 where f: "f (c, w) = (r1, c1, w1)" by (cases "f (c, w)") auto
  with a framedD [OF assms(1) f] framedD [OF assms(2), where c = c1 and w = w1]
  show "steady c w c' w' \<and> (returned r \<longrightarrow> raw_frame c c')"
    by (cases r1) (auto intro: steady_trans raw_frame_trans)
qed

lemma run_action_eta:
  "run_action disc X (UserEmit e d) = raw_emit X e d"
  "run_action disc X (UserEmitWithAck e d ms h) = raw_emit_with_ack X e d ms h"
  "run_action disc X (UserAck d) = raw_ack X d"
  "run_action disc X (UserAckWithId i d) = raw_ack_with_id X i d"
  "run_action disc X UserDisconnect = disc"
  by (simp_all add: fun_eq_iff)

lemma framed_run_action: "framed disc \<Longrightarrow> framed (run_action disc X u)"
  by (cases u) (simp_all add: run_action_eta)

lemma framed_run_actions: "framed disc \<Longrightarrow> framed (run_actions disc X us)"
proof (induction us)
  case Nil
  then show ?case by (simp add: framed_def)
next
  case (Cons u us)
  have "run_actions disc X (u # us) = (\<lambda>cw. on_return (run_action disc X u cw) (\<lambda>_. run_actions disc X us))"
    by auto
  with Cons framed_run_action show ?case by (simp add: framed_on_return del: run_actions.simps)
qed

lemma framed_run_user [simp]: "framed disc \<Longrightarrow> framed (run_user disc X h a)"
proof (rule framedI)
  fix c w r c' w'
  assume d: "framed disc" and "run_user disc X h a (c, w) = (r, c', w')"
  then have "run_actions disc X (user_code X (length (trace w)) h a) (c, did (DidCall h a) w) = (r, c', w')"
    by (simp add: run_user_def)
  from framedD [OF framed_run_actions [OF d] this]
  show "steady c w c' w' \<and> (returned r \<longrightarrow> raw_frame c c')"
    using steady_trans [of c w c "did (DidCall h a) w"] by (auto intro: grows_did)
qed

lemma framed_run_opt [simp]:
  "framed disc \<Longrightarrow> framed (\<lambda>cw. case h of Some h \<Rightarrow> run_user disc X h a cw | None \<Rightarrow> (Ok (), cw))"
  by (cases h) simp_all

text \<open>A callback that comes back has released the locks it took, and took them only if they were free.\<close>

lemma framed_raw_callback [simp]:
  assumes d: "framed disc" shows "framed (raw_callback disc X e p i)"
proof (rule framedI)
  fix c w r c' w'
  assume a: "raw_callback disc X e p i (c, w) = (r, c', w')"
  let ?c = "c\<lparr>rc_locked := True\<rparr>" and ?p = "set_ack_id i p"
  show "steady c w c' w' \<and> (returned r \<longrightarrow> raw_frame c c')"
  proof (cases "rc_locked c")
    case False
    let ?f = "\<lambda>cw. case rc_on c e of Some h \<Rightarrow> run_user disc X h (ArgPayload ?p) cw | None \<Rightarrow> (Ok (), cw)"
    obtain r1 c1 w1 where f: "?f (?c, w) = (r1, c1, w1)" by (cases "?f (?c, w)") auto
    let ?g = "\<lambda>cw. case (if wants_any e then rc_on_any c1 else None) of
        Some h \<Rightarrow> run_user disc X h (ArgEvent e ?p) cw | None \<Rightarrow> (Ok (), cw)"
    obtain r2 c2 w2 where g: "?g (c1, w1) = (r2, c2, w2)" by (cases "?g (c1, w1)") auto
    have ff: "framed ?f" and fg: "framed ?g" using d by (rule framed_run_opt)+
    from a False f have "on_return (r1, c1, w1) (\<lambda>_ (c, w). on_return (case rc_on_any c of
        Some h \<Rightarrow> if wants_any e then run_user disc X h (ArgEvent e ?p) (c, w) else (Ok (), c, w)
      | None \<Rightarrow> (Ok (), c, w)) (\<lambda>_ (c, w). (Ok (), c\<lparr>rc_locked := False\<rparr>, w))) = (r, c', w')"
      by (cases "rc_on c e") (auto simp: raw_callback_def Let_def)
    with g have "on_return (r1, c1, w1) (\<lambda>_ _. on_return (r2, c2, w2) (\<lambda>_ (c, w). (Ok (), c\<lparr>rc_locked := False\<rparr>, w))) = (r, c', w')"
      by (cases r1; cases "rc_on_any c1") (auto split: if_splits)
    with framedD [OF ff f] framedD [OF fg g] False show ?thesis
      by (cases r1; cases r2) (auto simp: raw_frame_iff intro: steady_trans)
  qed (use a in \<open>auto simp: raw_callback_def\<close>)
qed

lemma framed_raw_callback_close [simp]:
  assumes d: "framed disc" shows "framed (raw_callback_close disc X reason ep)"
proof (rule framedI)
  fix c w r c' w'
  assume a: "raw_callback_close disc X reason ep (c, w) = (r, c', w')"
  let ?p = "payload_from_str (json X) reason"
  obtain r1 c1 w1 where f: "raw_callback disc X EvClose ?p None (c, w) = (r1, c1, w1)"
    by (cases "raw_callback disc X EvClose ?p None (c, w)") auto
  note f' = framedD [OF framed_raw_callback [OF d] f]
  show "steady c w c' w' \<and> (returned r \<longrightarrow> raw_frame c c')"
  proof (cases "\<exists>h. r1 = Ok () \<and> rc_on_close c1 = Some h")
    case True
    then obtain h where h: "r1 = Ok ()" "rc_on_close c1 = Some h" by blast
    obtain r2 c2 w2 where g: "run_user disc X h (ArgClose ?p ep) (c1\<lparr>rc_on_close := None\<rparr>, w1) = (r2, c2, w2)"
      by (cases "run_user disc X h (ArgClose ?p ep) (c1\<lparr>rc_on_close := None\<rparr>, w1)") auto
    from a f g h have "on_return (r2, c2, w2) (\<lambda>_ (c, w). (Ok (), c\<lparr>rc_on_close := Some h\<rparr>, w)) = (r, c', w')"
      by (simp add: raw_callback_close_def)
    with framedD [OF framed_run_user [OF d] g] f' h show ?thesis
      by (cases r2) (auto simp: raw_frame_iff intro: steady_trans)
  next
    case False
    with a f f' show ?thesis
      by (cases r1; cases "rc_on_close c1") (auto simp: raw_callback_close_def)
  qed
qed

lemma framed_on_sio_disconnect [simp]: "framed (on_sio (sio_socket_disconnect X))"
proof (rule framedI)
  fix c w r c' w'
  assume "on_sio (sio_socket_disconnect X) (c, w) = (r, c', w')"
  with sio_disconnect_frame [of X "rc_socket c" w] show "steady c w c' w' \<and> (returned r \<longrightarrow> raw_frame c c')"
    by (auto simp: on_sio_def raw_frame_iff steady_def)
qed

lemma framed_raw_disconnect_at [simp]: "framed (raw_disconnect_at n X)"
proof (induction n)
  case 0
  then show ?case by (simp add: framed_def)
next
  case (Suc n)
  let ?close = "\<lambda>cw. raw_callback_close (raw_disconnect_at n X) X (close_reason_as_str IOClientDisconnect) (rc_epoch (fst cw)) cw"
  have close: "framed ?close"
  proof (rule framedI)
    fix c w r c' w' assume "?close (c, w) = (r, c', w')"
    then have "raw_callback_close (raw_disconnect_at n X) X (close_reason_as_str IOClientDisconnect) (rc_epoch c)
        (c, w) = (r, c', w')" by simp
    from framedD [OF framed_raw_callback_close [OF Suc] this]
    show "steady c w c' w' \<and> (returned r \<longrightarrow> raw_frame c c')" by blast
  qed
  show ?case
  proof (rule framedI)
    fix c w r c' w'
    assume a: "raw_disconnect_at (Suc n) X (c, w) = (r, c', w')"
    let ?p = "sio_packet_new Disconnect (rc_nsp c) None None 0 None"
    obtain r1 c1 w1 where s: "on_sio (sio_socket_send X ?p) (c, w) = (r1, c1, w1)"
      by (cases "on_sio (sio_socket_send X ?p) (c, w)") auto
    have *: "(\<lambda>_ (c, w). raw_callback_close (raw_disconnect_at n X) X (close_reason_as_str IOClientDisconnect)
        (rc_epoch c) (c, w)) = (\<lambda>(_::unit). ?close)" by (auto simp: fun_eq_iff)
    show "steady c w c' w' \<and> (returned r \<longrightarrow> raw_frame c c')"
    proof (cases "returned r1")
      case True
      with a s have "ques (on_sio (sio_socket_disconnect X) (c1, w1)) (\<lambda>_. ?close) = (r, c', w')"
        by (cases r1) (auto simp: Let_def *)
      from framedD [OF framed_ques [OF framed_on_sio_disconnect close], OF this]
        on_sio_send_frame [OF s] show ?thesis by (auto simp: steady_def intro: grows_trans)
    next
      case False
      with a s on_sio_send_frame [OF s] show ?thesis by (cases r1) (auto simp: Let_def)
    qed
  qed
qed

lemma framed_raw_disconnect [simp]: "framed (raw_disconnect X)"
proof -
  have "raw_disconnect X = raw_disconnect_at (loop_fuel X) X" by (simp add: raw_disconnect_def fun_eq_iff)
  then show ?thesis by simp
qed

subsection \<open>The handlers\<close>

lemma framed_report_error [simp]: "framed (report_error X e)"
  by (simp add: report_error_def)

lemma framed_raw_handle_binary_event [simp]: "framed (raw_handle_binary_event X p)"
proof -
  have "raw_handle_binary_event X p = (case attachments p of
      Some (b # bs) \<Rightarrow> raw_callback (raw_disconnect X) X (case pkt_data p of
        Some s \<Rightarrow> event_from (filter (\<lambda>c. c \<noteq> CHR ''\"'') s) | None \<Rightarrow> EvMessage) (PBinary b (pkt_id p)) (pkt_id p)
    | _ \<Rightarrow> (\<lambda>cw. (Ok (), cw)))"
    by (auto simp: raw_handle_binary_event_def fun_eq_iff Let_def split: option.split list.split)
  then show ?thesis by (simp split: option.split list.split)
qed

lemma framed_raw_handle_event [simp]: "framed (raw_handle_event X p)"
proof -
  have e: "(\<lambda>cw. ques (split_event vs, cw) (\<lambda>(e, ps) cw.
      raw_callback (raw_disconnect X) X e (payload_from_values ps) (pkt_id p) cw)) =
    (case split_event vs of Ok (e, ps) \<Rightarrow> raw_callback (raw_disconnect X) X e (payload_from_values ps) (pkt_id p)
     | Err e \<Rightarrow> (\<lambda>cw. (Err e, cw)) | Panic \<Rightarrow> (\<lambda>cw. (Panic, cw)) | Hang \<Rightarrow> (\<lambda>cw. (Hang, cw)))" for vs
    by (cases "split_event vs") auto
  have "framed (\<lambda>cw. ques (split_event vs, cw) (\<lambda>(e, ps) cw.
      raw_callback (raw_disconnect X) X e (payload_from_values ps) (pkt_id p) cw))" for vs
    unfolding e by (auto split: outcome.split)
  then show ?thesis
    unfolding raw_handle_event_def by (auto simp: framed_def split: option.split sum.split json.split)
qed

lemma framed_raw_handle_ack [simp]: "framed (raw_handle_ack X p)"
proof (rule framedI)
  fix c w r c' w'
  assume a: "raw_handle_ack X p (c, w) = (r, c', w')"
  show "steady c w c' w' \<and> (returned r \<longrightarrow> raw_frame c c')"
  proof (cases "\<exists>i k ks. pkt_id p = Some i \<and> take_ack i (rc_acks c) = Some (k, ks) \<and> now w - ak_started k < ak_timeout k")
    case True
    then obtain i k ks where k: "pkt_id p = Some i" "take_ack i (rc_acks c) = Some (k, ks)"
      "now w - ak_started k < ak_timeout k" by blast
    let ?run = "run_user (raw_disconnect X) X (ak_callback k)"
    let ?f = "\<lambda>cw. case pkt_data p of
        Some s \<Rightarrow> ?run (ArgPayload (set_ack_id (pkt_id p) (payload_from_string (json X) s))) cw
      | None \<Rightarrow> (Ok (), cw)"
    let ?g = "\<lambda>cw. case attachments p of
        Some (b # bs) \<Rightarrow> ?run (ArgPayload (PBinary b (pkt_id p))) cw | _ \<Rightarrow> (Ok (), cw)"
    have "framed ?f" by (cases "pkt_data p") simp_all
    moreover have "framed ?g"
      by (cases "attachments p"; cases "the (attachments p)") (simp_all add: run_user_def [symmetric])
    ultimately have "framed (\<lambda>cw. ques (?f cw) (\<lambda>_. ?g))" by (rule framed_ques)
    moreover have "ques (?f (c\<lparr>rc_acks := ks\<rparr>, w)) (\<lambda>_. ?g) = (r, c', w')"
      using a k by (simp add: raw_handle_ack_def Let_def)
    ultimately show ?thesis
      using framedD [of "\<lambda>cw. ques (?f cw) (\<lambda>_. ?g)" "c\<lparr>rc_acks := ks\<rparr>" w] by (auto simp: raw_frame_iff)
  next
    case False
    with a show ?thesis
      by (auto simp: raw_handle_ack_def Let_def raw_frame_iff split: option.splits prod.splits if_splits)
  qed
qed

lemma framed_reported:
  assumes "framed f"
  shows "framed (\<lambda>cw. on_return (f cw) (\<lambda>r cw. case r of Inl e \<Rightarrow> report_error X e cw | Inr _ \<Rightarrow> (Ok (), cw)))"
    and "framed (\<lambda>cw. on_return (f cw) (\<lambda>r cw. case r of
           Inl e \<Rightarrow> ques (report_error X e cw) (\<lambda>_ cw. (Err e, cw)) | Inr _ \<Rightarrow> (Ok (), cw)))"
proof -
  have "framed (\<lambda>cw. case x of Inl e \<Rightarrow> report_error X e cw | Inr _ \<Rightarrow> (Ok (), cw))" for x :: "sio_error + unit"
    by (cases x) simp_all
  with assms show "framed (\<lambda>cw. on_return (f cw) (\<lambda>r cw. case r of Inl e \<Rightarrow> report_error X e cw | Inr _ \<Rightarrow> (Ok (), cw)))"
    by (rule framed_on_return)
  have "framed (\<lambda>cw. case x of Inl e \<Rightarrow> ques (report_error X e cw) (\<lambda>_ cw. (Err e, cw)) | Inr _ \<Rightarrow> (Ok (), cw))"
    for x :: "sio_error + unit"
    by (cases x) (simp_all add: framed_ques)
  with assms show "framed (\<lambda>cw. on_return (f cw) (\<lambda>r cw. case r of
      Inl e \<Rightarrow> ques (report_error X e cw) (\<lambda>_ cw. (Err e, cw)) | Inr _ \<Rightarrow> (Ok (), cw)))"
    by (rule framed_on_return)
qed

lemma framed_raw_handle_socketio_packet: "framed (raw_handle_socketio_packet X p)"
proof (rule framedI)
  fix c w r c' w'
  assume a: "raw_handle_socketio_packet X p (c, w) = (r, c', w')"
  show "steady c w c' w' \<and> (returned r \<longrightarrow> raw_frame c c')"
  proof (cases "pkt_nsp p = rc_nsp c")
    case True
    note s = raw_handle_socketio_packet_def
    show ?thesis
    proof (cases "packet_type p")
      case BinaryEvent
      with a True framedD [OF framed_reported(1) [OF framed_raw_handle_binary_event]] show ?thesis by (simp add: s)
    next
      case Event
      with a True framedD [OF framed_reported(1) [OF framed_raw_handle_event]] show ?thesis by (simp add: s)
    next
      case Ack
      with a True framedD [OF framed_reported(2) [OF framed_raw_handle_ack]] show ?thesis by (simp add: s)
    next
      case BinaryAck
      with a True framedD [OF framed_reported(2) [OF framed_raw_handle_ack]] show ?thesis by (simp add: s)
    next
      case Disconnect
      with a True framedD [OF framed_raw_callback_close [OF framed_raw_disconnect]] show ?thesis by (simp add: s)
    qed (use a True framedD [OF framed_raw_callback [OF framed_raw_disconnect]] in \<open>simp_all add: s\<close>)
  qed (use a in \<open>simp add: raw_handle_socketio_packet_def\<close>)
qed

subsection \<open>Disconnecting\<close>

lemma raw_emit_closed:
  assumes "\<not> sio_is_open (rc_socket c)"
  shows "raw_emit X e d (c, w) = (Err SioIllegalActionBeforeOpen, c, w)"
  using assms by (cases d) (simp_all add: raw_emit_eq on_sio_def sio_send_closed Let_def)

lemma raw_disconnect_at_closes:
  assumes "raw_disconnect_at n X (c, w) = (r, c', w')" and "returned r"
  shows "\<not> sio_is_open (rc_socket c')"
proof (cases n)
  case (Suc m)
  let ?p = "sio_packet_new Disconnect (rc_nsp c) None None 0 None"
  obtain r1 c1 w1 where s: "on_sio (sio_socket_send X ?p) (c, w) = (r1, c1, w1)"
    by (cases "on_sio (sio_socket_send X ?p) (c, w)") auto
  with assms Suc have r1: "returned r1" by (cases r1) (auto simp: Let_def)
  obtain s2 w2 where d: "sio_socket_disconnect X (rc_socket c1, w1) = (Ok (), s2, w2)"
    "\<not> ss_connected s2" using sio_disconnect_frame [of X "rc_socket c1" w1] by blast
  have "raw_callback_close (raw_disconnect_at m X) X (close_reason_as_str IOClientDisconnect)
      (rc_epoch c1) (c1\<lparr>rc_socket := s2\<rparr>, w2) = (r, c', w')"
    using assms(1) s d Suc r1 by (cases r1) (auto simp: Let_def on_sio_def)
  from framedD(2) [OF framed_raw_callback_close [OF framed_raw_disconnect_at] this assms(2)] d
  show ?thesis by (auto simp: raw_frame_iff sio_is_open_def)
qed (use assms in auto)

interpretation raw_connection: connection "\<lambda>c. sio_is_open (rc_socket c)" "\<lambda>(e, d). raw_emit X e d"
  "raw_disconnect X" SioIllegalActionBeforeOpen for X
proof unfold_locales
  fix c :: raw_client and m w assume "\<not> sio_is_open (rc_socket c)"
  then show "\<exists>w'. (case m of (e, d) \<Rightarrow> raw_emit X e d) (c, w) = (Err SioIllegalActionBeforeOpen, c, w') \<and>
      sent w' = sent w \<and> grows w w'"
    by (cases m) (simp add: raw_emit_closed)
next
  fix c :: raw_client and w
  show "grows w (snd (snd (raw_disconnect X (c, w))))"
    using framed_raw_disconnect [of X] by (simp add: framed_def steady_def)
  obtain r c' w' where d: "raw_disconnect X (c, w) = (r, c', w')" by (cases "raw_disconnect X (c, w)") auto
  assume "returned (fst (raw_disconnect X (c, w)))"
  with d raw_disconnect_at_closes [of "loop_fuel X" X c w r c' w']
  show "\<not> sio_is_open (rc_socket (fst (snd (raw_disconnect X (c, w)))))"
    by (simp add: raw_disconnect_def)
qed

text \<open>
  C14. A disconnect that comes back, whatever the close callbacks did meanwhile, leaves the client
  closed with its tables, namespace and session as they were: every later \<open>emit\<close> is refused,
  changes nothing and sends nothing.
\<close>

theorem raw_disconnect_closes:
  assumes "raw_disconnect X (c, w) = (r, c', w')" and "returned r"
  shows "tables_kept c c' \<and> \<not> sio_is_open (rc_socket c') \<and>
    (\<exists>w2. send_each (\<lambda>(e, d). raw_emit X e d) ms (c', w') =
        (replicate (length ms) (Err SioIllegalActionBeforeOpen), c', w2) \<and>
      sent w2 = sent w' \<and> grows w w2)"
proof -
  have "\<not> sio_is_open (rc_socket c')" using raw_connection.close_closes [of X c w] assms by simp
  moreover have "tables_kept c c'" using framedD(2) [OF framed_raw_disconnect assms] by (simp add: raw_frame_def)
  moreover have "\<exists>w2. send_each (\<lambda>(e, d). raw_emit X e d) ms (c', w') =
        (replicate (length ms) (Err SioIllegalActionBeforeOpen), c', w2) \<and> sent w2 = sent w' \<and> grows w w2"
    using raw_connection.silent_after_close [of X c w ms] assms by simp
  ultimately show ?thesis by blast
qed

text \<open>A client of the default namespace whose callbacks are in the tables given.\<close>

definition demo_raw :: "sio_socket \<Rightarrow> (event \<rightharpoonup> callback) \<Rightarrow> callback option \<Rightarrow> raw_client" where
  "demo_raw s on cl = \<lparr>rc_socket = s, rc_on = on, rc_on_any = None, rc_on_close = cl, rc_acks = [],
     rc_nsp = ''/'', rc_auth = None, rc_epoch = 1, rc_locked = False\<rparr>"

definition demo_users :: "(callback \<rightharpoonup> user_action list) \<Rightarrow> ext" where
  "demo_users u = demo_ext\<lparr>user_code := \<lambda>n h a. case u h of Some us \<Rightarrow> us | None \<Rightarrow> []\<rparr>"

definition demo_closed :: sio_socket where
  "demo_closed = \<lparr>ss_engine = (demo_socket (Websocket demo_ws))\<lparr>es_connected := False\<rparr>, ss_connected = False\<rparr>"

lemma demo_users_simps [simp]:
  "user_code (demo_users u) n h a = (case u h of Some us \<Rightarrow> us | None \<Rightarrow> [])"
  "loop_fuel (demo_users u) = 10" "json (demo_users u) = plain_json_lib"
  by (simp_all add: demo_users_def demo_ext_def)

lemma sio_disconnect_closed:
  "\<not> es_connected (ss_engine s) \<Longrightarrow> sio_socket_disconnect X (s, w) = (Ok (), s\<lparr>ss_connected := False\<rparr>, w)"
  by (cases s) (auto simp: sio_socket_disconnect_def)

text \<open>Disconnecting a closed client: the close callbacks, in their order.\<close>

lemma raw_disconnect_at_closed:
  assumes "\<not> es_connected (ss_engine (rc_socket c))"
  shows "raw_disconnect_at (Suc n) X (c, w) =
    raw_callback_close (raw_disconnect_at n X) X (close_reason_as_str IOClientDisconnect) (rc_epoch c)
      (c\<lparr>rc_socket := (rc_socket c)\<lparr>ss_connected := False\<rparr>\<rparr>, w)"
  using assms by (simp add: Let_def on_sio_def sio_send_closed sio_is_open_def sio_disconnect_closed)

lemma raw_disconnect_closed:
  assumes "\<not> es_connected (ss_engine (rc_socket c))" and "0 < loop_fuel X"
  shows "raw_disconnect X (c, w) =
    raw_callback_close (raw_disconnect_at (loop_fuel X - 1) X) X (close_reason_as_str IOClientDisconnect)
      (rc_epoch c) (c\<lparr>rc_socket := (rc_socket c)\<lparr>ss_connected := False\<rparr>\<rparr>, w)"
  using raw_disconnect_at_closed [OF assms(1), of "loop_fuel X - 1" X w] assms(2)
  by (simp add: raw_disconnect_def)

theorem raw_disconnect_closes_witness:
  "\<exists>r c' w' w2. raw_disconnect (demo_users Map.empty) (demo_raw demo_closed Map.empty (Some 5), demo_world) =
      (r, c', w') \<and> returned r \<and> tables_kept (demo_raw demo_closed Map.empty (Some 5)) c' \<and>
    send_each (\<lambda>(e, d). raw_emit (demo_users Map.empty) e d) [(EvMessage, PText [] None)] (c', w') =
      ([Err SioIllegalActionBeforeOpen], c', w2)"
proof -
  let ?X = "demo_users Map.empty" and ?c = "demo_raw demo_closed Map.empty (Some 5)"
  obtain r c' w' where d: "raw_disconnect ?X (?c, demo_world) = (r, c', w')"
    by (cases "raw_disconnect ?X (?c, demo_world)") auto
  with raw_disconnect_closed [of ?c ?X demo_world] have "returned r"
    by (auto simp: demo_raw_def demo_closed_def raw_callback_close_def raw_callback_def run_user_def)
  with d raw_disconnect_closes [OF d, of "[(EvMessage, PText [] None)]"] show ?thesis by auto
qed

subsection \<open>Callbacks that disconnect\<close>

text \<open>The callbacks are called under their locks, so one that needs them again waits for itself.\<close>

lemma raw_disconnect_at_locked:
  assumes "rc_locked c" shows "\<not> returned (fst (raw_disconnect_at n X (c, w)))"
proof (cases n)
  case (Suc m)
  let ?p = "sio_packet_new Disconnect (rc_nsp c) None None 0 None"
  obtain r1 c1 w1 where s: "on_sio (sio_socket_send X ?p) (c, w) = (r1, c1, w1)"
    by (cases "on_sio (sio_socket_send X ?p) (c, w)") auto
  have c1: "c1 = c" by (rule on_sio_send_frame(1) [OF s])
  obtain s2 w2 where d: "sio_socket_disconnect X (rc_socket c, w1) = (Ok (), s2, w2)"
    using sio_disconnect_frame by blast
  show ?thesis
    using s d c1 Suc assms
    by (cases r1) (auto simp: Let_def on_sio_def raw_callback_close_def raw_callback_def)
qed simp

lemma raw_disconnect_locked: "rc_locked c \<Longrightarrow> \<not> returned (fst (raw_disconnect X (c, w)))"
  by (simp add: raw_disconnect_def raw_disconnect_at_locked)

lemma not_returned_on_return: "\<not> returned (fst rs) \<Longrightarrow> fst (on_return rs k) \<noteq> Ok a \<and> \<not> returned (fst (on_return rs k))"
  by (cases "(rs, k)" rule: on_return.cases) auto

lemma on_sio_send_returned:
  "sio_packet_into_bytes (overflow_checks X) p = Ok b \<Longrightarrow> attachments p = None \<Longrightarrow>
   returned (fst (on_sio (sio_socket_send X p) (c, w)))"
proof -
  assume p: "sio_packet_into_bytes (overflow_checks X) p = Ok b" "attachments p = None"
  obtain r e w1 where r: "eio_socket_emit X (eio_packet_new Message b) (ss_engine (rc_socket c), w) = (r, e, w1)"
    by (cases "eio_socket_emit X (eio_packet_new Message b) (ss_engine (rc_socket c), w)") auto
  with eio_socket_emit_frame(3) [where X = X and p = "eio_packet_new Message b" and s = "ss_engine (rc_socket c)" and w = w]
  have "returned r" by simp
  with p r show ?thesis
    by (cases r) (auto simp: on_sio_def sio_socket_send_def on_engine_def eio_client_emit_def split: prod.splits)
qed

lemma disconnect_packet_bytes:
  "\<exists>b. sio_packet_into_bytes oc (sio_packet_new Disconnect n None None 0 None) = Ok b"
  by (simp add: sio_packet_into_bytes_def sio_packet_body_def sio_packet_new_def is_binary_type_def)

lemma raw_disconnect_at_no_close_callbacks:
  assumes "rc_on c EvClose = None" and "rc_on_close c = None" and "\<not> rc_locked c"
  shows "is_ok (fst (raw_disconnect_at (Suc n) X (c, w)))"
proof -
  let ?p = "sio_packet_new Disconnect (rc_nsp c) None None 0 None"
  obtain b where b: "sio_packet_into_bytes (overflow_checks X) ?p = Ok b" using disconnect_packet_bytes by blast
  obtain r1 c1 w1 where s: "on_sio (sio_socket_send X ?p) (c, w) = (r1, c1, w1)"
    by (cases "on_sio (sio_socket_send X ?p) (c, w)") auto
  with on_sio_send_returned [OF b, of c w] have r1: "returned r1" by (simp add: sio_packet_new_def)
  have c1: "c1 = c" by (rule on_sio_send_frame(1) [OF s])
  obtain s2 w2 where d: "sio_socket_disconnect X (rc_socket c, w1) = (Ok (), s2, w2)"
    using sio_disconnect_frame by blast
  with s c1 r1 assms show ?thesis
    by (cases r1; cases "rc_on_any c") (auto simp: Let_def on_sio_def raw_callback_close_def raw_callback_def)
qed

lemma run_user_disconnect:
  "user_code X (length (trace w)) h a = UserDisconnect # us \<Longrightarrow>
   run_user disc X h a (c, w) = on_return (disc (c, did (DidCall h a) w)) (\<lambda>_ cw. run_actions disc X us cw)"
  by (simp add: run_user_def)

text \<open>
  C37. A callback registered with \<open>on\<close> that disconnects the client it is handed never returns, and
  the packet it was called for is never finished. Registered as \<open>on_close_with_session\<close> it may: that
  callback runs without the lock.
\<close>

theorem callback_disconnect_deadlocks:
  "(rc_on c e = Some h \<and> user_code X (length (trace w)) h (ArgPayload (set_ack_id i d)) = UserDisconnect # us \<longrightarrow>
     \<not> returned (fst (raw_callback (raw_disconnect X) X e d i (c, w)))) \<and>
   (\<not> rc_locked c \<and> rc_on c EvClose = None \<and> rc_on_close c = Some g \<and> 0 < loop_fuel X \<and>
     user_code X (length (trace w)) g (ArgClose (payload_from_str (json X) reason) ep) = [UserDisconnect] \<longrightarrow>
     is_ok (fst (raw_callback_close (raw_disconnect X) X reason ep (c, w))))"
proof (rule conjI; rule impI)
  assume h: "rc_on c e = Some h \<and> user_code X (length (trace w)) h (ArgPayload (set_ack_id i d)) = UserDisconnect # us"
  show "\<not> returned (fst (raw_callback (raw_disconnect X) X e d i (c, w)))"
  proof (cases "rc_locked c")
    case False
    have "\<not> returned (fst (raw_disconnect X (c\<lparr>rc_locked := True\<rparr>, did (DidCall h (ArgPayload (set_ack_id i d))) w)))"
      by (rule raw_disconnect_locked) simp
    with h False show ?thesis
      by (simp add: raw_callback_def Let_def run_user_disconnect not_returned_on_return)
  qed (simp add: raw_callback_def)
next
  assume g: "\<not> rc_locked c \<and> rc_on c EvClose = None \<and> rc_on_close c = Some g \<and> 0 < loop_fuel X \<and>
     user_code X (length (trace w)) g (ArgClose (payload_from_str (json X) reason) ep) = [UserDisconnect]"
  let ?c = "c\<lparr>rc_on_close := None\<rparr>"
  let ?w = "did (DidCall g (ArgClose (payload_from_str (json X) reason) ep)) w"
  have eq: "c\<lparr>rc_locked := False\<rparr> = c" "c\<lparr>rc_locked := False, rc_on_close := None\<rparr> = ?c"
    using g by (cases c; simp)+
  obtain n where n: "loop_fuel X = Suc n" using g by (cases "loop_fuel X") auto
  have "is_ok (fst (raw_disconnect X (?c, ?w)))"
    using raw_disconnect_at_no_close_callbacks [of ?c n X ?w] g n by (simp add: raw_disconnect_def)
  then obtain c2 w2 where "raw_disconnect X (?c, ?w) = (Ok (), c2, w2)"
    by (cases "raw_disconnect X (?c, ?w)"; cases "fst (raw_disconnect X (?c, ?w))") auto
  with g show "is_ok (fst (raw_callback_close (raw_disconnect X) X reason ep (c, w)))"
    by (cases "rc_on_any c") (simp_all add: raw_callback_close_def raw_callback_def run_user_disconnect eq)
qed

theorem callback_disconnect_deadlocks_witness:
  "\<not> returned (fst (raw_callback (raw_disconnect (demo_users [7 \<mapsto> [UserDisconnect]])) (demo_users [7 \<mapsto> [UserDisconnect]])
       EvMessage (PText [] None) None (demo_raw demo_closed [EvMessage \<mapsto> 7] None, demo_world))) \<and>
   is_ok (fst (raw_callback_close (raw_disconnect (demo_users [7 \<mapsto> [UserDisconnect]])) (demo_users [7 \<mapsto> [UserDisconnect]])
       ''io server disconnect'' 1 (demo_raw demo_closed [EvMessage \<mapsto> 8] (Some 7), demo_world)))"
proof (rule conjI)
  let ?X = "demo_users [7 \<mapsto> [UserDisconnect]]"
  show "\<not> returned (fst (raw_callback (raw_disconnect ?X) ?X EvMessage (PText [] None) None
      (demo_raw demo_closed [EvMessage \<mapsto> 7] None, demo_world)))"
    by (rule conjunct1 [OF callback_disconnect_deadlocks, rule_format, where h = 7 and us = "[]"]) (simp add: demo_raw_def)
  show "is_ok (fst (raw_callback_close (raw_disconnect ?X) ?X ''io server disconnect'' 1
      (demo_raw demo_closed [EvMessage \<mapsto> 8] (Some 7), demo_world)))"
    by (rule conjunct2 [OF callback_disconnect_deadlocks, rule_format, where g = 7]) (simp add: demo_raw_def)
qed

subsection \<open>Dispatch of events\<close>

text \<open>When no callback code does anything with the client.\<close>

definition quiet_users :: "ext \<Rightarrow> bool" where
  "quiet_users X \<longleftrightarrow> (\<forall>n h a. user_code X n h a = [])"

lemma run_user_quiet [simp]:
  "quiet_users X \<Longrightarrow> run_user disc X h a (c, w) = (Ok (), c, did (DidCall h a) w)"
  by (simp add: run_user_def quiet_users_def)

lemma raw_callback_quiet:
  assumes "quiet_users X" and "\<not> rc_locked c"
  shows "raw_callback disc X e d i (c, w) = (Ok (), c,
    call_opt (if wants_any e then rc_on_any c else None) (ArgEvent e (set_ack_id i d))
      (call_opt (rc_on c e) (ArgPayload (set_ack_id i d)) w))"
proof -
  have "c\<lparr>rc_locked := True, rc_locked := False\<rparr> = c" "c\<lparr>rc_locked := False\<rparr> = c"
    using assms(2) by (cases c; simp)+
  with assms show ?thesis
    by (cases "rc_on c e"; cases "rc_on_any c") (simp_all add: raw_callback_def call_opt_def Let_def)
qed

lemma raw_callback_close_quiet:
  assumes "quiet_users X" and "\<not> rc_locked c"
  shows "raw_callback_close disc X reason ep (c, w) = (Ok (), c,
    call_opt (rc_on_close c) (ArgClose (payload_from_str (json X) reason) ep)
      (call_opt (rc_on c EvClose) (ArgPayload (set_ack_id None (payload_from_str (json X) reason))) w))"
proof -
  have eq: "rc_on_close c = Some h \<Longrightarrow> c\<lparr>rc_on_close := None, rc_on_close := Some h\<rparr> = c"
    "rc_on_close c = Some h \<Longrightarrow> c\<lparr>rc_on_close := Some h\<rparr> = c" for h
    by (cases c; simp)+
  show ?thesis
    using assms eq by (cases "rc_on_close c")
      (simp_all add: raw_callback_close_def raw_callback_quiet call_opt_def)
qed

text \<open>The callbacks an event calls: its own, then the catch-all one for messages and custom events.\<close>

definition heard :: "raw_client \<Rightarrow> event \<Rightarrow> payload \<Rightarrow> world \<Rightarrow> world" where
  "heard c e d w = call_opt (if wants_any e then rc_on_any c else None) (ArgEvent e d)
     (call_opt (rc_on c e) (ArgPayload d) w)"

lemma heard_simps [simp, world_frames]:
  "sent (heard c e d w) = sent w" "received (heard c e d w) = received w" "now (heard c e d w) = now w"
  by (simp_all add: heard_def)

text \<open>An array of values names its event first; a single value is the argument of \<open>message\<close>.\<close>

definition heard_event :: "bytes \<Rightarrow> json list \<Rightarrow> event" where
  "heard_event en vs = (if vs = [] then EvMessage else event_from en)"

definition heard_values :: "bytes \<Rightarrow> json list \<Rightarrow> json list" where
  "heard_values en vs = (if vs = [] then [JString en] else vs)"

lemma raw_event_quiet:
  assumes "quiet_users X" and "\<not> rc_locked c" and "packet_type p = Event" and "pkt_nsp p = rc_nsp c"
    and "pkt_data p = Some s" and "json_from_str (json X) s = Inr (JArray (JString en # vs))"
  shows "raw_handle_socketio_packet X p (c, w) =
    (Ok (), c, heard c (heard_event en vs) (PText (heard_values en vs) (pkt_id p)) w)"
proof -
  have "split_event (JString en # vs) = Ok (heard_event en vs, heard_values en vs)"
    by (cases vs) (simp_all add: heard_event_def heard_values_def)
  with assms show ?thesis
    by (simp add: raw_handle_socketio_packet_def raw_handle_event_def raw_callback_quiet
        payload_from_values_def heard_def)
qed

lemma raw_binary_event_quiet:
  assumes "quiet_users X" and "\<not> rc_locked c" and "packet_type p = BinaryEvent" and "pkt_nsp p = rc_nsp c"
    and "pkt_data p = Some s" and "attachments p = Some (b # bs)"
  shows "raw_handle_socketio_packet X p (c, w) =
    (Ok (), c, heard c (event_from (filter (\<lambda>x. x \<noteq> CHR ''\"'') s)) (PBinary b (pkt_id p)) w)"
  using assms
  by (simp add: raw_handle_socketio_packet_def raw_handle_binary_event_def raw_callback_quiet heard_def Let_def)


subsection \<open>Acknowledgements\<close>

lemma take_ack_distinct:
  assumes "distinct (map ak_id as)" and "a \<in> set as"
  shows "take_ack (ak_id a) as = Some (a, filter (\<lambda>b. ak_id b \<noteq> ak_id a) as)"
  using assms
proof (induction as)
  case (Cons b as)
  have "filter (\<lambda>b. ak_id b \<noteq> ak_id a) as = as" if "ak_id a \<notin> ak_id ` set as"
    using that by (intro filter_True) (auto simp: image_iff)
  with Cons show ?case
    by (cases "b = a") (auto simp: image_iff)
qed simp

lemma take_ack_None: "take_ack i as = None \<longleftrightarrow> i \<notin> ak_id ` set as"
  by (induction as) auto

lemma take_ack_oldest:
  "ak_id k \<notin> ak_id ` set as \<Longrightarrow> take_ack (ak_id k) (as @ k # bs) = Some (k, as @ bs)"
  by (induction as) auto

text \<open>
  What an acknowledgement that is in time makes of its callback \<open>h\<close>: a call with its data, if it has
  any, and a call with its first attachment, if it has any.
\<close>

definition answer_calls :: "ext \<Rightarrow> sio_packet \<Rightarrow> callback \<Rightarrow> effect list" where
  "answer_calls X p h =
     (case pkt_data p of None \<Rightarrow> [] | Some s \<Rightarrow> [DidCall h (ArgPayload (PText [string_to_value (json X) s] (pkt_id p)))]) @
     (case attachments p of Some (b # bs) \<Rightarrow> [DidCall h (ArgPayload (PBinary b (pkt_id p)))] | _ \<Rightarrow> [])"

text \<open>
  C27. An acknowledgement in the namespace of the client, text or binary, is the answer to the oldest outstanding \<open>emit_with_ack\<close> with its
  id (the ids are random numbers below 999, so two may be the same). In time, it calls that callback
  once for its data and once more for its first attachment, so a binary one with both calls it
  twice; late, it calls nothing. Either way that entry is gone and the others wait on: the same answer
  again calls nothing, unless a younger entry has the same id. For callbacks that do not use the client.
\<close>

theorem raw_ack_called_once:
  assumes "quiet_users X" and "packet_type p \<in> {Ack, BinaryAck}" and "pkt_nsp p = rc_nsp c"
    and "rc_acks c = as @ k # bs" and "ak_id k \<notin> ak_id ` set as" and "pkt_id p = Some (ak_id k)"
    and "c' = c\<lparr>rc_acks := as @ bs\<rparr>"
  shows "raw_handle_socketio_packet X p (c, w) = (Ok (), c',
      if now w - ak_started k < ak_timeout k then w\<lparr>trace := trace w @ answer_calls X p (ak_callback k)\<rparr> else w) \<and>
    (ak_id k \<notin> ak_id ` set bs \<longrightarrow> raw_handle_socketio_packet X p (c', w') = (Ok (), c', w'))"
proof -
  have taken: "take_ack (ak_id k) (rc_acks c) = Some (k, as @ bs)" using assms(4,5) by (simp add: take_ack_oldest)
  have "rc_nsp c' = rc_nsp c" by (simp add: assms(7))
  moreover have "ak_id k \<notin> ak_id ` set bs \<Longrightarrow> take_ack (ak_id k) (rc_acks c') = None"
    using assms(5,7) by (simp add: take_ack_None image_Un)
  moreover have "raw_handle_ack X p (c, w) = (Ok (), c',
      if now w - ak_started k < ak_timeout k then w\<lparr>trace := trace w @ answer_calls X p (ak_callback k)\<rparr> else w)"
    using assms(1,6,7) taken
    by (cases "pkt_data p"; cases "attachments p"; cases "the (attachments p)")
      (simp_all add: raw_handle_ack_def payload_from_string_def answer_calls_def did_def Let_def)
  ultimately show ?thesis
    using assms(2,3,6) by (auto simp: raw_handle_socketio_packet_def raw_handle_ack_def)
qed

text \<open>A quiet client with one ack outstanding for two seconds.\<close>

lemma quiet_demo [simp]: "quiet_users demo_ext"
  by (simp add: quiet_users_def demo_ext_def)

definition demo_ack :: ack where
  "demo_ack = \<lparr>ak_id = 7, ak_timeout = 2000, ak_started = 0, ak_callback = 3\<rparr>"

text \<open>A binary answer with data and an attachment, and the same answer again.\<close>

definition demo_answer :: sio_packet where
  "demo_answer = sio_packet_new BinaryAck ''/'' (Some ''[1]'') (Some 7) 1 (Some [''xy''])"

theorem raw_ack_called_once_witness:
  "raw_handle_socketio_packet demo_ext demo_answer
     ((demo_raw (demo_sio []) Map.empty None)\<lparr>rc_acks := [demo_ack]\<rparr>, demo_world) =
   (Ok (), demo_raw (demo_sio []) Map.empty None,
     demo_world\<lparr>trace := [DidCall 3 (ArgPayload (PText [JString ''[1]''] (Some 7))),
       DidCall 3 (ArgPayload (PBinary ''xy'' (Some 7)))]\<rparr>) \<and>
   raw_handle_socketio_packet demo_ext demo_answer (demo_raw (demo_sio []) Map.empty None, demo_world) =
   (Ok (), demo_raw (demo_sio []) Map.empty None, demo_world)"
proof -
  have "string_to_value (json demo_ext) ''[1]'' = JString ''[1]''"
    by (simp add: string_to_value_def demo_ext_def plain_json_lib_def)
  then show ?thesis
    using raw_ack_called_once [of demo_ext demo_answer "(demo_raw (demo_sio []) Map.empty None)\<lparr>rc_acks := [demo_ack]\<rparr>"
        "[]" demo_ack "[]" "demo_raw (demo_sio []) Map.empty None" demo_world demo_world]
    by (simp add: demo_ack_def demo_raw_def demo_answer_def sio_packet_new_def answer_calls_def)
qed

text \<open>A library that parses the one text it is asked for.\<close>

definition demo_parses :: "json \<Rightarrow> ext" where
  "demo_parses v = demo_ext\<lparr>json := plain_json_lib\<lparr>json_from_str := \<lambda>s.
     if s = plain_json v then Inr v else Inl ''expected value''\<rparr>\<rparr>"


end
