(* ===== verification/Sio_Builder.thy ===== *)
theory Sio_Builder
  imports Sio_Raw_Client
begin

text \<open>
  \<open>socketio/src/client/builder.rs\<close>: the builder of the blocking client. Its callback tables and the
  session counter are behind \<open>Arc\<close>s: the builder, its clones and every client it makes have the
  same ones. The model keeps them in the client that is in use (see \<open>Sio_Client\<close>).
\<close>

datatype transport_type = AnyTransport | WebsocketTransport | WebsocketUpgradeTransport | PollingTransport

record sio_builder =
  sb_address :: bytes
  sb_on :: "event \<rightharpoonup> callback"
  sb_on_any :: "callback option"
  sb_on_close :: "callback option"
  sb_epoch :: u64
  sb_namespace :: bytes
  sb_tls :: "tls option"
  sb_headers :: "header_map option"
  sb_transport :: transport_type
  sb_auth :: "json option"
  sb_reconnect :: bool
  sb_reconnect_on_disconnect :: bool
  sb_max_attempts :: "u8 option"
  sb_delay_min :: u64
  sb_delay_max :: u64

definition sio_builder_new :: "bytes \<Rightarrow> sio_builder" where
  "sio_builder_new a = \<lparr>sb_address = a, sb_on = Map.empty, sb_on_any = None, sb_on_close = None,
     sb_epoch = 0, sb_namespace = ''/'', sb_tls = None, sb_headers = None, sb_transport = AnyTransport,
     sb_auth = None, sb_reconnect = True, sb_reconnect_on_disconnect = False, sb_max_attempts = None,
     sb_delay_min = 1000, sb_delay_max = 5000\<rparr>"

definition slash_namespace :: "bytes \<Rightarrow> bytes" where
  "slash_namespace n = (if starts_with_char CHR ''/'' n then n else ''/'' @ n)"

definition sio_builder_namespace :: "bytes \<Rightarrow> sio_builder \<Rightarrow> sio_builder" where
  "sio_builder_namespace n b = b\<lparr>sb_namespace := slash_namespace n\<rparr>"

definition sio_builder_reconnect :: "bool \<Rightarrow> sio_builder \<Rightarrow> sio_builder" where
  "sio_builder_reconnect r b = b\<lparr>sb_reconnect := r\<rparr>"

definition sio_builder_reconnect_on_disconnect :: "bool \<Rightarrow> sio_builder \<Rightarrow> sio_builder" where
  "sio_builder_reconnect_on_disconnect r b = b\<lparr>sb_reconnect_on_disconnect := r\<rparr>"

definition sio_builder_reconnect_delay :: "u64 \<Rightarrow> u64 \<Rightarrow> sio_builder \<Rightarrow> sio_builder" where
  "sio_builder_reconnect_delay mn mx b = b\<lparr>sb_delay_min := mn, sb_delay_max := mx\<rparr>"

definition sio_builder_max_reconnect_attempts :: "u8 \<Rightarrow> sio_builder \<Rightarrow> sio_builder" where
  "sio_builder_max_reconnect_attempts n b = b\<lparr>sb_max_attempts := Some n\<rparr>"

definition sio_builder_on :: "event \<Rightarrow> callback \<Rightarrow> sio_builder \<Rightarrow> sio_builder" where
  "sio_builder_on e h b = b\<lparr>sb_on := (sb_on b)(e \<mapsto> h)\<rparr>"

definition sio_builder_on_any :: "callback \<Rightarrow> sio_builder \<Rightarrow> sio_builder" where
  "sio_builder_on_any h b = b\<lparr>sb_on_any := Some h\<rparr>"

definition sio_builder_on_close_with_session :: "callback \<Rightarrow> sio_builder \<Rightarrow> sio_builder" where
  "sio_builder_on_close_with_session h b = b\<lparr>sb_on_close := Some h\<rparr>"

definition sio_builder_tls_config :: "tls \<Rightarrow> sio_builder \<Rightarrow> sio_builder" where
  "sio_builder_tls_config t b = b\<lparr>sb_tls := Some t\<rparr>"

definition add_opening_header :: "bytes \<Rightarrow> bytes \<Rightarrow> header_map option \<Rightarrow> header_map option" where
  "add_opening_header k v h = (case h of
     Some m \<Rightarrow> Some (snd (header_map_insert k v m))
   | None \<Rightarrow> Some (snd (header_map_insert k v [])))"

definition sio_builder_opening_header :: "bytes \<Rightarrow> bytes \<Rightarrow> sio_builder \<Rightarrow> sio_builder" where
  "sio_builder_opening_header k v b = b\<lparr>sb_headers := add_opening_header k v (sb_headers b)\<rparr>"

definition sio_builder_auth :: "json \<Rightarrow> sio_builder \<Rightarrow> sio_builder" where
  "sio_builder_auth v b = b\<lparr>sb_auth := Some v\<rparr>"

definition sio_builder_transport_type :: "transport_type \<Rightarrow> sio_builder \<Rightarrow> sio_builder" where
  "sio_builder_transport_type t b = b\<lparr>sb_transport := t\<rparr>"

text \<open>The engine client of \<open>connect_raw\<close>, its URL, TLS and headers set.\<close>

definition socketio_url :: "ext \<Rightarrow> url \<Rightarrow> url" where
  "socketio_url X u = (if url_path X u = ''/'' then url_set_path X ''/socket.io/'' u else u)"

definition engine_builder_of :: "ext \<Rightarrow> sio_builder \<Rightarrow> url \<Rightarrow> eio_builder" where
  "engine_builder_of X b u =
     (let e = eio_builder_new X (socketio_url X u);
          e = (case sb_tls b of Some t \<Rightarrow> eio_builder_tls_config t e | None \<Rightarrow> e)
      in case sb_headers b of Some h \<Rightarrow> eio_builder_headers h e | None \<Rightarrow> e)"

definition build_engine :: "ext \<Rightarrow> transport_type \<Rightarrow> eio_builder \<Rightarrow> world \<Rightarrow> (eio_error, eio_socket) outcome \<times> world" where
  "build_engine X t e w = (case t of
     AnyTransport \<Rightarrow> eio_build_with_fallback X e w
   | PollingTransport \<Rightarrow> eio_build_polling X e w
   | WebsocketTransport \<Rightarrow> eio_build_websocket X e w
   | WebsocketUpgradeTransport \<Rightarrow> eio_build_websocket_with_upgrade X e w)"

definition sio_connect_raw :: "ext \<Rightarrow> sio_builder \<Rightarrow> world \<Rightarrow> (sio_error, raw_client) outcome \<times> world" where
  "sio_connect_raw X b w =
     ques (from_ext SioInvalidUrl (url_parse X (sb_address b)), w) (\<lambda>u w.
     ques (err_into SioIncompleteResponseFromEngineIo
         (build_engine X (sb_transport b) (engine_builder_of X b u) w)) (\<lambda>e w.
     ques (and_then (sio_socket_new e) (\<lambda>s.
         raw_client_new s (sb_namespace b) (sb_on b) (sb_on_any b) (sb_on_close b) (sb_epoch b) (sb_auth b)), w) (\<lambda>c w.
       case raw_connect X (c, w) of (r, c, w) \<Rightarrow> ques (r, w) (\<lambda>_ w. (Ok c, w)))))"

subsection \<open>A client that was connected\<close>

lemma slash_namespace_ok: "starts_with_char CHR ''/'' (slash_namespace n)"
  by (simp add: slash_namespace_def)

lemma ques_OkE:
  assumes "ques rs k = (Ok b, s')" obtains a s where "rs = (Ok a, s)" "k a s = (Ok b, s')"
  using assms by (cases "(rs, k)" rule: ques.cases) auto

lemma on_sio_tables: "on_sio f (c, w) = (r, c', w') \<Longrightarrow> c' = c\<lparr>rc_socket := rc_socket c'\<rparr>"
  by (auto simp: on_sio_def split: prod.splits)

lemma raw_connect_session:
  assumes "raw_connect X (c, w) = (r, c', w')"
  shows "rc_epoch c' = rc_epoch c + (if is_ok r then 1 else 0)"
    and "c' = c\<lparr>rc_socket := rc_socket c', rc_epoch := rc_epoch c'\<rparr>"
proof -
  obtain r1 c1 w1 where 1: "on_sio (sio_socket_connect X) (c, w) = (r1, c1, w1)"
    by (cases "on_sio (sio_socket_connect X) (c, w)") auto
  let ?p = "sio_packet_new Connect (rc_nsp c1) (map_option (json_to_string (json X)) (rc_auth c1)) None 0 None"
  obtain r2 c2 w2 where 2: "on_sio (sio_socket_send X ?p) (c1, w1) = (r2, c2, w2)"
    by (cases "on_sio (sio_socket_send X ?p) (c1, w1)") auto
  have c1: "c1 = c\<lparr>rc_socket := rc_socket c1\<rparr>" and c2: "c2 = c1\<lparr>rc_socket := rc_socket c2\<rparr>"
    using on_sio_tables [OF 1] on_sio_tables [OF 2] by simp_all
  then have "rc_epoch c1 = rc_epoch c" "rc_epoch c2 = rc_epoch c1"
    by (metis raw_client.select_convs(8) raw_client.surjective raw_client.update_convs(1))+
  with assms 1 2 show "rc_epoch c' = rc_epoch c + (if is_ok r then 1 else 0)"
    by (cases r1; cases r2) (auto simp: raw_connect_def Let_def)
  from assms 1 2 c1 c2 show "c' = c\<lparr>rc_socket := rc_socket c', rc_epoch := rc_epoch c'\<rparr>"
    by (cases r1; cases r2; cases c; cases c1; cases c2) (auto simp: raw_connect_def Let_def)
qed

text \<open>What \<open>connect_raw\<close> gives: the next session, with the builder's tables and no ack outstanding.\<close>

lemma sio_connect_raw_Ok:
  assumes "sio_connect_raw X b w = (Ok c, w')"
  shows "rc_epoch c = sb_epoch b + 1 \<and> rc_on c = sb_on b \<and> rc_on_any c = sb_on_any b \<and>
    rc_on_close c = sb_on_close b \<and> rc_nsp c = sb_namespace b \<and> rc_auth c = sb_auth b \<and>
    rc_acks c = [] \<and> \<not> rc_locked c"
proof -
  obtain u e w1 where
    1: "url_parse X (sb_address b) = Inr u"
       "err_into SioIncompleteResponseFromEngineIo (build_engine X (sb_transport b) (engine_builder_of X b u) w) =
          (Ok e, w1)"
    using assms unfolding sio_connect_raw_def by (auto simp: from_ext_Ok_iff elim!: ques_OkE)
  let ?c = "\<lparr>rc_socket = \<lparr>ss_engine = e, ss_connected = False\<rparr>, rc_on = sb_on b, rc_on_any = sb_on_any b,
      rc_on_close = sb_on_close b, rc_acks = [], rc_nsp = sb_namespace b, rc_auth = sb_auth b,
      rc_epoch = sb_epoch b, rc_locked = False\<rparr>"
  obtain r c1 w2 where r: "raw_connect X (?c, w1) = (r, c1, w2)" by (cases "raw_connect X (?c, w1)") auto
  with assms 1 have "r = Ok () \<and> c1 = c"
    by (cases r) (auto simp: sio_connect_raw_def sio_socket_new_def raw_client_new_def)
  with raw_connect_session [OF r] show ?thesis
    by (cases c) auto
qed

end
