(* ===== verification/Sio_Client.thy ===== *)
theory Sio_Client
  imports Sio_Builder
begin

text \<open>
  \<open>socketio/src/client/client.rs\<close>: the blocking client that reconnects, and the thread that polls
  it. \<open>cl_backoffs\<close> counts the delays taken from the polling thread's copy of the back-off, whose
  schedule for the two delays of the builder is \<open>next_backoff\<close>. The tables the builder shares with
  its clients are in \<open>cl_client\<close>: \<open>shared_builder\<close> is the builder as a clone of it sees them.
\<close>

record sio_client =
  cl_builder :: sio_builder
  cl_client :: raw_client
  cl_backoffs :: nat

type_synonym client_state = "sio_client \<times> world"

definition shared_builder :: "sio_client \<Rightarrow> sio_builder" where
  "shared_builder k = (cl_builder k)\<lparr>sb_on := rc_on (cl_client k), sb_on_any := rc_on_any (cl_client k),
     sb_on_close := rc_on_close (cl_client k), sb_epoch := rc_epoch (cl_client k)\<rparr>"

text \<open>The client; the thread it spawns runs \<open>poll_thread\<close> on it.\<close>

definition sio_client_new :: "ext \<Rightarrow> sio_builder \<Rightarrow> world \<Rightarrow> (sio_error, sio_client) outcome \<times> world" where
  "sio_client_new X b w =
     ques (sio_connect_raw X b w) (\<lambda>c w. (Ok \<lparr>cl_builder = b, cl_client = c, cl_backoffs = 0\<rparr>, w))"

definition sio_builder_connect :: "ext \<Rightarrow> sio_builder \<Rightarrow> world \<Rightarrow> (sio_error, sio_client) outcome \<times> world" where
  "sio_builder_connect X b w = sio_client_new X b w"

definition on_raw :: "(raw_state \<Rightarrow> ('e, 'a) outcome \<times> raw_state) \<Rightarrow> client_state \<Rightarrow> ('e, 'a) outcome \<times> client_state" where
  "on_raw f = (\<lambda>(k, w). case f (cl_client k, w) of (r, c, w) \<Rightarrow> (r, k\<lparr>cl_client := c\<rparr>, w))"

definition sio_client_session_epoch :: "sio_client \<Rightarrow> u64" where
  "sio_client_session_epoch k = rc_epoch (cl_client k)"

definition sio_client_set_reconnect_url :: "bytes \<Rightarrow> sio_client \<Rightarrow> sio_client" where
  "sio_client_set_reconnect_url a k = k\<lparr>cl_builder := (cl_builder k)\<lparr>sb_address := a\<rparr>\<rparr>"

definition sio_client_emit :: "ext \<Rightarrow> event \<Rightarrow> payload \<Rightarrow> client_state \<Rightarrow> (sio_error, unit) outcome \<times> client_state" where
  "sio_client_emit X e d = on_raw (raw_emit X e d)"

definition sio_client_emit_with_ack ::
  "ext \<Rightarrow> event \<Rightarrow> payload \<Rightarrow> nat \<Rightarrow> callback \<Rightarrow> client_state \<Rightarrow> (sio_error, unit) outcome \<times> client_state" where
  "sio_client_emit_with_ack X e d ms h = on_raw (raw_emit_with_ack X e d ms h)"

definition sio_client_disconnect :: "ext \<Rightarrow> client_state \<Rightarrow> (sio_error, unit) outcome \<times> client_state" where
  "sio_client_disconnect X = on_raw (raw_disconnect X)"

subsection \<open>Reconnecting\<close>

definition sio_do_reconnect :: "ext \<Rightarrow> client_state \<Rightarrow> (sio_error, unit) outcome \<times> client_state" where
  "sio_do_reconnect X = (\<lambda>(k, w).
     case sio_connect_raw X (shared_builder k) w of (r, w) \<Rightarrow>
       ques (r, k, w) (\<lambda>c (k, w). (Ok (), k\<lparr>cl_client := c\<rparr>, w)))"

text \<open>One delay of the back-off, if it has one.\<close>

definition back_off :: "ext \<Rightarrow> client_state \<Rightarrow> client_state" where
  "back_off X = (\<lambda>(k, w).
     (k\<lparr>cl_backoffs := cl_backoffs k + 1\<rparr>,
      case next_backoff X (cl_backoffs k) of Some ms \<Rightarrow> sleep_ms ms w | None \<Rightarrow> w))"

text \<open>
  The loop of \<open>reconnect\<close>; \<open>i\<close> is its counter, a \<open>u8\<close> like the limit. \<open>reconnect_attempts += 1\<close>
  overflows at 255: a panic with overflow checks, zero without.
\<close>

fun reconnect_loop :: "nat \<Rightarrow> ext \<Rightarrow> u8 option \<Rightarrow> u8 \<Rightarrow> client_state \<Rightarrow> (sio_error, unit) outcome \<times> client_state" where
  "reconnect_loop 0 X mx i kw = (Hang, kw)"
| "reconnect_loop (Suc n) X mx i kw =
     (if mx \<noteq> None \<and> overflow_checks X \<and> i = 255 then (Panic, kw)
      else let i = (if mx \<noteq> None then i + 1 else i) in
        if mx \<noteq> None \<and> the mx < i then (Ok (), kw)
        else on_return (sio_do_reconnect X (back_off X kw)) (\<lambda>r kw.
               case r of Inr _ \<Rightarrow> (Ok (), kw) | Inl e \<Rightarrow> reconnect_loop n X mx i kw))"

definition sio_reconnect :: "ext \<Rightarrow> client_state \<Rightarrow> (sio_error, unit) outcome \<times> client_state" where
  "sio_reconnect X = (\<lambda>(k, w).
     if sb_reconnect (cl_builder k)
     then reconnect_loop (loop_fuel X) X (sb_max_attempts (cl_builder k)) 0 (k, w) else (Ok (), k, w))"

subsection \<open>The polling thread\<close>

text \<open>\<open>Iter::next\<close>: its item, an error on the left. It never ends.\<close>

definition sio_iter_next :: "ext \<Rightarrow> client_state \<Rightarrow> (sio_error, sio_error + sio_packet) outcome \<times> client_state" where
  "sio_iter_next X kw = on_return (on_raw (raw_poll X) kw) (\<lambda>r kw.
     case r of Inl e \<Rightarrow> (Ok (Inl e), kw)
     | Inr (Some p) \<Rightarrow> (Ok (Inr p), kw)
     | Inr None \<Rightarrow> (Ok (Inl SioStoppedEngineIoSocket), kw))"

fun should_reconnect :: "sio_builder \<Rightarrow> sio_error + sio_packet \<Rightarrow> bool" where
  "should_reconnect b (Inl e) = is_engineio_error e"
| "should_reconnect b (Inr p) = (packet_type p = Disconnect \<and> sb_reconnect_on_disconnect b)"

definition poll_step :: "ext \<Rightarrow> client_state \<Rightarrow> (sio_error, unit) outcome \<times> client_state" where
  "poll_step X kw = ques (sio_iter_next X kw) (\<lambda>item kw.
     if should_reconnect (cl_builder (fst kw)) item
     then on_return (sio_client_disconnect X kw) (\<lambda>_ kw.
          on_return (sio_reconnect X kw) (\<lambda>_ kw. (Ok (), kw)))
     else (Ok (), kw))"

text \<open>The first \<open>n\<close> turns of the thread's loop.\<close>

fun poll_thread :: "nat \<Rightarrow> ext \<Rightarrow> client_state \<Rightarrow> (sio_error, unit) outcome \<times> client_state" where
  "poll_thread 0 X kw = (Ok (), kw)"
| "poll_thread (Suc n) X kw = ques (poll_step X kw) (\<lambda>_ kw. poll_thread n X kw)"

subsection \<open>The session across reconnects\<close>

lemma raw_poll_loop_frame:
  "raw_poll_loop n X (c, w) = (r, c', w') \<Longrightarrow> returned r \<Longrightarrow>
   tables_kept c c' \<and> (\<forall>p. r = Ok (Some p) \<longrightarrow> pkt_nsp p = rc_nsp c)"
proof (induction n arbitrary: c w)
  case (Suc n)
  obtain r1 c1 w1 where 1: "on_sio (sio_socket_poll X) (c, w) = (r1, c1, w1)"
    by (cases "on_sio (sio_socket_poll X) (c, w)") auto
  have t: "tables_kept c c1" and nsp: "rc_nsp c1 = rc_nsp c"
    using on_sio_tables [OF 1] by (cases c; cases c1; simp add: tables_kept_def)+
  have trans: "tables_kept c c'" if "tables_kept c1 c'"
    using t that by (simp add: tables_kept_iff)
  consider (err) e where "r1 = Err e" | (over) "r1 = Ok None" | (packet) p where "r1 = Ok (Some p)"
    using Suc.prems 1 by (cases r1) auto
  then show ?case
  proof cases
    case err
    obtain r2 c2 w2 where 2: "report_error X e (c1, w1) = (r2, c2, w2)" by (cases "report_error X e (c1, w1)") auto
    with Suc.prems 1 err framedD(2) [OF framed_report_error 2] show ?thesis
      by (cases r2) (auto simp: raw_frame_def trans)
  next
    case packet
    show ?thesis
    proof (cases "pkt_nsp p = rc_nsp c1")
      case True
      obtain r2 c2 w2 where 2: "raw_handle_socketio_packet X p (c1, w1) = (r2, c2, w2)"
        by (cases "raw_handle_socketio_packet X p (c1, w1)") auto
      with Suc.prems 1 packet True nsp framedD(2) [OF framed_raw_handle_socketio_packet 2] show ?thesis
        by (cases r2) (auto simp: raw_frame_def trans)
    next
      case False
      with Suc.prems 1 packet have "raw_poll_loop n X (c1, w1) = (r, c', w')" by simp
      from Suc.IH [OF this Suc.prems(2)] trans nsp show ?thesis by simp
    qed
  qed (use Suc.prems 1 t in auto)
qed simp

definition same_tables :: "sio_client \<Rightarrow> sio_client \<Rightarrow> bool" where
  "same_tables k k' \<longleftrightarrow> cl_builder k' = cl_builder k \<and> rc_on (cl_client k') = rc_on (cl_client k) \<and>
     rc_on_any (cl_client k') = rc_on_any (cl_client k) \<and> rc_on_close (cl_client k') = rc_on_close (cl_client k)"

text \<open>The client in use serves the namespace of the builder, with its \<open>auth\<close>, and its locks are free.\<close>

definition client_ok :: "sio_client \<Rightarrow> bool" where
  "client_ok k \<longleftrightarrow> rc_nsp (cl_client k) = sb_namespace (cl_builder k) \<and>
     rc_auth (cl_client k) = sb_auth (cl_builder k) \<and> \<not> rc_locked (cl_client k)"

text \<open>\<open>kept j k k'\<close>: \<open>k'\<close> is \<open>k\<close> after \<open>j\<close> new sessions.\<close>

definition kept :: "nat \<Rightarrow> sio_client \<Rightarrow> sio_client \<Rightarrow> bool" where
  "kept j k k' \<longleftrightarrow> same_tables k k' \<and> client_ok k' \<and>
     rc_epoch (cl_client k') = rc_epoch (cl_client k) + of_nat j"

lemma kept_refl: "client_ok k \<Longrightarrow> kept 0 k k"
  by (simp add: kept_def same_tables_def)

lemma kept_trans: "kept i k k' \<Longrightarrow> kept j k' k'' \<Longrightarrow> kept (i + j) k k''"
  by (simp add: kept_def same_tables_def)

lemma on_raw_kept:
  assumes "on_raw f (k, w) = (r, k', w')" and "client_ok k"
    and "\<And>c' w'. f (cl_client k, w) = (r, c', w') \<Longrightarrow> tables_kept (cl_client k) c'"
  shows "kept 0 k k'"
proof -
  obtain c1 w1 where "f (cl_client k, w) = (r, c1, w1)" "k' = k\<lparr>cl_client := c1\<rparr>"
    using assms(1) by (auto simp: on_raw_def split: prod.splits)
  with assms(2,3) show ?thesis
    by (auto simp: kept_def same_tables_def client_ok_def tables_kept_iff)
qed

text \<open>A reconnect that succeeds is the next session with the same tables; one that fails is none.\<close>

lemma sio_do_reconnect_cases:
  assumes "sio_do_reconnect X (k, w) = (r, k', w')"
  obtains e where "r = Err e" "k' = k" | "r = Panic" "k' = k" | "r = Hang" "k' = k"
  | "r = Ok ()" "kept 1 k k'" "rc_acks (cl_client k') = []"
proof -
  obtain r1 w1 where 1: "sio_connect_raw X (shared_builder k) w = (r1, w1)" by fastforce
  show thesis
  proof (cases r1)
    case (Ok c)
    with assms 1 have "r = Ok ()" "k' = k\<lparr>cl_client := c\<rparr>" by (auto simp: sio_do_reconnect_def)
    moreover from sio_connect_raw_Ok [OF 1 [unfolded Ok]] have "kept 1 k (k\<lparr>cl_client := c\<rparr>)" "rc_acks c = []"
      by (auto simp: kept_def same_tables_def client_ok_def shared_builder_def)
    ultimately show thesis using that(4) by auto
  qed (use assms 1 that in \<open>auto simp: sio_do_reconnect_def\<close>)
qed

lemma back_off_fst:
  "\<exists>w'. back_off X (k, w) = (k\<lparr>cl_backoffs := cl_backoffs k + 1\<rparr>, w') \<and> grows w w'"
  by (auto simp: back_off_def split: option.split)

lemma kept_back_off: "kept j (k\<lparr>cl_backoffs := n\<rparr>) k' = kept j k k'" "client_ok (k\<lparr>cl_backoffs := n\<rparr>) = client_ok k"
  by (simp_all add: kept_def same_tables_def client_ok_def)

lemma reconnect_loop_kept:
  "reconnect_loop n X mx i (k, w) = (r, k', w') \<Longrightarrow> returned r \<Longrightarrow> client_ok k \<Longrightarrow> \<exists>j\<le>1. kept j k k'"
proof (induction n arbitrary: i k w)
  case (Suc n)
  obtain w1 where 1: "back_off X (k, w) = (k\<lparr>cl_backoffs := cl_backoffs k + 1\<rparr>, w1)"
    using back_off_fst by blast
  let ?k = "k\<lparr>cl_backoffs := cl_backoffs k + 1\<rparr>" and ?i = "if mx \<noteq> None then i + 1 else i"
  have ok: "client_ok ?k" using Suc.prems(3) by (simp add: kept_back_off)
  obtain r2 k2 w2 where 2: "sio_do_reconnect X (?k, w1) = (r2, k2, w2)"
    by (cases "sio_do_reconnect X (?k, w1)") auto
  show ?case
  proof (cases "mx \<noteq> None \<and> the mx < ?i")
    case True
    with Suc.prems kept_refl [of k] show ?thesis
      by (cases "overflow_checks X \<and> i = 255") (auto simp: Let_def intro: exI [of _ 0])
  next
    case False
    with Suc.prems 1 2 have step: "on_return (r2, k2, w2) (\<lambda>r kw. case r of Inr _ \<Rightarrow> (Ok (), kw)
        | Inl e \<Rightarrow> reconnect_loop n X mx ?i kw) = (r, k', w')"
      by (auto simp: Let_def split: if_splits)
    from 2 show ?thesis
    proof (cases rule: sio_do_reconnect_cases)
      case (1 e)
      with step have "reconnect_loop n X mx ?i (?k, w2) = (r, k', w')" by simp
      from Suc.IH [OF this Suc.prems(2) ok] show ?thesis by (simp add: kept_back_off)
    next
      case 4
      with step have "kept 1 k k'" by (auto simp: kept_back_off)
      then show ?thesis by auto
    qed (use step Suc.prems(2) in auto)
  qed
qed simp

lemma sio_reconnect_kept:
  "sio_reconnect X (k, w) = (r, k', w') \<Longrightarrow> returned r \<Longrightarrow> client_ok k \<Longrightarrow>
   \<exists>j \<le> (if sb_reconnect (cl_builder k) then 1 else 0). kept j k k'"
  using reconnect_loop_kept [of "loop_fuel X" X "sb_max_attempts (cl_builder k)" 0 k w r k' w'] kept_refl [of k]
  by (auto simp: sio_reconnect_def split: if_splits)

lemma on_raw_poll_kept:
  assumes "on_raw (raw_poll X) (k, w) = (r, k', w')" and "returned r" and "client_ok k"
  shows "kept 0 k k'"
  using on_raw_kept [OF assms(1,3)] raw_poll_loop_frame [of "loop_fuel X" X "cl_client k" w r] assms(2)
  by (auto simp: raw_poll_def)

lemma poll_step_kept:
  assumes "poll_step X (k, w) = (r, k', w')" and "returned r" and "client_ok k"
  shows "\<exists>j \<le> (if sb_reconnect (cl_builder k) then 1 else 0). kept j k k'"
proof -
  obtain r1 k1 w1 where 1: "on_raw (raw_poll X) (k, w) = (r1, k1, w1)" by (cases "on_raw (raw_poll X) (k, w)") auto
  have r1: "returned r1"
    using assms(1,2) 1 by (cases r1) (auto simp: poll_step_def sio_iter_next_def)
  have k1: "kept 0 k k1" by (rule on_raw_poll_kept [OF 1 r1 assms(3)])
  have "\<exists>i. sio_iter_next X (k, w) = (Ok i, k1, w1)"
    using 1 r1 by (cases r1) (auto simp: sio_iter_next_def split: option.split)
  then obtain i where i: "sio_iter_next X (k, w) = (Ok i, k1, w1)" by blast
  show ?thesis
  proof (cases "should_reconnect (cl_builder k1) i")
    case True
    obtain r2 k2 w2 where 2: "sio_client_disconnect X (k1, w1) = (r2, k2, w2)"
      by (cases "sio_client_disconnect X (k1, w1)") auto
    have r2: "returned r2"
      using assms(1,2) i True 2 by (cases r2) (auto simp: poll_step_def)
    have k2: "kept 0 k1 k2"
    proof (rule on_raw_kept [OF 2 [unfolded sio_client_disconnect_def]])
      show "client_ok k1" using k1 by (simp add: kept_def)
      show "tables_kept (cl_client k1) c'" if "raw_disconnect X (cl_client k1, w1) = (r2, c', w')" for c' w'
        using framedD(2) [OF framed_raw_disconnect that r2] by (simp add: raw_frame_def)
    qed
    obtain r3 k3 w3 where 3: "sio_reconnect X (k2, w2) = (r3, k3, w3)" by (cases "sio_reconnect X (k2, w2)") auto
    have r3: "returned r3" and k3: "k3 = k'"
      using assms(1,2) i True 2 r2 3 by (cases r2; cases r3; auto simp: poll_step_def)+
    obtain j where "j \<le> (if sb_reconnect (cl_builder k2) then 1 else 0)" "kept j k2 k3"
      using sio_reconnect_kept [OF 3 r3] k2 by (auto simp: kept_def)
    moreover have "cl_builder k2 = cl_builder k" using k1 k2 by (simp add: kept_def same_tables_def)
    ultimately show ?thesis
      using kept_trans [OF kept_trans [OF k1 k2], of j k3] k3 by auto
  next
    case False
    with assms(1) i k1 show ?thesis by (auto simp: poll_step_def)
  qed
qed

text \<open>
  Whatever the server sends and the callbacks do, the polling thread keeps the callback tables,
  the builder, the namespace and \<open>auth\<close> of its client, and the session counter only counts up, by
  one for each turn at most, and not at all when reconnecting is off.
\<close>

theorem poll_thread_session:
  assumes "poll_thread n X (k, w) = (r, k', w')" and "returned r" and "client_ok k"
  shows "same_tables k k' \<and> client_ok k' \<and>
    (\<exists>j \<le> (if sb_reconnect (cl_builder k) then n else 0).
       sio_client_session_epoch k' = sio_client_session_epoch k + of_nat j)"
proof -
  have "\<exists>j \<le> (if sb_reconnect (cl_builder k) then n else 0). kept j k k'"
    using assms
  proof (induction n arbitrary: k w)
    case (Suc n)
    obtain r1 k1 w1 where 1: "poll_step X (k, w) = (r1, k1, w1)" by (cases "poll_step X (k, w)") auto
    have r1: "returned r1" using Suc.prems 1 by (cases r1) auto
    obtain i where i: "i \<le> (if sb_reconnect (cl_builder k) then 1 else 0)" "kept i k k1"
      using poll_step_kept [OF 1 r1 Suc.prems(3)] by blast
    show ?case
    proof (cases "is_ok r1")
      case True
      with Suc.prems 1 have "poll_thread n X (k1, w1) = (r, k', w')" by (cases r1) auto
      moreover have "client_ok k1" "cl_builder k1 = cl_builder k" using i by (auto simp: kept_def same_tables_def)
      ultimately obtain j where j: "j \<le> (if sb_reconnect (cl_builder k) then n else 0)" "kept j k1 k'"
        using Suc.IH Suc.prems(2) by metis
      with i show ?thesis
        using kept_trans [OF i(2) j(2)] by (intro exI [of _ "i + j"]) (auto split: if_splits)
    next
      case False
      with Suc.prems 1 i r1 show ?thesis by (cases r1) (auto split: if_splits intro: exI [of _ i])
    qed
  qed (auto intro: kept_refl)
  then show ?thesis by (auto simp: kept_def sio_client_session_epoch_def)
qed

subsection \<open>When the engine has stopped\<close>

lemma sio_poll_stopped:
  assumes "\<not> es_connected (ss_engine s)" and "0 < loop_fuel X"
  shows "sio_socket_poll X (s, w) = (Ok None, s, w)"
proof -
  obtain n where "loop_fuel X = Suc n" using assms(2) by (cases "loop_fuel X") auto
  with assms(1) show ?thesis
    by (simp add: sio_socket_poll_def on_engine_def eio_client_poll_def eio_socket_poll_def)
qed

text \<open>
  C38. A polling thread whose engine has stopped never ends and does nothing: each turn gets the
  error that is meant to make it reconnect, and goes on without reconnecting, whatever the builder says.
\<close>

theorem stopped_thread_spins:
  assumes "\<not> es_connected (ss_engine (rc_socket (cl_client k)))" and "0 < loop_fuel X"
  shows "poll_thread n X (k, w) = (Ok (), k, w) \<and>
    sio_iter_next X (k, w) = (Ok (Inl SioStoppedEngineIoSocket), k, w)"
proof -
  let ?c = "cl_client k"
  obtain m where m: "loop_fuel X = Suc m" using assms(2) by (cases "loop_fuel X") auto
  have "on_sio (sio_socket_poll X) (?c, w) = (Ok None, ?c, w)"
    by (simp add: on_sio_def sio_poll_stopped assms)
  then have "raw_poll X (?c, w) = (Ok None, ?c, w)" by (simp add: raw_poll_def m)
  then have next_item: "sio_iter_next X (k, w) = (Ok (Inl SioStoppedEngineIoSocket), k, w)"
    by (simp add: sio_iter_next_def on_raw_def)
  then have "poll_thread n X (k, w) = (Ok (), k, w)"
    by (induction n) (simp_all add: poll_step_def)
  with next_item show ?thesis by blast
qed

definition demo_client :: "raw_client \<Rightarrow> u8 option \<Rightarrow> sio_client" where
  "demo_client c m = \<lparr>cl_builder = (sio_builder_new ''bad'')\<lparr>sb_max_attempts := m\<rparr>, cl_client = c, cl_backoffs = 0\<rparr>"

theorem stopped_thread_spins_witness:
  "poll_thread 1000 demo_ext (demo_client (demo_raw demo_closed Map.empty None) None, demo_world) =
     (Ok (), demo_client (demo_raw demo_closed Map.empty None) None, demo_world)"
  using stopped_thread_spins [of "demo_client (demo_raw demo_closed Map.empty None) None" demo_ext 1000 demo_world]
  by (simp add: demo_client_def demo_raw_def demo_closed_def demo_ext_def)

theorem poll_thread_session_witness:
  "\<exists>k' w' j. poll_thread 3 demo_ext (demo_client (demo_raw demo_closed [EvMessage \<mapsto> 1] None) None, demo_world) = (Ok (), k', w') \<and>
     rc_on (cl_client k') = [EvMessage \<mapsto> 1] \<and> j \<le> 3 \<and> sio_client_session_epoch k' = 1 + of_nat j"
proof -
  let ?k = "demo_client (demo_raw demo_closed [EvMessage \<mapsto> 1] None) None"
  have "\<not> es_connected (ss_engine demo_closed)" "0 < loop_fuel demo_ext"
    by (simp_all add: demo_closed_def demo_ext_def)
  then obtain m where m: "loop_fuel demo_ext = Suc m" by (cases "loop_fuel demo_ext") auto
  have "on_raw (raw_poll demo_ext) (?k, demo_world) = (Ok None, ?k, demo_world)"
    by (simp add: on_raw_def demo_client_def demo_raw_def raw_poll_def m on_sio_def sio_poll_stopped demo_closed_def)
  then have "poll_step demo_ext (?k, demo_world) = (Ok (), ?k, demo_world)"
    by (simp add: poll_step_def sio_iter_next_def)
  then have p: "poll_thread 3 demo_ext (?k, demo_world) = (Ok (), ?k, demo_world)"
    by (simp add: numeral_3_eq_3)
  have "client_ok ?k" by (simp add: client_ok_def demo_client_def demo_raw_def sio_builder_new_def)
  with poll_thread_session [OF p] p show ?thesis
    by (auto simp: same_tables_def sio_client_session_epoch_def demo_client_def demo_raw_def sio_builder_new_def)
qed

subsection \<open>Giving up\<close>

text \<open>No attempt to reconnect succeeds; each returns an error.\<close>

definition out_of_reach :: "ext \<Rightarrow> sio_client \<Rightarrow> bool" where
  "out_of_reach X k \<longleftrightarrow> (\<forall>w. \<exists>e w'. sio_connect_raw X (shared_builder k) w = (Err e, w'))"

lemma out_of_reach_attempt:
  assumes "out_of_reach X k"
  shows "\<exists>e w'. sio_do_reconnect X (back_off X (k, w)) = (Err e, k\<lparr>cl_backoffs := cl_backoffs k + 1\<rparr>, w')"
proof -
  let ?k = "k\<lparr>cl_backoffs := cl_backoffs k + 1\<rparr>"
  obtain w1 where 1: "back_off X (k, w) = (?k, w1)" using back_off_fst by blast
  have "shared_builder ?k = shared_builder k" by (simp add: shared_builder_def)
  with assms obtain e w2 where "sio_connect_raw X (shared_builder ?k) w1 = (Err e, w2)"
    unfolding out_of_reach_def by metis
  with 1 show ?thesis by (simp add: sio_do_reconnect_def)
qed

lemma out_of_reach_backoffs: "out_of_reach X k \<Longrightarrow> out_of_reach X (k\<lparr>cl_backoffs := n\<rparr>)"
  by (simp add: out_of_reach_def shared_builder_def)

lemma reconnect_loop_bounded:
  assumes "out_of_reach X k" and "unat i \<le> unat m" and "unat m < 255" and "unat m - unat i < n"
  shows "\<exists>w'. reconnect_loop n X (Some m) i (k, w) =
    (Ok (), k\<lparr>cl_backoffs := cl_backoffs k + (unat m - unat i)\<rparr>, w')"
  using assms
proof (induction n arbitrary: i k w)
  case (Suc n)
  have i: "i \<noteq> 255" using Suc.prems(2,3) by auto
  note i1 = unat_Suc_u8 [OF i]
  show ?case
  proof (cases "unat i = unat m")
    case True
    with i i1 show ?thesis by (simp add: Let_def word_less_nat_alt)
  next
    case False
    let ?k = "k\<lparr>cl_backoffs := cl_backoffs k + 1\<rparr>"
    obtain e w1 where a: "sio_do_reconnect X (back_off X (k, w)) = (Err e, ?k, w1)"
      using out_of_reach_attempt [OF Suc.prems(1)] by blast
    have "\<exists>w'. reconnect_loop n X (Some m) (i + 1) (?k, w1) =
        (Ok (), ?k\<lparr>cl_backoffs := cl_backoffs ?k + (unat m - unat (i + 1))\<rparr>, w')"
      by (rule Suc.IH) (use Suc.prems False i1 in \<open>auto simp: out_of_reach_backoffs\<close>)
    moreover have "cl_backoffs ?k + (unat m - unat (i + 1)) = cl_backoffs k + (unat m - unat i)"
      using Suc.prems(2) False i1 by simp
    ultimately show ?thesis using a i i1 Suc.prems(2) False by (auto simp: Let_def word_less_nat_alt)
  qed
qed simp

lemma reconnect_loop_endless:
  assumes "out_of_reach X k" and "mx = None \<or> mx = Some 255 \<and> \<not> overflow_checks X"
  shows "fst (reconnect_loop n X mx i (k, w)) = Hang"
  using assms
proof (induction n arbitrary: i k w)
  case (Suc n)
  obtain e w1 where a: "sio_do_reconnect X (back_off X (k, w)) = (Err e, k\<lparr>cl_backoffs := cl_backoffs k + 1\<rparr>, w1)"
    using out_of_reach_attempt [OF Suc.prems(1)] by blast
  with Suc.prems(2) a Suc.IH [OF out_of_reach_backoffs [OF Suc.prems(1)]] show ?case
    by (auto simp: Let_def u8_bound)
qed simp

lemma reconnect_loop_overflow:
  assumes "out_of_reach X k" and "overflow_checks X" and "255 - unat i < n"
  shows "fst (reconnect_loop n X (Some 255) i (k, w)) = Panic"
  using assms
proof (induction n arbitrary: i k w)
  case (Suc n)
  obtain e w1 where a: "sio_do_reconnect X (back_off X (k, w)) = (Err e, k\<lparr>cl_backoffs := cl_backoffs k + 1\<rparr>, w1)"
    using out_of_reach_attempt [OF Suc.prems(1)] by blast
  show ?case
  proof (cases "i = 255")
    case False
    have "unat i < 255" using unat_Suc_u8 [OF False] u8_bound(1) [of "i + 1"] by simp
    then show ?thesis
      using False a Suc.prems Suc.IH [OF out_of_reach_backoffs [OF Suc.prems(1)] Suc.prems(2), of "i + 1"]
        unat_Suc_u8 [OF False] by (simp add: Let_def u8_bound)
  qed (use Suc.prems(2) in simp)
qed simp

text \<open>
  C20. While the server is out of reach, reconnecting ends after exactly the number of attempts that is
  the limit, with the client as it was. Without a limit it never ends; and the limit 255 is none: the
  counter overflows before it can pass it, a panic with overflow checks and an endless loop without.
\<close>

theorem reconnect_gives_up:
  assumes "out_of_reach X k" and "sb_reconnect (cl_builder k)" and "sb_max_attempts (cl_builder k) = mx"
    and "256 \<le> loop_fuel X"
  shows "case mx of
      None \<Rightarrow> fst (sio_reconnect X (k, w)) = Hang
    | Some m \<Rightarrow>
        if m = 255 then fst (sio_reconnect X (k, w)) = (if overflow_checks X then Panic else Hang)
        else \<exists>w'. sio_reconnect X (k, w) = (Ok (), k\<lparr>cl_backoffs := cl_backoffs k + unat m\<rparr>, w')"
proof (cases mx)
  case None
  with assms reconnect_loop_endless [OF assms(1), of None] show ?thesis by (simp add: sio_reconnect_def)
next
  case (Some m)
  show ?thesis
  proof (cases "m = 255")
    case True
    with Some assms reconnect_loop_endless [OF assms(1), of "Some 255"]
      reconnect_loop_overflow [OF assms(1), of 0 "loop_fuel X" w] show ?thesis
      by (simp add: sio_reconnect_def)
  next
    case False
    have "unat m < 255" using unat_Suc_u8 [OF False] u8_bound(1) [of "m + 1"] by simp
    with Some False assms reconnect_loop_bounded [OF assms(1), of 0 m "loop_fuel X" w] show ?thesis
      by (auto simp: sio_reconnect_def)
  qed
qed

text \<open>An address that is no URL.\<close>

definition demo_no_url :: ext where
  "demo_no_url = demo_ext\<lparr>url_parse := \<lambda>s. Inl ''relative URL without a base'', loop_fuel := 256\<rparr>"

theorem reconnect_gives_up_witness:
  "\<exists>w'. sio_reconnect demo_no_url (demo_client (demo_raw demo_closed Map.empty None) (Some 3), demo_world) =
     (Ok (), (demo_client (demo_raw demo_closed Map.empty None) (Some 3))\<lparr>cl_backoffs := 3\<rparr>, w')"
proof -
  let ?k = "demo_client (demo_raw demo_closed Map.empty None) (Some 3)"
  have "out_of_reach demo_no_url ?k"
    by (simp add: out_of_reach_def sio_connect_raw_def demo_no_url_def demo_ext_def)
  with reconnect_gives_up [of demo_no_url ?k "Some 3" demo_world] show ?thesis
    by (simp add: demo_no_url_def demo_client_def sio_builder_new_def)
qed

end
