(* ===== verification/Sio_Client_Threads.thy ===== *)
theory Sio_Client_Threads
  imports Sio_Client
begin

text \<open>
  \<open>socketio/src/client/client.rs\<close> with its two threads: the one that polls, and the user's, which calls
  the same client. The polling thread is cut where it waits: for the transport's answer, before a
  disconnect, in the delay of the back-off and before a connect. Between these points it runs alone:
  it holds the client for reading while it polls, as the user's calls do, and the builder while it
  connects, which only \<open>set_reconnect_url\<close> would need. \<open>threads_step\<close> is the interleaving. Waiting for
  the attachments of a packet is part of the step that reads the packet, and a call of the user that
  never comes back is left out.
\<close>

subsection \<open>One turn of the loops that poll\<close>

text \<open>
  The loops of the engine, the socket and the raw client poll again when what they got is not for
  their caller; each starts from the state alone, so the thread is then where it was.
\<close>

datatype 'a turn = Again | Item 'a

text \<open>The rest of a turn of \<open>Socket::poll\<close> once the transport answers; it must by the instant \<open>dl\<close>.\<close>

definition eio_answer :: "ext \<Rightarrow> nat \<Rightarrow> eio_state \<Rightarrow> (eio_error, eio_packet turn) outcome \<times> eio_state" where
  "eio_answer X dl = (\<lambda>(s, w).
     case transport_poll X (of_nat (dl - now w)) (es_transport s) w of
       (Ok d, w) \<Rightarrow>
         if d = [] then (Ok Again, s, w)
         else ques (eio_payload_try_from (b64 X) d, s, w) (\<lambda>ps (s, w).
           case eio_iter_next ps of
             (Some p, rest) \<Rightarrow> (Ok (Item p), s\<lparr>es_remaining := Some rest\<rparr>, w)
           | (None, rest) \<Rightarrow> (Ok Again, s, w))
     | (Err e, w) \<Rightarrow> (Err e, s, w)
     | (Panic, w) \<Rightarrow> (Panic, s, w)
     | (Hang, w) \<Rightarrow> (Hang, s, w))"

text \<open>What \<open>Client::poll\<close> of the engine does with the packet.\<close>

definition eio_client_react :: "ext \<Rightarrow> eio_packet \<Rightarrow> eio_state \<Rightarrow> (eio_error, eio_packet) outcome \<times> eio_state" where
  "eio_client_react X p sw =
     (let sw = eio_handle_packet p sw in
      case packet_id p of
        MessageBinary \<Rightarrow> (Ok p, eio_handle_data (data p) sw)
      | Message \<Rightarrow> (Ok p, eio_handle_data (data p) sw)
      | Close \<Rightarrow> (Ok p, eio_handle_close sw)
      | Open \<Rightarrow> (Panic, sw)
      | Upgrade \<Rightarrow> (Ok p, sw)
      | Ping \<Rightarrow>
          ques (eio_socket_pinged sw) (\<lambda>_ sw.
          ques (eio_client_emit X (eio_packet_new Pong '''') sw) (\<lambda>_ sw. (Ok p, sw)))
      | Pong \<Rightarrow> (Panic, sw)
      | Noop \<Rightarrow> (Ok p, sw))"

type_synonym eio_get = "eio_state \<Rightarrow> (eio_error, eio_packet turn) outcome \<times> eio_state"

definition eio_turn :: "ext \<Rightarrow> eio_get \<Rightarrow> eio_get" where
  "eio_turn X g sw = ques (g sw) (\<lambda>t sw. case t of
     Again \<Rightarrow> (Ok Again, sw)
   | Item p \<Rightarrow> ques (eio_client_react X p sw) (\<lambda>p sw. (Ok (Item p), sw)))"

definition sio_turn :: "ext \<Rightarrow> eio_get \<Rightarrow> sio_state \<Rightarrow> (sio_error, sio_packet turn) outcome \<times> sio_state" where
  "sio_turn X g sw = ques (on_engine (eio_turn X g) sw) (\<lambda>t sw. case t of
     Again \<Rightarrow> (Ok Again, sw)
   | Item ep \<Rightarrow>
       if packet_id ep = Message \<or> packet_id ep = MessageBinary
       then ques (sio_handle_engineio_packet X ep sw) (\<lambda>p (s, w).
              (Ok (Item p), sio_handle_socketio_packet p s, w))
       else (Ok Again, sw))"

definition raw_turn :: "ext \<Rightarrow> eio_get \<Rightarrow> raw_state \<Rightarrow> (sio_error, sio_packet turn) outcome \<times> raw_state" where
  "raw_turn X g cw = on_return (on_sio (sio_turn X g) cw) (\<lambda>r cw. case r of
     Inl e \<Rightarrow> ques (report_error X e cw) (\<lambda>_ cw. (Err e, cw))
   | Inr (Item p) \<Rightarrow>
       if pkt_nsp p = rc_nsp (fst cw)
       then ques (raw_handle_socketio_packet X p cw) (\<lambda>_ cw. (Ok (Item p), cw))
       else (Ok Again, cw)
   | Inr Again \<Rightarrow> (Ok Again, cw))"


subsection \<open>The polling thread\<close>

text \<open>
  Asking the iterator for an item; waiting for the transport, up to an instant; having decided to
  disconnect and reconnect; at the head of the loop of \<open>reconnect\<close>, with its counter; in the delay of
  the back-off, up to an instant; about to connect. A thread that has panicked is \<open>Dead\<close>, one that
  never returns \<open>Stuck\<close>.
\<close>

datatype poller =
    Iterating
  | Waiting nat
  | Leaving
  | Asking u8
  | Sleeping u8 nat nat
  | Connecting u8
  | Dead
  | Stuck

definition after_item :: "sio_client \<Rightarrow> sio_error + sio_packet \<Rightarrow> poller" where
  "after_item k item = (if should_reconnect (cl_builder k) item then Leaving else Iterating)"

definition poller_turn :: "ext \<Rightarrow> eio_get \<Rightarrow> client_state \<Rightarrow> poller \<times> client_state" where
  "poller_turn X g kw = (case on_raw (raw_turn X g) kw of
     (Ok Again, k, w) \<Rightarrow> (Iterating, k, w)
   | (Ok (Item p), k, w) \<Rightarrow> (after_item k (Inr p), k, w)
   | (Err e, k, w) \<Rightarrow> (after_item k (Inl e), k, w)
   | (Panic, k, w) \<Rightarrow> (Dead, k, w)
   | (Hang, k, w) \<Rightarrow> (Stuck, k, w))"

fun poller_step :: "ext \<Rightarrow> poller \<Rightarrow> client_state \<Rightarrow> poller \<times> client_state" where
  "poller_step X Iterating (k, w) =
     (let s = ss_engine (rc_socket (cl_client k)) in
      if es_connected s then
        (case map_option eio_iter_next (es_remaining s) of
           Some (Some p, rest) \<Rightarrow> poller_turn X (\<lambda>(s, w). (Ok (Item p), s\<lparr>es_remaining := Some rest\<rparr>, w)) (k, w)
         | _ \<Rightarrow> (case eio_time_to_next_ping (s, w) of
             Ok ms \<Rightarrow> (Waiting (now w + unat ms), k, w)
           | _ \<Rightarrow> (Dead, k, w)))
      else (after_item k (Inl SioStoppedEngineIoSocket), k, w))"
| "poller_step X (Waiting dl) kw = poller_turn X (eio_answer X dl) kw"
| "poller_step X Leaving kw = (case sio_client_disconnect X kw of
     (Panic, kw) \<Rightarrow> (Dead, kw)
   | (Hang, kw) \<Rightarrow> (Stuck, kw)
   | (_, k, w) \<Rightarrow> (if sb_reconnect (cl_builder k) then Asking 0 else Iterating, k, w))"
| "poller_step X (Asking i) (k, w) =
     (let mx = sb_max_attempts (cl_builder k) in
      if mx \<noteq> None \<and> overflow_checks X \<and> i = 255 then (Dead, k, w)
      else let i = (if mx \<noteq> None then i + 1 else i) in
        if mx \<noteq> None \<and> the mx < i then (Iterating, k, w)
        else (case next_backoff X (cl_backoffs k) of
            Some ms \<Rightarrow> Sleeping i ms (now w + ms) | None \<Rightarrow> Connecting i,
          k\<lparr>cl_backoffs := cl_backoffs k + 1\<rparr>, w))"
| "poller_step X (Sleeping i ms t) (k, w) =
     (if now w < t then (Sleeping i ms t, k, w) else (Connecting i, k, did (DidSleep ms) w))"
| "poller_step X (Connecting i) kw = (case sio_do_reconnect X kw of
     (Ok u, kw) \<Rightarrow> (Iterating, kw)
   | (Err e, kw) \<Rightarrow> (Asking i, kw)
   | (Panic, kw) \<Rightarrow> (Dead, kw)
   | (Hang, kw) \<Rightarrow> (Stuck, kw))"
| "poller_step X Dead kw = (Dead, kw)"
| "poller_step X Stuck kw = (Stuck, kw)"


subsection \<open>Interleaving\<close>

datatype client_call =
    CallEmit event payload
  | CallEmitWithAck event payload nat callback
  | CallDisconnect
  | CallSetReconnectUrl bytes

fun call_client :: "ext \<Rightarrow> client_call \<Rightarrow> client_state \<Rightarrow> (sio_error, unit) outcome \<times> client_state" where
  "call_client X (CallEmit e d) kw = sio_client_emit X e d kw"
| "call_client X (CallEmitWithAck e d ms h) kw = sio_client_emit_with_ack X e d ms h kw"
| "call_client X CallDisconnect kw = sio_client_disconnect X kw"
| "call_client X (CallSetReconnectUrl a) (k, w) = (Ok (), sio_client_set_reconnect_url a k, w)"

type_synonym threads = "poller \<times> client_state"

inductive threads_step :: "ext \<Rightarrow> threads \<Rightarrow> threads \<Rightarrow> bool" for X where
  poller: "poller_step X p (k, w) = (p', k', w') \<Longrightarrow> threads_step X (p, k, w) (p', k', w')"
| user: "call_client X c (k, w) = (r, k', w') \<Longrightarrow> returned r \<Longrightarrow> threads_step X (p, k, w) (p, k', w')"
| wait: "threads_step X (p, k, w) (p, k, w\<lparr>now := now w + d\<rparr>)"

inductive_cases threads_stepE [consumes 1, case_names poller user wait]:
  "threads_step X (p, k, w) (p', k', w')"

definition threads_reach :: "ext \<Rightarrow> threads \<Rightarrow> threads \<Rightarrow> bool" where
  "threads_reach X = (threads_step X)\<^sup>*\<^sup>*"


lemma threads_reach_refl [simp]: "threads_reach X s s"
  by (simp add: threads_reach_def)

lemma threads_reach_trans: "threads_reach X s t \<Longrightarrow> threads_reach X t u \<Longrightarrow> threads_reach X s u"
  unfolding threads_reach_def by (rule rtranclp_trans)

lemma threads_reach_poller: "poller_step X p kw = t \<Longrightarrow> threads_reach X t u \<Longrightarrow> threads_reach X (p, kw) u"
  unfolding threads_reach_def by (cases kw; cases t) (auto intro: converse_rtranclp_into_rtranclp threads_step.poller)

lemma threads_reach_wait: "threads_reach X (p, k, w\<lparr>now := now w + d\<rparr>) u \<Longrightarrow> threads_reach X (p, k, w) u"
  unfolding threads_reach_def
  by (rule converse_rtranclp_into_rtranclp [where r = "threads_step X"], rule threads_step.wait)


subsection \<open>The loops are turns\<close>

text \<open>
  \<open>polls C t s r s'\<close>: taking turns \<open>t\<close> for as long as \<open>C\<close> holds and they say \<open>Again\<close> ends with \<open>r\<close>.
\<close>

inductive polls ::
  "('s \<Rightarrow> bool) \<Rightarrow> ('s \<times> world \<Rightarrow> ('e, 'a turn) outcome \<times> 's \<times> world) \<Rightarrow> 's \<times> world \<Rightarrow>
   ('e, 'a option) outcome \<Rightarrow> 's \<times> world \<Rightarrow> bool" for C t where
  over: "\<not> C s \<Longrightarrow> polls C t (s, w) (Ok None) (s, w)"
| again: "C s \<Longrightarrow> t (s, w) = (Ok Again, sw) \<Longrightarrow> polls C t sw r sw' \<Longrightarrow> polls C t (s, w) r sw'"
| item: "C s \<Longrightarrow> t (s, w) = (Ok (Item a), sw') \<Longrightarrow> polls C t (s, w) (Ok (Some a)) sw'"
| err: "C s \<Longrightarrow> t (s, w) = (Err e, sw') \<Longrightarrow> polls C t (s, w) (Err e) sw'"
| panic: "C s \<Longrightarrow> t (s, w) = (Panic, sw') \<Longrightarrow> polls C t (s, w) Panic sw'"

text \<open>What is left to do once a turn has given \<open>x\<close>.\<close>

fun rest_polls ::
  "('s \<Rightarrow> bool) \<Rightarrow> ('s \<times> world \<Rightarrow> ('e, 'a turn) outcome \<times> 's \<times> world) \<Rightarrow> ('e, 'a turn) outcome \<times> 's \<times> world \<Rightarrow>
   ('e, 'a option) outcome \<Rightarrow> 's \<times> world \<Rightarrow> bool" where
  "rest_polls C t (Ok Again, sw) r sw' = polls C t sw r sw'"
| "rest_polls C t (Ok (Item a), sw) r sw' = (r = Ok (Some a) \<and> sw' = sw)"
| "rest_polls C t (Err e, sw) r sw' = (r = Err e \<and> sw' = sw)"
| "rest_polls C t (Panic, sw) r sw' = (r = Panic \<and> sw' = sw)"
| "rest_polls C t (Hang, sw) r sw' = False"

lemma polls_turn: "C s \<Longrightarrow> rest_polls C t (t (s, w)) r sw' \<Longrightarrow> polls C t (s, w) r sw'"
  by (cases "(C, t, t (s, w), r, sw')" rule: rest_polls.cases) (auto intro: polls.intros)

text \<open>A turn of a loop above: the turn below, then \<open>h\<close> with its item or \<open>f\<close> with its error.\<close>

definition lift_turn ::
  "('s \<times> world \<Rightarrow> ('e, 'a turn) outcome \<times> 's \<times> world) \<Rightarrow> ('a \<Rightarrow> 's \<times> world \<Rightarrow> ('f, 'b turn) outcome \<times> 's \<times> world) \<Rightarrow>
   ('e \<Rightarrow> 's \<times> world \<Rightarrow> ('f, 'b turn) outcome \<times> 's \<times> world) \<Rightarrow> 's \<times> world \<Rightarrow> ('f, 'b turn) outcome \<times> 's \<times> world" where
  "lift_turn t h f sw = on_return (t sw) (\<lambda>r sw. case r of
     Inl e \<Rightarrow> f e sw | Inr Again \<Rightarrow> (Ok Again, sw) | Inr (Item a) \<Rightarrow> h a sw)"

lemma lift_polls:
  assumes "polls C t sw r sw1"
  shows "case r of
      Ok None \<Rightarrow> polls C (lift_turn t h f) sw (Ok None) sw1
    | Ok (Some a) \<Rightarrow> rest_polls C (lift_turn t h f) (h a sw1) r2 sw2 \<longrightarrow> polls C (lift_turn t h f) sw r2 sw2
    | Err e \<Rightarrow> rest_polls C (lift_turn t h f) (f e sw1) r2 sw2 \<longrightarrow> polls C (lift_turn t h f) sw r2 sw2
    | Panic \<Rightarrow> polls C (lift_turn t h f) sw Panic sw1
    | Hang \<Rightarrow> True"
  using assms
proof induction
  case (again s w sw r sw')
  from again.hyps have "lift_turn t h f (s, w) = (Ok Again, sw)" by (simp add: lift_turn_def)
  then have "polls C (lift_turn t h f) sw r sw' \<Longrightarrow> polls C (lift_turn t h f) (s, w) r sw'" for r sw'
    using again.hyps(1) by (auto intro: polls.again)
  with again.IH show ?case by (auto split: outcome.splits option.splits)
next
  case (over s w)
  then show ?case by (simp add: polls.over)
qed (auto simp: lift_turn_def intro!: polls_turn)

lemma polls_on_engine:
  "polls es_connected t ew r ew' \<Longrightarrow> ew = (ss_engine s, w) \<Longrightarrow>
   polls (\<lambda>s. es_connected (ss_engine s)) (on_engine t) (s, w) (map_err SioIncompleteResponseFromEngineIo r)
     (s\<lparr>ss_engine := fst ew'\<rparr>, snd ew')"
proof (induction arbitrary: s w rule: polls.induct)
  case (again e v ev r ev')
  then have "polls (\<lambda>s. es_connected (ss_engine s)) (on_engine t) (s\<lparr>ss_engine := fst ev\<rparr>, snd ev)
      (map_err SioIncompleteResponseFromEngineIo r) (s\<lparr>ss_engine := fst ev'\<rparr>, snd ev')"
    using again.IH [of "s\<lparr>ss_engine := fst ev\<rparr>" "snd ev"] by simp
  moreover have "on_engine t (s, w) = (Ok Again, s\<lparr>ss_engine := fst ev\<rparr>, snd ev)"
    using again.hyps again.prems by (simp add: on_engine_def case_prod_beta)
  ultimately show ?case using again.hyps again.prems by (auto intro: polls.again)
next
  case (over e v)
  then show ?case by (auto intro: polls.over)
qed (auto simp: on_engine_def case_prod_beta intro!: polls_turn)

lemma polls_on_sio:
  "polls (\<lambda>s. es_connected (ss_engine s)) t sw r sw' \<Longrightarrow> sw = (rc_socket c, w) \<Longrightarrow>
   polls (\<lambda>c. es_connected (ss_engine (rc_socket c))) (on_sio t) (c, w) r (c\<lparr>rc_socket := fst sw'\<rparr>, snd sw')"
proof (induction arbitrary: c w rule: polls.induct)
  case (again s v sv r sv')
  then have "polls (\<lambda>c. es_connected (ss_engine (rc_socket c))) (on_sio t) (c\<lparr>rc_socket := fst sv\<rparr>, snd sv) r
      (c\<lparr>rc_socket := fst sv'\<rparr>, snd sv')"
    using again.IH [of "c\<lparr>rc_socket := fst sv\<rparr>" "snd sv"] by simp
  moreover have "on_sio t (c, w) = (Ok Again, c\<lparr>rc_socket := fst sv\<rparr>, snd sv)"
    using again.hyps again.prems by (simp add: on_sio_def case_prod_beta)
  ultimately show ?case using again.hyps again.prems by (auto intro: polls.again)
next
  case (over s v)
  then show ?case by (auto intro: polls.over)
qed (auto simp: on_sio_def case_prod_beta intro!: polls_turn)

text \<open>A turn of the engine's loop, in one piece.\<close>

definition eio_one :: "ext \<Rightarrow> eio_get" where
  "eio_one X = (\<lambda>(s, w). case map_option eio_iter_next (es_remaining s) of
     Some (Some p, rest) \<Rightarrow> (Ok (Item p), s\<lparr>es_remaining := Some rest\<rparr>, w)
   | _ \<Rightarrow> ques (eio_time_to_next_ping (s, w), s, w) (\<lambda>ms (s, w). eio_answer X (now w + unat ms) (s, w)))"

lemma eio_time_to_next_ping_Ok: "\<exists>ms. eio_time_to_next_ping (s, w) = Ok ms"
  by (simp add: eio_time_to_next_ping_def Let_def)

lemma eio_poll_loop_polls:
  "eio_poll_loop n X (s, w) = (r, s', w') \<Longrightarrow> r \<noteq> Hang \<Longrightarrow> polls es_connected (eio_one X) (s, w) r (s', w')"
proof (induction n arbitrary: s w)
  case (Suc n)
  let ?get = "ques (eio_time_to_next_ping (s, w), s, w) (\<lambda>ms (s, w).
    case transport_poll X ms (es_transport s) w of
      (Ok d, w) \<Rightarrow> if d = [] then eio_poll_loop n X (s, w)
        else ques (eio_payload_try_from (b64 X) d, s, w) (\<lambda>ps (s, w). case eio_iter_next ps of
            (Some p, rest) \<Rightarrow> (Ok (Some p), s\<lparr>es_remaining := Some rest\<rparr>, w)
          | (None, rest) \<Rightarrow> eio_poll_loop n X (s, w))
    | (Err e, w) \<Rightarrow> (Err e, s, w) | (Panic, w) \<Rightarrow> (Panic, s, w) | (Hang, w) \<Rightarrow> (Hang, s, w))"
  let ?turn = "ques (eio_time_to_next_ping (s, w), s, w) (\<lambda>ms (s, w). eio_answer X (now w + unat ms) (s, w))"
  have get: "rest_polls es_connected (eio_one X) ?turn r (s', w')" if g: "?get = (r, s', w')"
  proof -
    obtain ms where ms: "eio_time_to_next_ping (s, w) = Ok ms" using eio_time_to_next_ping_Ok by blast
    obtain r1 w1 where p: "transport_poll X ms (es_transport s) w = (r1, w1)" by fastforce
    have IH: "eio_poll_loop n X (s, w1) = (r, s', w') \<Longrightarrow> polls es_connected (eio_one X) (s, w1) r (s', w')"
      using Suc.IH [OF _ Suc.prems(2)] .
    show ?thesis
    proof (cases r1)
      case (Ok d)
      show ?thesis
      proof (cases "d = []")
        case False
        with g ms p Ok IH Suc.prems(2) show ?thesis
          by (cases "eio_payload_try_from (b64 X) d")
            (auto simp: eio_answer_def split: prod.splits option.splits)
      qed (use g ms p Ok IH in \<open>simp add: eio_answer_def\<close>)
    qed (use g ms p Suc.prems(2) in \<open>auto simp: eio_answer_def\<close>)
  qed
  show ?case
  proof (cases "es_connected s")
    case True
    have "rest_polls es_connected (eio_one X) (eio_one X (s, w)) r (s', w')"
      using Suc.prems(1) True get by (auto simp: eio_one_def split: option.splits prod.splits)
    with True show ?thesis by (rule polls_turn)
  next
    case False
    with Suc.prems(1) show ?thesis by (auto intro: polls.over)
  qed
qed simp

lemma eio_client_poll_react:
  "eio_client_poll X sw = ques (eio_socket_poll X sw) (\<lambda>r sw. case r of None \<Rightarrow> (Ok None, sw)
     | Some p \<Rightarrow> ques (eio_client_react X p sw) (\<lambda>p sw. (Ok (Some p), sw)))"
proof -
  have "(let sw = eio_handle_packet p sw in
      case packet_id p of
        MessageBinary \<Rightarrow> (Ok (Some p), eio_handle_data (data p) sw)
      | Message \<Rightarrow> (Ok (Some p), eio_handle_data (data p) sw)
      | Close \<Rightarrow> (Ok (Some p), eio_handle_close sw) | Open \<Rightarrow> (Panic, sw) | Upgrade \<Rightarrow> (Ok (Some p), sw)
      | Ping \<Rightarrow> ques (eio_socket_pinged sw) (\<lambda>_ sw.
          ques (eio_client_emit X (eio_packet_new Pong '''') sw) (\<lambda>_ sw. (Ok (Some p), sw)))
      | Pong \<Rightarrow> (Panic, sw) | Noop \<Rightarrow> (Ok (Some p), sw)) =
    ques (eio_client_react X p sw) (\<lambda>p sw. (Ok (Some p), sw))" for p sw
  proof (cases "packet_id p")
    case Ping
    obtain sw1 where "eio_socket_pinged (eio_handle_packet p sw) = (Ok (), sw1)"
      by (cases "eio_handle_packet p sw") (simp add: eio_socket_pinged_def)
    moreover obtain r sw2 where "eio_client_emit X (eio_packet_new Pong '''') sw1 = (r, sw2)" by (rule prod.exhaust)
    ultimately show ?thesis using Ping by (cases r) (simp_all add: eio_client_react_def Let_def)
  qed (simp_all add: eio_client_react_def Let_def)
  then show ?thesis unfolding eio_client_poll_def by (simp cong: option.case_cong)
qed

lemma eio_turn_lift:
  "eio_turn X g = lift_turn g (\<lambda>p sw. ques (eio_client_react X p sw) (\<lambda>p sw. (Ok (Item p), sw))) (\<lambda>e sw. (Err e, sw))"
proof
  fix sw
  show "eio_turn X g sw = lift_turn g (\<lambda>p sw. ques (eio_client_react X p sw) (\<lambda>p sw. (Ok (Item p), sw)))
      (\<lambda>e sw. (Err e, sw)) sw"
    by (cases "g sw"; cases "fst (g sw)") (auto simp: eio_turn_def lift_turn_def split: turn.split)
qed

lemma eio_client_poll_polls:
  assumes "eio_client_poll X (s, w) = (r, s', w')" and "r \<noteq> Hang"
  shows "polls es_connected (eio_turn X (eio_one X)) (s, w) r (s', w')"
proof -
  obtain r1 s1 w1 where 1: "eio_socket_poll X (s, w) = (r1, s1, w1)" by (cases "eio_socket_poll X (s, w)") auto
  have "r1 \<noteq> Hang" using assms 1 by (auto simp: eio_client_poll_react)
  with 1 have p: "polls es_connected (eio_one X) (s, w) r1 (s1, w1)"
    by (simp add: eio_socket_poll_def eio_poll_loop_polls)
  from lift_polls [OF this, of "\<lambda>p sw. ques (eio_client_react X p sw) (\<lambda>p sw. (Ok (Item p), sw))"
      "\<lambda>e sw. (Err e, sw)" r "(s', w')"] assms 1
  show ?thesis
    unfolding eio_turn_lift eio_client_poll_react
    by (auto split: outcome.splits option.splits elim!: ques.elims)
qed

lemma sio_turn_lift:
  "sio_turn X g = lift_turn (on_engine (eio_turn X g)) (\<lambda>ep sw.
       if packet_id ep = Message \<or> packet_id ep = MessageBinary
       then ques (sio_handle_engineio_packet X ep sw) (\<lambda>p (s, w).
              (Ok (Item p), sio_handle_socketio_packet p s, w))
       else (Ok Again, sw)) (\<lambda>e sw. (Err e, sw))" (is "_ = lift_turn ?t ?h ?f")
proof
  fix sw
  show "sio_turn X g sw = lift_turn ?t ?h ?f sw"
    by (cases "?t sw"; cases "fst (?t sw)") (auto simp: sio_turn_def lift_turn_def split: turn.split)
qed

lemma sio_poll_loop_polls:
  "sio_poll_loop n X (s, w) = (r, s', w') \<Longrightarrow> r \<noteq> Hang \<Longrightarrow>
   polls (\<lambda>s. es_connected (ss_engine s)) (sio_turn X (eio_one X)) (s, w) r (s', w')"
proof (induction n arbitrary: s w)
  case (Suc n)
  let ?C = "\<lambda>s. es_connected (ss_engine s)"
  obtain r1 e1 w1 where 1: "eio_client_poll X (ss_engine s, w) = (r1, e1, w1)"
    by (cases "eio_client_poll X (ss_engine s, w)") auto
  let ?s = "s\<lparr>ss_engine := e1\<rparr>" and ?r = "map_err SioIncompleteResponseFromEngineIo r1"
  have e: "on_engine (eio_client_poll X) (s, w) = (?r, ?s, w1)" by (simp add: on_engine_def 1)
  with Suc.prems have "?r \<noteq> Hang" by auto
  then have "r1 \<noteq> Hang" by auto
  from polls_on_engine [OF eio_client_poll_polls [OF 1 this], of s w]
  have p: "polls ?C (on_engine (eio_turn X (eio_one X))) (s, w) ?r (?s, w1)" by simp
  note lift = lift_polls [OF p, where h = "\<lambda>ep sw.
       if packet_id ep = Message \<or> packet_id ep = MessageBinary
       then ques (sio_handle_engineio_packet X ep sw) (\<lambda>p (s, w).
              (Ok (Item p), sio_handle_socketio_packet p s, w))
       else (Ok Again, sw)" and f = "\<lambda>e sw. (Err e, sw)", of r "(s', w')", folded sio_turn_lift]
  show ?case
  proof (cases "\<exists>ep. r1 = Ok (Some ep)")
    case True
    then obtain ep where ep: "r1 = Ok (Some ep)" by blast
    show ?thesis
    proof (cases "packet_id ep = Message \<or> packet_id ep = MessageBinary")
      case True
      obtain r2 s2 w2 where 2: "sio_handle_engineio_packet X ep (?s, w1) = (r2, s2, w2)"
        by (cases "sio_handle_engineio_packet X ep (?s, w1)") auto
      with lift ep True Suc.prems e show ?thesis by (cases r2) auto
    next
      case False
      with Suc.prems(1) e ep have "sio_poll_loop n X (?s, w1) = (r, s', w')" by simp
      with Suc.IH Suc.prems(2) lift ep False show ?thesis by auto
    qed
  next
    case False
    with lift Suc.prems e show ?thesis by (cases r1) auto
  qed
qed simp

lemma raw_turn_lift:
  "raw_turn X g = lift_turn (on_sio (sio_turn X g))
     (\<lambda>p cw. if pkt_nsp p = rc_nsp (fst cw)
        then ques (raw_handle_socketio_packet X p cw) (\<lambda>_ cw. (Ok (Item p), cw)) else (Ok Again, cw))
     (\<lambda>e cw. ques (report_error X e cw) (\<lambda>_ cw. (Err e, cw)))" (is "_ = lift_turn ?t ?h ?f")
proof
  fix sw
  show "raw_turn X g sw = lift_turn ?t ?h ?f sw"
    by (cases "?t sw"; cases "fst (?t sw)") (auto simp: raw_turn_def lift_turn_def split: turn.split)
qed

lemma raw_poll_loop_polls:
  "raw_poll_loop n X (c, w) = (r, c', w') \<Longrightarrow> r \<noteq> Hang \<Longrightarrow>
   polls (\<lambda>c. es_connected (ss_engine (rc_socket c))) (raw_turn X (eio_one X)) (c, w) r (c', w')"
proof (induction n arbitrary: c w)
  case (Suc n)
  let ?C = "\<lambda>c. es_connected (ss_engine (rc_socket c))"
  obtain r1 s1 w1 where 1: "sio_socket_poll X (rc_socket c, w) = (r1, s1, w1)"
    by (cases "sio_socket_poll X (rc_socket c, w)") auto
  let ?c = "c\<lparr>rc_socket := s1\<rparr>"
  have s: "on_sio (sio_socket_poll X) (c, w) = (r1, ?c, w1)" by (simp add: on_sio_def 1)
  with Suc.prems have "r1 \<noteq> Hang" by auto
  from polls_on_sio [OF sio_poll_loop_polls [OF 1 [unfolded sio_socket_poll_def] this], of c w]
  have p: "polls ?C (on_sio (sio_turn X (eio_one X))) (c, w) r1 (?c, w1)" by simp
  note lift = lift_polls [OF p, where h = "\<lambda>p cw. if pkt_nsp p = rc_nsp (fst cw)
        then ques (raw_handle_socketio_packet X p cw) (\<lambda>_ cw. (Ok (Item p), cw)) else (Ok Again, cw)"
      and f = "\<lambda>e cw. ques (report_error X e cw) (\<lambda>_ cw. (Err e, cw))", of r "(c', w')", folded raw_turn_lift]
  consider (over) "r1 = Ok None" | (packet) q where "r1 = Ok (Some q)" | (err) e where "r1 = Err e" | (panic) "r1 = Panic"
    using \<open>r1 \<noteq> Hang\<close> by (cases r1) auto
  then show ?case
  proof cases
    case (packet q)
    show ?thesis
    proof (cases "pkt_nsp q = rc_nsp c")
      case True
      obtain r2 c2 w2 where 2: "raw_handle_socketio_packet X q (?c, w1) = (r2, c2, w2)"
        by (cases "raw_handle_socketio_packet X q (?c, w1)") auto
      with lift packet True Suc.prems s show ?thesis by (cases r2) auto
    next
      case False
      with Suc.prems(1) s packet have "raw_poll_loop n X (?c, w1) = (r, c', w')" by simp
      with Suc.IH Suc.prems(2) lift packet False show ?thesis by auto
    qed
  next
    case (err e)
    obtain r2 c2 w2 where 2: "report_error X e (?c, w1) = (r2, c2, w2)" by (cases "report_error X e (?c, w1)") auto
    with lift err Suc.prems s show ?thesis by (cases r2) auto
  qed (use lift Suc.prems s in auto)
qed simp


subsection \<open>A whole turn of the thread is a run of its parts\<close>

lemma raw_turn_cong:
  assumes "g (ss_engine (rc_socket c), w) = g' (ss_engine (rc_socket c), w)"
  shows "raw_turn X g (c, w) = raw_turn X g' (c, w)"
  using assms by (simp add: raw_turn_def on_sio_def sio_turn_def on_engine_def eio_turn_def)

lemma poller_turn_cong:
  assumes "g (ss_engine (rc_socket (cl_client k)), w) = g' (ss_engine (rc_socket (cl_client k)), w)"
  shows "poller_turn X g (k, w) = poller_turn X g' (k, w)"
  using raw_turn_cong [of g "cl_client k" w g' X] assms by (simp add: poller_turn_def on_raw_def)

lemma polling_reaches_turn:
  assumes "es_connected (ss_engine (rc_socket (cl_client k)))"
    and "threads_reach X (poller_turn X (eio_one X) (k, w)) u"
  shows "threads_reach X (Iterating, k, w) u"
proof -
  let ?s = "ss_engine (rc_socket (cl_client k))"
  show ?thesis
  proof (cases "\<exists>p rest. map_option eio_iter_next (es_remaining ?s) = Some (Some p, rest)")
    case True
    then obtain p rest where p: "map_option eio_iter_next (es_remaining ?s) = Some (Some p, rest)" by blast
    then have "eio_one X (?s, w) = (Ok (Item p), ?s\<lparr>es_remaining := Some rest\<rparr>, w)" by (auto simp: eio_one_def)
    then have "poller_turn X (eio_one X) (k, w) =
        poller_turn X (\<lambda>(s, w). (Ok (Item p), s\<lparr>es_remaining := Some rest\<rparr>, w)) (k, w)"
      by (intro poller_turn_cong) simp
    with p assms have "poller_step X Iterating (k, w) = poller_turn X (eio_one X) (k, w)"
      by (auto simp: Let_def)
    with assms(2) show ?thesis by (intro threads_reach_poller)
  next
    case False
    obtain ms where ms: "eio_time_to_next_ping (?s, w) = Ok ms" using eio_time_to_next_ping_Ok by blast
    have "eio_one X (?s, w) = eio_answer X (now w + unat ms) (?s, w)"
      using False ms by (auto simp: eio_one_def split: option.split prod.split)
    then have "poller_turn X (eio_one X) (k, w) = poller_turn X (eio_answer X (now w + unat ms)) (k, w)"
      by (rule poller_turn_cong)
    with assms(2) have "threads_reach X (Waiting (now w + unat ms), k, w) u"
      by (intro threads_reach_poller) auto
    moreover have "poller_step X Iterating (k, w) = (Waiting (now w + unat ms), k, w)"
      using False ms assms(1) by (auto simp: Let_def split: option.split prod.split)
    ultimately show ?thesis by (intro threads_reach_poller)
  qed
qed

text \<open>Where the thread is after \<open>poll\<close>.\<close>

fun after_poll :: "sio_client \<Rightarrow> (sio_error, sio_packet option) outcome \<Rightarrow> poller" where
  "after_poll k (Ok None) = after_item k (Inl SioStoppedEngineIoSocket)"
| "after_poll k (Ok (Some p)) = after_item k (Inr p)"
| "after_poll k (Err e) = after_item k (Inl e)"
| "after_poll k Panic = Dead"
| "after_poll k Hang = Stuck"

lemma after_item_client [simp]: "after_item (k\<lparr>cl_client := c\<rparr>) i = after_item k i"
  by (simp add: after_item_def)

lemma polls_reach:
  "polls (\<lambda>c. es_connected (ss_engine (rc_socket c))) (raw_turn X (eio_one X)) cw r cw' \<Longrightarrow>
   threads_reach X (Iterating, k\<lparr>cl_client := fst cw\<rparr>, snd cw) (after_poll k r, k\<lparr>cl_client := fst cw'\<rparr>, snd cw')"
proof (induction rule: polls.induct)
  case (over c w)
  then show ?case by (auto intro: threads_reach_poller)
qed (auto simp: poller_turn_def on_raw_def case_prod_beta intro!: polling_reaches_turn)

text \<open>Where the thread is after a part of it that answers with \<open>r\<close>.\<close>

fun thread_after :: "('e, 'a) outcome \<Rightarrow> poller" where
  "thread_after (Ok a) = Iterating"
| "thread_after (Err e) = Iterating"
| "thread_after Panic = Dead"
| "thread_after Hang = Stuck"

lemma back_off_reaches:
  assumes "threads_reach X (Connecting j, back_off X (k, w)) u"
    and "poller_step X (Asking i) (k, w) = (case next_backoff X (cl_backoffs k) of
           Some ms \<Rightarrow> Sleeping j ms (now w + ms) | None \<Rightarrow> Connecting j, k\<lparr>cl_backoffs := cl_backoffs k + 1\<rparr>, w)"
  shows "threads_reach X (Asking i, k, w) u"
proof (cases "next_backoff X (cl_backoffs k)")
  case None
  with assms show ?thesis by (intro threads_reach_poller [OF assms(2)]) (simp add: back_off_def)
next
  case (Some ms)
  let ?k = "k\<lparr>cl_backoffs := cl_backoffs k + 1\<rparr>"
  have "threads_reach X (Sleeping j ms (now w + ms), ?k, w\<lparr>now := now w + ms\<rparr>) u"
    using assms(1) Some by (intro threads_reach_poller [OF refl]) (simp add: back_off_def sleep_ms_def)
  then have "threads_reach X (Sleeping j ms (now w + ms), ?k, w) u" by (rule threads_reach_wait)
  with Some show ?thesis by (intro threads_reach_poller [OF assms(2)]) simp
qed

lemma reconnect_loop_reaches:
  "reconnect_loop n X mx i (k, w) = (r, k', w') \<Longrightarrow> r \<noteq> Hang \<Longrightarrow> sb_max_attempts (cl_builder k) = mx \<Longrightarrow>
   threads_reach X (Asking i, k, w) (thread_after r, k', w')"
proof (induction n arbitrary: i k w)
  case (Suc n)
  let ?j = "if mx \<noteq> None then i + 1 else i"
  consider (overflow) "mx \<noteq> None" "overflow_checks X" "i = 255"
    | (over) "\<not> (mx \<noteq> None \<and> overflow_checks X \<and> i = 255)" "mx \<noteq> None" "the mx < ?j"
    | (attempt) "\<not> (mx \<noteq> None \<and> overflow_checks X \<and> i = 255)" "\<not> (mx \<noteq> None \<and> the mx < ?j)" by blast
  then show ?case
  proof cases
    case overflow
    with Suc.prems show ?thesis by (intro threads_reach_poller [OF refl]) auto
  next
    case over
    with Suc.prems show ?thesis by (intro threads_reach_poller [OF refl]) (auto simp: Let_def)
  next
    case attempt
    obtain k1 w1 where 1: "back_off X (k, w) = (k1, w1)" by fastforce
    then have k1: "cl_builder k1 = cl_builder k" using back_off_fst [of X k w] by auto
    obtain r2 k2 w2 where 2: "sio_do_reconnect X (k1, w1) = (r2, k2, w2)" by (cases "sio_do_reconnect X (k1, w1)") auto
    have step: "on_return (r2, k2, w2) (\<lambda>r kw. case r of Inr _ \<Rightarrow> (Ok (), kw)
        | Inl e \<Rightarrow> reconnect_loop n X mx ?j kw) = (r, k', w')"
      using Suc.prems(1) attempt 1 2 by (simp add: Let_def split: if_splits)
    have "threads_reach X (Connecting ?j, k1, w1) (thread_after r, k', w')"
      using 2
    proof (cases rule: sio_do_reconnect_cases)
      case (1 e)
      with step have "reconnect_loop n X mx ?j (k1, w2) = (r, k', w')" by simp
      from Suc.IH [OF this Suc.prems(2)] Suc.prems(3) k1
      have "threads_reach X (Asking ?j, k1, w2) (thread_after r, k', w')" by simp
      with 1 2 show ?thesis by (intro threads_reach_poller [OF refl]) simp
    qed (use step 2 Suc.prems(2) in \<open>auto intro!: threads_reach_poller [OF refl]\<close>)
    then show ?thesis
    proof (rule back_off_reaches [of X ?j k w _ i, unfolded 1])
      show "poller_step X (Asking i) (k, w) = (case next_backoff X (cl_backoffs k) of
           Some ms \<Rightarrow> Sleeping ?j ms (now w + ms) | None \<Rightarrow> Connecting ?j, k\<lparr>cl_backoffs := cl_backoffs k + 1\<rparr>, w)"
        using attempt Suc.prems(3) by (cases mx) (auto simp: Let_def)
    qed
  qed
qed simp

lemma sio_reconnect_returns: "fst (reconnect_loop n X mx i kw) \<noteq> Err e"
proof (induction n arbitrary: i kw)
  case (Suc n)
  obtain r kw1 where "sio_do_reconnect X (back_off X kw) = (r, kw1)" by (rule prod.exhaust)
  with Suc show ?case by (cases r) (auto simp: Let_def)
qed simp

lemma leaving_reaches:
  assumes "on_return (sio_client_disconnect X (k, w)) (\<lambda>_ kw.
      on_return (sio_reconnect X kw) (\<lambda>_ kw. (Ok (), kw))) = (r, k', w')" and "r \<noteq> Hang"
  shows "threads_reach X (Leaving, k, w) (thread_after r, k', w')"
proof -
  obtain r1 k1 w1 where 1: "sio_client_disconnect X (k, w) = (r1, k1, w1)"
    by (cases "sio_client_disconnect X (k, w)") auto
  obtain r2 k2 w2 where 2: "sio_reconnect X (k1, w1) = (r2, k2, w2)" by (cases "sio_reconnect X (k1, w1)") auto
  show ?thesis
  proof (cases "returned r1")
    case True
    with assms(1) 1 2 have r: "on_return (r2, k2, w2) (\<lambda>_ kw. (Ok (), kw)) = (r, k', w')" by (cases r1) auto
    have step: "poller_step X Leaving (k, w) = (if sb_reconnect (cl_builder k1) then Asking 0 else Iterating, k1, w1)"
      using True 1 by (cases r1) simp_all
    show ?thesis
    proof (cases "sb_reconnect (cl_builder k1)")
      case True
      with 2 have loop: "reconnect_loop (loop_fuel X) X (sb_max_attempts (cl_builder k1)) 0 (k1, w1) = (r2, k2, w2)"
        by (simp add: sio_reconnect_def)
      have "r2 \<noteq> Hang" using r assms(2) by auto
      from reconnect_loop_reaches [OF loop this refl] r
      have "threads_reach X (Asking 0, k1, w1) (thread_after r, k', w')" by (cases r2) auto
      with step True show ?thesis by (intro threads_reach_poller [OF step]) simp
    next
      case False
      with r 2 step show ?thesis by (intro threads_reach_poller [OF step]) (auto simp: sio_reconnect_def)
    qed
  next
    case False
    with assms 1 show ?thesis by (intro threads_reach_poller [OF refl]) (cases r1; auto)
  qed
qed

lemma poll_step_reaches:
  assumes "poll_step X (k, w) = (r, k', w')" and "r \<noteq> Hang"
  shows "threads_reach X (Iterating, k, w) (thread_after r, k', w')"
proof -
  obtain r1 c1 w1 where 1: "raw_poll X (cl_client k, w) = (r1, c1, w1)" by (cases "raw_poll X (cl_client k, w)") auto
  let ?k = "k\<lparr>cl_client := c1\<rparr>"
  have next_item: "sio_iter_next X (k, w) = on_return (r1, ?k, w1) (\<lambda>r kw. case r of Inl e \<Rightarrow> (Ok (Inl e), kw)
      | Inr (Some p) \<Rightarrow> (Ok (Inr p), kw) | Inr None \<Rightarrow> (Ok (Inl SioStoppedEngineIoSocket), kw))"
    by (simp add: sio_iter_next_def on_raw_def 1)
  with assms have "r1 \<noteq> Hang" by (auto simp: poll_step_def)
  from polls_reach [OF raw_poll_loop_polls [OF 1 [unfolded raw_poll_def] this], of k]
  have poll: "threads_reach X (Iterating, k, w) (after_poll k r1, ?k, w1)" by simp
  show ?thesis
  proof (cases "returned r1")
    case True
    then obtain item where item: "sio_iter_next X (k, w) = (Ok item, ?k, w1)" "after_poll k r1 = after_item k item"
      using next_item by (cases r1; cases "\<exists>p. r1 = Ok (Some p)") auto
    have "threads_reach X (after_item k item, ?k, w1) (thread_after r, k', w')"
    proof (cases "should_reconnect (cl_builder k) item")
      case True
      with assms(1) item have "on_return (sio_client_disconnect X (?k, w1)) (\<lambda>_ kw.
          on_return (sio_reconnect X kw) (\<lambda>_ kw. (Ok (), kw))) = (r, k', w')" by (simp add: poll_step_def)
      from leaving_reaches [OF this assms(2)] True show ?thesis by (simp add: after_item_def)
    next
      case False
      with assms(1) item show ?thesis by (auto simp: poll_step_def after_item_def)
    qed
    with poll item(2) show ?thesis by (auto intro: threads_reach_trans)
  next
    case False
    with assms next_item poll show ?thesis by (cases r1) (auto simp: poll_step_def)
  qed
qed

text \<open>
  The two models of the thread do not contradict each other: what it does in \<open>n\<close> whole turns, each \<open>poll\<close> to
  its end and the reconnecting of it one piece, it also does cut into its parts, by itself.
\<close>

lemma poll_thread_reaches:
  assumes "poll_thread n X (k, w) = (r, k', w')" and "r \<noteq> Hang"
  shows "threads_reach X (Iterating, k, w) (thread_after r, k', w')"
  using assms(1)
proof (induction n arbitrary: k w)
  case (Suc n)
  obtain r1 k1 w1 where 1: "poll_step X (k, w) = (r1, k1, w1)" by (cases "poll_step X (k, w)") auto
  with Suc.prems assms(2) have "r1 \<noteq> Hang" by auto
  note step = poll_step_reaches [OF 1 this]
  show ?case
  proof (cases "is_ok r1")
    case True
    with Suc.prems 1 have "poll_thread n X (k1, w1) = (r, k', w')" by (cases r1) auto
    from Suc.IH [OF this] step True show ?thesis by (cases r1) (auto intro: threads_reach_trans)
  next
    case False
    with Suc.prems 1 step show ?thesis by (cases r1) auto
  qed
qed auto

subsection \<open>A server that is there again\<close>

text \<open>Every request is answered with a handshake, and websockets have ended.\<close>

definition demo_server :: ext where
  "demo_server = demo_ext\<lparr>net_http := \<lambda>n r. (0, Inr (demo_response 200 ''0x''))\<rparr>"

definition demo_leaver :: "bool \<Rightarrow> sio_client" where
  "demo_leaver b = \<lparr>cl_builder = (sio_builder_new ''http://h/'')\<lparr>sb_transport := PollingTransport, sb_reconnect := b\<rparr>,
     cl_client = demo_raw (demo_sio []) Map.empty None, cl_backoffs = 0\<rparr>"

lemma demo_server_simps [simp]:
  "net_http demo_server n r = (0, Inr (demo_response 200 ''0x''))" "quiet_users demo_server"
  "loop_fuel demo_server = 10" "b64 demo_server = letters_engine" "net_send demo_server n m = (0, Inr ())"
  "net_recv demo_server c n = (0, WsEnd)" "overflow_checks demo_server"
  by (simp_all add: demo_server_def demo_ext_def quiet_users_def)

lemma demo_server_post: "\<exists>w'. polling_emit demo_server t d bin w = (Ok (), w')"
proof -
  have "fst (polling_emit demo_server t d bin w) = Ok ()"
    by (simp add: polling_emit_result answer_def request_answer_def demo_response_def)
  then show ?thesis by (cases "polling_emit demo_server t d bin w") simp
qed

lemma demo_server_emit: "es_transport s = Polling t \<Longrightarrow> es_connected s \<Longrightarrow>
    \<exists>w'. eio_socket_emit demo_server p (s, w) = (Ok (), s, w')"
proof -
  assume t: "es_transport s = Polling t" and s: "es_connected s"
  let ?bin = "packet_id p = MessageBinary"
  obtain w' where "polling_emit demo_server t (if ?bin then data p else eio_packet_into_bytes letters_engine p) ?bin w = (Ok (), w')"
    using demo_server_post by blast
  with t s show ?thesis by (cases ?bin) (auto simp: eio_socket_emit_def Let_def)
qed

lemma demo_server_get: "\<exists>w'. polling_poll demo_server ms t w = (Ok ''0x'', w')"
  by (simp add: polling_poll_def stamped_def polling_base_url_def http_send_def demo_response_def)

lemma demo_server_build:
  "\<exists>e t w'. eio_build_polling demo_server (eio_builder_new demo_server u) w = (Ok e, w') \<and> es_transport e = Polling t \<and>
     \<not> es_connected e \<and> es_on_open e = None"
proof -
  let ?b = "eio_builder_new demo_server u"
  let ?h = "\<lparr>sid = ''x'', upgrades = [''websocket''], ping_interval = 25000, ping_timeout = 20000\<rparr>"
  have b: "cb_handshake ?b = None" "cb_headers ?b = None" "cb_on_open ?b = None"
    by (simp_all add: eio_builder_new_def Let_def optional_callback_default_def)
  have new: "polling_new demo_server v t None = Ok \<lparr>pl_url = demo_append ''transport'' ''polling'' v, pl_tls = t, pl_headers = None\<rparr>" for v t
    by (simp add: polling_new_def demo_server_def demo_ext_def)
  have p: "eio_packet_try_from letters_engine ''0x'' = Ok (eio_packet_new Open ''x'')" by code_simp
  have h: "handshake_try_from (json_handshake demo_server) (eio_packet_new Open ''x'') = Ok ?h"
    by (simp add: handshake_try_from_def demo_server_def demo_ext_def eio_packet_new_def)
  obtain w1 where g: "polling_poll demo_server DEFAULT_MAX_POLL_TIMEOUT
      \<lparr>pl_url = demo_append ''transport'' ''polling'' (cb_url ?b), pl_tls = cb_tls ?b, pl_headers = None\<rparr> w = (Ok ''0x'', w1)"
    using demo_server_get by blast
  let ?b1 = "?b\<lparr>cb_handshake := Some ?h, cb_url := url_append_pair demo_server ''sid'' ''x'' (cb_url ?b)\<rparr>"
  have "eio_handshake demo_server (?b, w) = (Ok (), ?b1, w1)"
    by (simp add: eio_handshake_def b new unwrap_headers_def eio_handshake_with_transport_def g p h)
  then show ?thesis
    by (simp add: eio_build_polling_def b unwrap_headers_def new eio_client_of_def unwrap_def eio_socket_new_def
        add_u64_def transport_from_polling_def)
qed

lemma demo_server_connects: "\<exists>c w'. sio_connect_raw demo_server (shared_builder (demo_leaver b)) w = (Ok c, w')"
proof -
  let ?b = "shared_builder (demo_leaver b)"
  have b: "sb_transport ?b = PollingTransport" "sb_tls ?b = None" "sb_headers ?b = None" "sb_namespace ?b = ''/''" "sb_auth ?b = None"
    "sb_address ?b = ''http://h/''"
    by (simp_all add: shared_builder_def demo_leaver_def sio_builder_new_def)
  have u: "url_parse demo_server v = Inr v" for v by (simp add: demo_server_def demo_ext_def)
  let ?u = "socketio_url demo_server ''http://h/''"
  obtain e t w1 where e: "eio_build_polling demo_server (eio_builder_new demo_server ?u) w = (Ok e, w1)"
    "es_transport e = Polling t" "es_on_open e = None" using demo_server_build by metis
  have built: "build_engine demo_server (sb_transport ?b) (engine_builder_of demo_server ?b ''http://h/'') w = (Ok e, w1)"
    using e(1) by (simp add: build_engine_def engine_builder_of_def b Let_def)
  let ?e = "e\<lparr>es_connected := True, es_last_ping := now w1\<rparr>"
  obtain w2 where pong: "eio_socket_emit demo_server (eio_packet_new Pong '''') (?e, w1) = (Ok (), ?e, w2)"
    using demo_server_emit [of ?e t] e(2) by auto
  let ?s = "\<lparr>ss_engine = ?e, ss_connected = True\<rparr>"
  have con: "sio_socket_connect demo_server (\<lparr>ss_engine = e, ss_connected = False\<rparr>, w1) = (Ok (), ?s, w2)"
    using pong e(3) by (simp add: sio_socket_connect_def on_engine_def eio_client_connect_def eio_socket_connect_def Let_def call_opt_def)
  obtain bs where bs: "sio_packet_into_bytes True (sio_packet_new Connect ''/'' None None 0 None) = Ok bs"
    by (simp add: sio_packet_into_bytes_def sio_packet_body_def sio_packet_new_def is_binary_type_def last_attachment_def)
  obtain w3 where msg: "eio_socket_emit demo_server (eio_packet_new Message bs) (?e, w2) = (Ok (), ?e, w3)"
    using demo_server_emit [of ?e t] e(2) by auto
  have "sio_socket_send demo_server (sio_packet_new Connect ''/'' None None 0 None) (?s, w2) = (Ok (), ?s, w3)"
    using bs msg by (simp add: sio_socket_send_def on_engine_def eio_client_emit_def sio_packet_new_def)
  with con built show ?thesis
    by (simp add: sio_connect_raw_def u b sio_socket_new_def raw_client_new_def raw_connect_def on_sio_def err_into_def Let_def)
qed

lemma demo_leaves:
  "\<exists>k1 w1. call_client demo_server CallDisconnect (demo_leaver b, w) = (Ok (), k1, w1) \<and>
     es_transport (ss_engine (rc_socket (cl_client k1))) = Websocket demo_ws \<and>
     cl_builder k1 = cl_builder (demo_leaver b) \<and> shared_builder k1 = shared_builder (demo_leaver b)"
proof -
  let ?c = "demo_raw (demo_sio []) Map.empty None" and ?p = "sio_packet_new Disconnect ''/'' None None 0 None"
  let ?e = "ss_engine (demo_sio [])"
  obtain bs where bs: "sio_packet_into_bytes True ?p = Ok bs"
    by (simp add: sio_packet_into_bytes_def sio_packet_body_def sio_packet_new_def is_binary_type_def last_attachment_def)
  obtain r w1 where m: "eio_socket_emit demo_server (eio_packet_new Message bs) (?e, w) = (r, ?e, w1)" "returned r"
    using eio_socket_emit_frame(1,3) [of demo_server "eio_packet_new Message bs" ?e w] by (metis prod.collapse)
  obtain r1 where send: "sio_socket_send demo_server ?p (demo_sio [], w) = (r1, demo_sio [], w1)" "returned r1"
    using bs m by (cases r) (auto simp: sio_socket_send_def on_engine_def eio_client_emit_def sio_packet_new_def demo_sio_def)
  obtain w2 where d: "eio_socket_disconnect demo_server (?e, w1) = (Ok (), ?e\<lparr>es_connected := False\<rparr>, w2)"
    using eio_socket_disconnect_frame by blast
  let ?c1 = "?c\<lparr>rc_socket := \<lparr>ss_engine = ?e\<lparr>es_connected := False\<rparr>, ss_connected = False\<rparr>\<rparr>"
  have disc: "sio_socket_disconnect demo_server (demo_sio [], w1) = (Ok (), rc_socket ?c1, w2)"
    using d by (simp add: sio_socket_disconnect_def on_engine_def eio_client_disconnect_def demo_sio_def)
  obtain w3 where "raw_callback_close f demo_server reason ep (?c1, w2) = (Ok (), ?c1, w3)" for f reason ep
    by (rule that) (simp add: raw_callback_close_quiet demo_raw_def call_opt_def)
  then have "raw_disconnect_at (Suc 9) demo_server (?c, w) = (Ok (), ?c1, w3)"
    unfolding raw_disconnect_at.simps using send disc by (cases r1) (auto simp: Let_def on_sio_def demo_raw_def)
  then have "raw_disconnect demo_server (?c, w) = (Ok (), ?c1, w3)" by (simp add: raw_disconnect_def)
  then show ?thesis
    by (simp add: sio_client_disconnect_def on_raw_def demo_leaver_def demo_sio_def shared_builder_def demo_raw_def)
qed

lemma demo_server_lost: "\<exists>e w'. transport_poll demo_server ms (Websocket demo_ws) w = (Err e, w')"
  by (simp add: ws_poll_def async_ws_poll_next_def ws_general_poll_next_def ws_poll_loop_Suc ws_recv_def
      past_def eval_nat_numeral in_time_def split: timed.split)

end
