(* ===== verification/Sio_Client_Sessions.thy ===== *)
theory Sio_Client_Sessions
  imports Sio_Client_Threads
begin

text \<open>
  The sessions of \<open>socketio/src/client/client.rs\<close> under the interleaving of \<open>Sio_Client_Threads\<close>: what
  the threads keep of the client, when a disconnect of the user is final, and when it is undone.
\<close>

subsection \<open>What is closed stays closed\<close>

text \<open>\<open>shut C f\<close>: however \<open>f\<close> ends, where \<open>C\<close> did not hold it does not hold.\<close>

definition shut :: "('s \<Rightarrow> bool) \<Rightarrow> ('s \<times> world \<Rightarrow> 'r \<times> 's \<times> world) \<Rightarrow> bool" where
  "shut C f \<longleftrightarrow> (\<forall>s w. \<not> C s \<longrightarrow> \<not> C (fst (snd (f (s, w)))))"

named_theorems shut_rules

lemma shutI: "(\<And>s w r s' w'. \<not> C s \<Longrightarrow> f (s, w) = (r, s', w') \<Longrightarrow> \<not> C s') \<Longrightarrow> shut C f"
  unfolding shut_def by (metis prod.collapse)

lemma shutD: "shut C f \<Longrightarrow> f (s, w) = (r, s', w') \<Longrightarrow> \<not> C s \<Longrightarrow> \<not> C s'"
  unfolding shut_def by (metis fst_conv snd_conv)

lemma shut_same [shut_rules]: "shut C (\<lambda>sw. (r, sw))" "shut C (Pair r)"
  by (simp_all add: shut_def)

lemma shut_ques [shut_rules]:
  assumes "shut C f" and "\<And>a. shut C (g a)" shows "shut C (\<lambda>sw. ques (f sw) g)"
proof (rule shutI)
  fix s w r s' w'
  assume "\<not> C s" and q: "ques (f (s, w)) g = (r, s', w')"
  obtain r1 s1 w1 where f: "f (s, w) = (r1, s1, w1)" by (cases "f (s, w)") auto
  from shutD [OF assms(1) f \<open>\<not> C s\<close>] q f shutD [OF assms(2)] show "\<not> C s'"
    by (cases r1) auto
qed

lemma shut_on_return [shut_rules]:
  assumes "shut C f" and "\<And>a. shut C (g a)" shows "shut C (\<lambda>sw. on_return (f sw) g)"
proof (rule shutI)
  fix s w r s' w'
  assume "\<not> C s" and q: "on_return (f (s, w)) g = (r, s', w')"
  obtain r1 s1 w1 where f: "f (s, w) = (r1, s1, w1)" by (cases "f (s, w)") auto
  from shutD [OF assms(1) f \<open>\<not> C s\<close>] q f shutD [OF assms(2)] show "\<not> C s'"
    by (cases r1) auto
qed

lemma shut_if [shut_rules]: "shut C f \<Longrightarrow> shut C g \<Longrightarrow> shut C (\<lambda>sw. if P then f sw else g sw)"
  by (cases P) simp_all

lemma shut_lift_turn: "shut C t \<Longrightarrow> (\<And>a. shut C (h a)) \<Longrightarrow> (\<And>e. shut C (f e)) \<Longrightarrow> shut C (lift_turn t h f)"
proof -
  assume t: "shut C t" and "\<And>a. shut C (h a)" "\<And>e. shut C (f e)"
  then have "shut C (\<lambda>sw. case r of Inl e \<Rightarrow> f e sw | Inr Again \<Rightarrow> (Ok Again, sw) | Inr (Item a) \<Rightarrow> h a sw)" for r
    by (cases r; cases "projr r") (auto simp: shut_same)
  from shut_on_return [OF t this] show ?thesis by (simp add: lift_turn_def [abs_def])
qed

lemma shut_eio_answer [shut_rules]: "shut es_connected (eio_answer X dl)"
  by (rule shutI) (auto simp: eio_answer_def elim!: ques.elims split: prod.splits outcome.splits if_splits option.splits)

lemma shut_eio_react [shut_rules]: "shut es_connected (eio_client_react X p)"
proof (rule shutI)
  fix s w r s' w'
  assume s: "\<not> es_connected s" and r: "eio_client_react X p (s, w) = (r, s', w')"
  show "\<not> es_connected s'"
  proof (cases "packet_id p")
    case Ping
    let ?s = "s\<lparr>es_last_ping := now (call_opt (es_on_packet s) (ArgPacket p) w)\<rparr>"
    from s have "\<not> es_connected ?s" by simp
    from eio_socket_emit_closed [OF this] s r Ping show ?thesis
      by (auto simp: eio_client_react_def Let_def eio_handle_packet_def eio_socket_pinged_def eio_client_emit_def)
  qed (use s r in \<open>auto simp: eio_client_react_def eio_handle_packet_def eio_handle_data_def eio_handle_close_def\<close>)
qed

lemma shut_on_engine [shut_rules]: "shut es_connected f \<Longrightarrow> shut (\<lambda>s. es_connected (ss_engine s)) (on_engine f)"
  by (rule shutI) (auto simp: on_engine_def split: prod.splits dest: shutD)

lemma shut_eio_turn: "shut es_connected g \<Longrightarrow> shut es_connected (eio_turn X g)"
  unfolding eio_turn_lift by (intro shut_lift_turn shut_rules)

text \<open>A closed engine gives no attachment.\<close>

lemma shut_sio_handle [shut_rules]: "shut (\<lambda>s. es_connected (ss_engine s)) (sio_handle_engineio_packet X ep)"
proof (rule shutI)
  fix s w r s' w'
  assume s: "\<not> es_connected (ss_engine s)" and r: "sio_handle_engineio_packet X ep (s, w) = (r, s', w')"
  have poll: "fst (snd (on_engine (eio_client_poll X) (s, v))) = s \<and>
      (case fst (on_engine (eio_client_poll X) (s, v)) of Ok (Some p) \<Rightarrow> False | _ \<Rightarrow> True)" for v
    using s by (cases "loop_fuel X") (simp_all add: on_engine_def eio_client_poll_def eio_socket_poll_def)
  have "fst (snd (sio_read_attachments n X as (s, v))) = s" for n as v
  proof (cases n)
    case (Suc m)
    obtain r1 s1 v1 where "on_engine (eio_client_poll X) (s, v) = (r1, s1, v1)"
      by (cases "on_engine (eio_client_poll X) (s, v)") auto
    with Suc poll [of v] show ?thesis by (cases r1) (auto split: option.splits)
  qed simp
  then have *: "sio_read_attachments n X as (s, v) = (r, s1, v1) \<Longrightarrow> s1 = s" for n as v r s1 v1
    by (metis fst_conv snd_conv)
  show "\<not> es_connected (ss_engine s')"
  proof (cases "sio_packet_try_from (json X) (data ep)")
    case (Ok q)
    obtain r1 s1 w1 where 1: "sio_read_attachments (unat (attachment_count q)) X [] (s, w) = (r1, s1, w1)"
      by (cases "sio_read_attachments (unat (attachment_count q)) X [] (s, w)") auto
    with * have "s1 = s" by blast
    with r s Ok 1 show ?thesis by (cases r1) (auto simp: sio_handle_engineio_packet_def split: if_splits)
  qed (use r s in \<open>auto simp: sio_handle_engineio_packet_def\<close>)
qed

lemma shut_sio_turn: "shut es_connected g \<Longrightarrow> shut (\<lambda>s. es_connected (ss_engine s)) (sio_turn X g)"
proof -
  assume g: "shut es_connected g"
  have p: "shut (\<lambda>s. es_connected (ss_engine s)) (\<lambda>(s, w). (Ok (Item p), sio_handle_socketio_packet p s, w))" for p
    by (rule shutI) (auto simp: sio_handle_socketio_packet_def split: sio_packet_id.splits)
  show ?thesis
    unfolding sio_turn_lift by (intro shut_lift_turn shut_on_engine shut_eio_turn g p shut_rules)
qed

text \<open>Closed, in the session \<open>e\<close>.\<close>

definition closed_in :: "u64 \<Rightarrow> raw_client \<Rightarrow> bool" where
  "closed_in e c \<longleftrightarrow> \<not> es_connected (ss_engine (rc_socket c)) \<and> rc_epoch c = e"

lemma shut_framed [shut_rules]: "framed f \<Longrightarrow> shut (\<lambda>c. \<not> closed_in e c) f"
  by (rule shutI) (auto simp: closed_in_def steady_def dest: framedD(1))

lemma shut_on_sio: "shut (\<lambda>s. es_connected (ss_engine s)) f \<Longrightarrow> shut (\<lambda>c. \<not> closed_in e c) (on_sio f)"
  by (rule shutI) (auto simp: closed_in_def on_sio_def split: prod.splits dest: shutD)

lemma shut_raw_turn: "shut es_connected g \<Longrightarrow> shut (\<lambda>c. \<not> closed_in e c) (raw_turn X g)"
proof -
  assume g: "shut es_connected g"
  have "shut (\<lambda>c. \<not> closed_in e c) (\<lambda>cw. if pkt_nsp p = rc_nsp (fst cw)
      then ques (raw_handle_socketio_packet X p cw) (\<lambda>_ cw. (Ok (Item p), cw)) else (Ok Again, cw))" for p
  proof (rule shutI)
    fix c w and r :: "(sio_error, sio_packet turn) outcome" and c' w'
    assume c: "\<not> \<not> closed_in e c" and r: "(if pkt_nsp p = rc_nsp (fst (c, w))
      then ques (raw_handle_socketio_packet X p (c, w)) (\<lambda>_ cw. (Ok (Item p), cw)) else (Ok Again, c, w)) = (r, c', w')"
    have "shut (\<lambda>c. \<not> closed_in e c) (\<lambda>cw. ques (raw_handle_socketio_packet X p cw) (\<lambda>_ cw. (Ok (Item p), cw)))"
      by (intro shut_rules framed_raw_handle_socketio_packet)
    from shutD [OF this, of c w r c' w'] c r show "\<not> \<not> closed_in e c'" by (auto split: if_splits)
  qed
  then show ?thesis
    unfolding raw_turn_lift by (intro shut_lift_turn shut_on_sio shut_sio_turn g) (auto intro!: shut_rules)
qed

lemma poller_turn_closed:
  assumes "poller_turn X g (k, w) = (p, k', w')" and "shut es_connected g" and "closed_in e (cl_client k)"
  shows "closed_in e (cl_client k') \<and> cl_builder k' = cl_builder k \<and>
    (p = Dead \<or> p = Stuck \<or> p = Iterating \<or> p = Leaving)"
proof -
  obtain r c1 w1 where r: "raw_turn X g (cl_client k, w) = (r, c1, w1)"
    by (cases "raw_turn X g (cl_client k, w)") auto
  from shutD [OF shut_raw_turn [OF assms(2)] this, of e] assms(3) have "closed_in e c1" by simp
  with assms(1) r show ?thesis
    by (cases r; cases "\<exists>p. r = Ok (Item p)")
      (auto simp: poller_turn_def on_raw_def after_item_def split: turn.splits)
qed

text \<open>The thread is not reconnecting, and is not about to with this builder.\<close>

fun parked :: "sio_builder \<Rightarrow> poller \<Rightarrow> bool" where
  "parked b Iterating = True"
| "parked b (Waiting dl) = (\<not> sb_reconnect b)"
| "parked b Leaving = (\<not> sb_reconnect b)"
| "parked b (Asking i) = False"
| "parked b (Sleeping i ms t) = False"
| "parked b (Connecting i) = False"
| "parked b Dead = True"
| "parked b Stuck = True"

lemma parked_address [simp]: "parked (b\<lparr>sb_address := a\<rparr>) p = parked b p"
  by (cases p) simp_all

lemma call_client_closed:
  assumes "call_client X c (k, w) = (r, k', w')" and "closed_in e (cl_client k)"
  shows "closed_in e (cl_client k') \<and> (cl_builder k' = cl_builder k \<or>
    (\<exists>a. cl_builder k' = (cl_builder k)\<lparr>sb_address := a\<rparr>))"
proof -
  have "closed_in e (cl_client k') \<and> cl_builder k' = cl_builder k"
    if "on_raw f (k, w) = (r, k', w')" and "framed f" for f
  proof -
    obtain r1 c1 w1 where f: "f (cl_client k, w) = (r1, c1, w1)" by (cases "f (cl_client k, w)") auto
    with that(1) have "k' = k\<lparr>cl_client := c1\<rparr>" by (simp add: on_raw_def)
    with shutD [OF shut_framed [OF that(2)] f, of e] assms(2) show ?thesis by simp
  qed
  with assms show ?thesis
    by (cases c) (auto simp: sio_client_emit_def sio_client_emit_with_ack_def sio_client_disconnect_def
      sio_client_set_reconnect_url_def)
qed

lemma poller_step_closed:
  assumes "poller_step X p (k, w) = (p', k', w')" and "closed_in e (cl_client k)" and "parked (cl_builder k) p"
  shows "closed_in e (cl_client k') \<and> cl_builder k' = cl_builder k \<and> parked (cl_builder k') p'"
proof (cases p)
  case Iterating
  with assms show ?thesis by (auto simp: closed_in_def after_item_def)
next
  case (Waiting dl)
  with assms poller_turn_closed [of X "eio_answer X dl" k w p' k' w' e] shut_eio_answer show ?thesis by auto
next
  case Leaving
  obtain r k1 w1 where 1: "sio_client_disconnect X (k, w) = (r, k1, w1)"
    by (cases "sio_client_disconnect X (k, w)") auto
  have "closed_in e (cl_client k1)" using call_client_closed [of X CallDisconnect k w r k1 w1 e] assms(2) 1 by simp
  moreover have "cl_builder k1 = cl_builder k"
    using 1 by (auto simp: sio_client_disconnect_def on_raw_def split: prod.splits)
  ultimately show ?thesis using assms Leaving 1 by (cases r) auto
qed (use assms in auto)

lemma threads_closed:
  assumes "threads_reach X (p, k, w) (p', k', w')" and "closed_in e (cl_client k)" and "parked (cl_builder k) p"
  shows "closed_in e (cl_client k') \<and> parked (cl_builder k') p'"
proof -
  have "closed_in e (cl_client (fst (snd t))) \<and> parked (cl_builder (fst (snd t))) (fst t)"
    if "threads_reach X (p, k, w) t" for t
    using that unfolding threads_reach_def
  proof (induction rule: rtranclp_induct)
    case (step t u)
    from step.hyps(2) show ?case
    proof cases
      case (poller p k w p' k' w')
      with step.IH poller_step_closed [of X p k w p' k' w' e] show ?thesis by auto
    next
      case (user c k w r k' w' p)
      with step.IH call_client_closed [of X c k w r k' w' e] show ?thesis by auto
    qed (use step.IH in simp)
  qed (use assms(2,3) in simp)
  from this [OF assms(1)] show ?thesis by simp
qed

lemma raw_disconnect_closes_engine:
  assumes "raw_disconnect X (c, w) = (r, c', w')" and "returned r"
  shows "closed_in (rc_epoch c) c'"
proof (cases "loop_fuel X")
  case (Suc m)
  let ?p = "sio_packet_new Disconnect (rc_nsp c) None None 0 None"
  obtain r1 c1 w1 where s: "on_sio (sio_socket_send X ?p) (c, w) = (r1, c1, w1)"
    by (cases "on_sio (sio_socket_send X ?p) (c, w)") auto
  with assms Suc have r1: "returned r1" by (cases r1) (auto simp: raw_disconnect_def Let_def)
  obtain s2 w2 where d: "sio_socket_disconnect X (rc_socket c1, w1) = (Ok (), s2, w2)"
    "\<not> es_connected (ss_engine s2)" using sio_disconnect_frame [of X "rc_socket c1" w1] by blast
  have "raw_callback_close (raw_disconnect_at m X) X (close_reason_as_str IOClientDisconnect)
      (rc_epoch c1) (c1\<lparr>rc_socket := s2\<rparr>, w2) = (r, c', w')"
    using assms(1) s d Suc r1 by (cases r1) (auto simp: raw_disconnect_def Let_def on_sio_def)
  from framedD(1) [OF framed_raw_callback_close [OF framed_raw_disconnect_at] this] d on_sio_send_frame(1) [OF s]
  show ?thesis by (simp add: closed_in_def steady_def)
qed (use assms in \<open>auto simp: raw_disconnect_def\<close>)

text \<open>
  C18. A disconnect of the user is final when reconnecting is off, whatever the polling thread was doing (it
  then makes no attempts to reconnect, so it was at the head of its loop, waiting for the transport or
  leaving a session that had ended). With reconnecting on it is final if the thread was at the head of
  its loop just then, or had died or was stuck; a thread that waits for the transport, leaves an ended
  session, or is between its attempts to reconnect is not covered, and there the disconnect can be
  undone (\<open>disconnect_undone\<close>). Where it is final: however the two threads go on, the engine stays
  closed, no session follows, and every later \<open>emit\<close> is refused.
\<close>

theorem disconnect_final:
  assumes "call_client X CallDisconnect (k, w) = (r, k1, w1)" and "returned r" and "parked (cl_builder k) p"
    and "threads_reach X (p, k1, w1) (p2, k2, w2)"
  shows "parked (cl_builder k2) p2 \<and> \<not> es_connected (ss_engine (rc_socket (cl_client k2))) \<and>
    sio_client_session_epoch k2 = sio_client_session_epoch k \<and>
    call_client X (CallEmit e d) (k2, w2) = (Err SioIllegalActionBeforeOpen, k2, w2)"
proof -
  obtain c1 where c1: "raw_disconnect X (cl_client k, w) = (r, c1, w1)" "k1 = k\<lparr>cl_client := c1\<rparr>"
    using assms(1) by (auto simp: sio_client_disconnect_def on_raw_def split: prod.splits)
  from raw_disconnect_closes_engine [OF c1(1) assms(2)] c1(2) assms(3)
  have "closed_in (rc_epoch (cl_client k)) (cl_client k1)" "parked (cl_builder k1) p" by simp_all
  from threads_closed [OF assms(4) this]
  have k2: "closed_in (rc_epoch (cl_client k)) (cl_client k2)" "parked (cl_builder k2) p2" by simp_all
  then have "raw_emit X e d (cl_client k2, w2) = (Err SioIllegalActionBeforeOpen, cl_client k2, w2)"
    by (intro raw_emit_closed) (simp add: closed_in_def sio_is_open_def)
  with k2 show ?thesis
    by (simp add: sio_client_emit_def on_raw_def closed_in_def sio_client_session_epoch_def)
qed

subsection \<open>A disconnect that is undone\<close>

lemma sio_connect_open:
  assumes "sio_socket_connect X (s, w) = (Ok (), s', w')" shows "sio_is_open s'"
proof -
  let ?e = "(ss_engine s)\<lparr>es_connected := True\<rparr>"
  let ?w = "call_opt (es_on_open ?e) ArgUnit w"
  let ?e1 = "?e\<lparr>es_last_ping := now ?w\<rparr>"
  obtain r e w1 where e: "eio_socket_emit X (eio_packet_new Pong '''') (?e1, ?w) = (r, e, w1)"
    by (cases "eio_socket_emit X (eio_packet_new Pong '''') (?e1, ?w)") auto
  have "fst (snd (eio_socket_emit X (eio_packet_new Pong '''') (?e1, ?w))) = ?e1" by (rule eio_socket_emit_frame)
  then have "e = ?e1" by (simp only: e fst_conv snd_conv)
  with e assms show ?thesis
    by (cases r) (auto simp: sio_socket_connect_def on_engine_def eio_client_connect_def eio_socket_connect_def
      Let_def sio_is_open_def)
qed

lemma sio_connect_raw_open:
  assumes "sio_connect_raw X b w = (Ok c, w')" shows "sio_is_open (rc_socket c)"
proof -
  obtain e w1 c0 w2 where c0: "raw_connect X (c0, w1) = (Ok (), c, w2)"
    using assms unfolding sio_connect_raw_def by (auto simp: raw_client_new_def split: prod.splits elim!: ques_OkE)
  obtain c1 w3 where 1: "on_sio (sio_socket_connect X) (c0, w1) = (Ok (), c1, w3)"
    using c0 unfolding raw_connect_def by (auto elim: ques_OkE)
  let ?p = "sio_packet_new Connect (rc_nsp c1) (map_option (json_to_string (json X)) (rc_auth c1)) None 0 None"
  obtain r2 c2 w4 where 2: "on_sio (sio_socket_send X ?p) (c1, w3) = (r2, c2, w4)"
    by (cases "on_sio (sio_socket_send X ?p) (c1, w3)") auto
  have "rc_socket c = rc_socket c1"
    using c0 1 2 on_sio_send_frame(1) [OF 2] by (cases r2) (auto simp: raw_connect_def Let_def)
  moreover have "sio_is_open (rc_socket c1)"
    using 1 by (auto simp: on_sio_def split: prod.splits dest: sio_connect_open)
  ultimately show ?thesis by simp
qed

lemma closed_disconnect_quiet:
  assumes "quiet_users X" and "0 < loop_fuel X" and "\<not> rc_locked c" and "\<not> es_connected (ss_engine (rc_socket c))"
  shows "\<exists>w' s. raw_disconnect X (c, w) = (Ok (), c\<lparr>rc_socket := s\<rparr>, w')"
proof -
  obtain m where m: "loop_fuel X = Suc m" using assms(2) by (cases "loop_fuel X") auto
  have s: "sio_socket_send X p (rc_socket c, w) = (Err SioIllegalActionBeforeOpen, rc_socket c, w)" for p
    using assms(4) by (intro sio_send_closed) (simp add: sio_is_open_def)
  obtain s2 w2 where "sio_socket_disconnect X (rc_socket c, w) = (Ok (), s2, w2)"
    using sio_disconnect_frame [of X "rc_socket c" w] by blast
  with m s assms(1,3) show ?thesis
    by (auto simp: raw_disconnect_def on_sio_def raw_callback_close_quiet Let_def)
qed

text \<open>Every attempt to connect succeeds.\<close>

definition in_reach :: "ext \<Rightarrow> sio_client \<Rightarrow> bool" where
  "in_reach X k \<longleftrightarrow> (\<forall>w. \<exists>c w'. sio_connect_raw X (shared_builder k) w = (Ok c, w'))"

lemma leaving_comes_back:
  assumes "quiet_users X" and "0 < loop_fuel X" and "client_ok k" and "closed_in e (cl_client k)"
    and "sb_reconnect (cl_builder k)" and "sb_max_attempts (cl_builder k) \<noteq> Some 0" and "in_reach X k"
  shows "\<exists>k' w'. threads_reach X (Leaving, k, w) (Iterating, k', w') \<and>
    sio_client_session_epoch k' = e + 1 \<and> sio_is_open (rc_socket (cl_client k'))"
proof -
  obtain s w1 where 1: "raw_disconnect X (cl_client k, w) = (Ok (), (cl_client k)\<lparr>rc_socket := s\<rparr>, w1)"
    using closed_disconnect_quiet [OF assms(1,2), of "cl_client k" w] assms(3,4)
    by (auto simp: client_ok_def closed_in_def)
  let ?k = "k\<lparr>cl_client := (cl_client k)\<lparr>rc_socket := s\<rparr>\<rparr>"
  have leave: "poller_step X Leaving (k, w) = (Asking 0, ?k, w1)"
    using 1 assms(5) by (simp add: sio_client_disconnect_def on_raw_def)
  let ?j = "if sb_max_attempts (cl_builder k) \<noteq> None then 1 else 0"
  let ?k1 = "?k\<lparr>cl_backoffs := cl_backoffs ?k + 1\<rparr>"
  obtain w2 where 2: "back_off X (?k, w1) = (?k1, w2)" using back_off_fst [of X ?k w1] by auto
  have "shared_builder ?k1 = shared_builder k" by (simp add: shared_builder_def)
  with assms(7) obtain c w3 where 3: "sio_connect_raw X (shared_builder ?k1) w2 = (Ok c, w3)"
    unfolding in_reach_def by metis
  let ?k2 = "?k1\<lparr>cl_client := c\<rparr>"
  have "poller_step X (Connecting ?j) (?k1, w2) = (Iterating, ?k2, w3)" using 3 by (simp add: sio_do_reconnect_def)
  then have connect: "threads_reach X (Connecting ?j, back_off X (?k, w1)) (Iterating, ?k2, w3)"
    unfolding 2 by (intro threads_reach_poller) auto
  have "\<not> the (sb_max_attempts (cl_builder k)) < 1" if "sb_max_attempts (cl_builder k) \<noteq> None"
    using that assms(6) by (auto simp: word_less_nat_alt unat_eq_0)
  then have "poller_step X (Asking 0) (?k, w1) = (case next_backoff X (cl_backoffs ?k) of
      Some ms \<Rightarrow> Sleeping ?j ms (now w1 + ms) | None \<Rightarrow> Connecting ?j, ?k1, w1)"
    by (cases "sb_max_attempts (cl_builder k)") (auto simp: Let_def split: option.split)
  from back_off_reaches [OF connect this] have "threads_reach X (Leaving, k, w) (Iterating, ?k2, w3)"
    by (intro threads_reach_poller [OF leave])
  moreover have "rc_epoch c = e + 1"
    using sio_connect_raw_Ok [OF 3] assms(4) by (simp add: shared_builder_def closed_in_def)
  ultimately show ?thesis using sio_connect_raw_open [OF 3] by (auto simp: sio_client_session_epoch_def)
qed

text \<open>
  C19. With reconnecting on, a disconnect of the user does not last when the polling thread was waiting
  for the transport: the server ends the connection, as it was asked to, the thread takes the error for
  a failure, and connects again. The client that was told to leave is in its next session.
\<close>

theorem disconnect_undone:
  assumes "quiet_users X" and "0 < loop_fuel X" and "client_ok k" and "in_reach X k"
    and "sb_reconnect (cl_builder k)" and "sb_max_attempts (cl_builder k) \<noteq> Some 0"
    and "call_client X CallDisconnect (k, w) = (r, k1, w1)" and "returned r"
    and "transport_poll X (of_nat (dl - now w1)) (es_transport (ss_engine (rc_socket (cl_client k1)))) w1 = (Err e, w2)"
  shows "\<not> sio_is_open (rc_socket (cl_client k1)) \<and>
    (\<exists>k2 w3. threads_reach X (Waiting dl, k1, w1) (Iterating, k2, w3) \<and>
       sio_client_session_epoch k2 = sio_client_session_epoch k + 1 \<and> sio_is_open (rc_socket (cl_client k2)))"
proof -
  obtain c1 where c1: "raw_disconnect X (cl_client k, w) = (r, c1, w1)" "k1 = k\<lparr>cl_client := c1\<rparr>"
    using assms(7) by (auto simp: sio_client_disconnect_def on_raw_def split: prod.splits)
  have t: "tables_kept (cl_client k) c1"
    using framedD(2) [OF framed_raw_disconnect c1(1) assms(8)] by (simp add: raw_frame_def)
  have closed: "closed_in (rc_epoch (cl_client k)) (cl_client k1)"
    using raw_disconnect_closes_engine [OF c1(1) assms(8)] c1(2) by simp
  have ok: "client_ok k1" "shared_builder k1 = shared_builder k"
    using assms(3) t c1(2) by (simp_all add: client_ok_def tables_kept_iff shared_builder_def)
  have turn: "eio_turn X (eio_answer X dl) (ss_engine (rc_socket c1), w1) = (Err e, ss_engine (rc_socket c1), w2)"
    using assms(9) c1(2) by (simp add: eio_turn_def eio_answer_def)
  have "\<not> rc_locked c1" using ok(1) c1(2) by (simp add: client_ok_def)
  with turn assms(1) obtain w3 where
    "raw_turn X (eio_answer X dl) (c1, w1) = (Err (SioIncompleteResponseFromEngineIo e), c1, w3)"
    by (simp add: raw_turn_def on_sio_def sio_turn_def on_engine_def report_error_def raw_callback_quiet)
  then have step: "poller_step X (Waiting dl) (k1, w1) = (Leaving, k1, w3)"
    using c1(2) by (simp add: poller_turn_def on_raw_def after_item_def)
  have "in_reach X k1" using assms(4) ok(2) by (simp add: in_reach_def)
  then obtain k2 w4 where "threads_reach X (Leaving, k1, w3) (Iterating, k2, w4)"
    "sio_client_session_epoch k2 = rc_epoch (cl_client k) + 1" "sio_is_open (rc_socket (cl_client k2))"
    using leaving_comes_back [OF assms(1,2) ok(1) closed, of w3] assms(5,6) c1(2) by auto
  moreover from threads_reach_poller [OF step this(1)] have "threads_reach X (Waiting dl, k1, w1) (Iterating, k2, w4)" .
  moreover have "\<not> sio_is_open (rc_socket (cl_client k1))" using closed by (simp add: closed_in_def sio_is_open_def)
  ultimately show ?thesis unfolding sio_client_session_epoch_def by blast
qed

subsection \<open>The session of the two threads\<close>

lemma raw_turn_tables:
  assumes "raw_turn X g (c, w) = (r, c', w')" and "returned r"
  shows "tables_kept c c'"
proof -
  obtain r1 c1 w1 where 1: "on_sio (sio_turn X g) (c, w) = (r1, c1, w1)" by (cases "on_sio (sio_turn X g) (c, w)") auto
  have t: "tables_kept c c1" using on_sio_tables [OF 1] by (cases c; cases c1) (simp add: tables_kept_def)
  have trans: "tables_kept c c2" if "raw_frame c1 c2" for c2
    using t that by (simp add: raw_frame_def tables_kept_iff)
  have "(\<exists>e. r1 = Err e) \<or> r1 = Ok Again \<or> (\<exists>p. r1 = Ok (Item p))"
  proof (cases r1)
    case (Ok x)
    then show ?thesis by (cases x) auto
  qed (use assms 1 in \<open>auto simp: raw_turn_def\<close>)
  then show ?thesis
  proof (elim disjE exE)
    fix e assume e: "r1 = Err e"
    obtain r2 c2 w2 where 2: "report_error X e (c1, w1) = (r2, c2, w2)" by (cases "report_error X e (c1, w1)") auto
    with e 1 assms framedD(2) [OF framed_report_error 2] trans show ?thesis
      by (cases r2) (auto simp: raw_turn_def)
  next
    assume "r1 = Ok Again"
    with 1 assms t show ?thesis by (auto simp: raw_turn_def)
  next
    fix p assume p: "r1 = Ok (Item p)"
    obtain r2 c2 w2 where 2: "raw_handle_socketio_packet X p (c1, w1) = (r2, c2, w2)"
      by (cases "raw_handle_socketio_packet X p (c1, w1)") auto
    with p 1 assms framedD(2) [OF framed_raw_handle_socketio_packet 2] trans t show ?thesis
      by (cases r2) (auto simp: raw_turn_def split: if_splits)
  qed
qed

lemma on_raw_returns:
  assumes "on_raw f (k, w) = (r, k', w')" and "returned r" and "framed f" and "client_ok k"
  shows "kept 0 k k'"
  using on_raw_kept [OF assms(1,4)] framedD(2) [OF assms(3) _ assms(2)] by (auto simp: raw_frame_def)

lemma poller_turn_kept:
  assumes "poller_turn X g (k, w) = (p', k', w')" and "client_ok k" and "p' \<noteq> Dead" and "p' \<noteq> Stuck"
  shows "kept 0 k k'"
proof -
  obtain r k1 w1 where 1: "on_raw (raw_turn X g) (k, w) = (r, k1, w1)" by (cases "on_raw (raw_turn X g) (k, w)") auto
  have r: "returned r" and k1: "k1 = k'"
    using assms(1,3,4) 1 by (cases r; auto simp: poller_turn_def split: turn.splits)+
  show ?thesis
    using on_raw_kept [OF 1 assms(2)] raw_turn_tables [OF _ r] k1 by blast
qed

text \<open>One step of the thread: nothing of the session changes, or it connects and is in the next one.\<close>

definition next_session :: "poller \<Rightarrow> sio_client \<Rightarrow> poller \<Rightarrow> sio_client \<Rightarrow> bool" where
  "next_session p k p' k' \<longleftrightarrow> (\<exists>i. p = Connecting i) \<and> p' = Iterating \<and> kept 1 k k' \<and>
     sio_is_open (rc_socket (cl_client k')) \<and> rc_acks (cl_client k') = []"

lemma poller_step_kept:
  assumes "poller_step X p (k, w) = (p', k', w')" and "client_ok k" and "p' \<noteq> Dead" and "p' \<noteq> Stuck"
  shows "kept 0 k k' \<or> next_session p k p' k'"
proof (cases p)
  case Iterating
  with assms show ?thesis
    by (auto simp: Let_def kept_refl poller_turn_kept split: if_splits option.splits prod.splits outcome.splits)
next
  case (Waiting dl)
  with assms show ?thesis by (auto simp: poller_turn_kept)
next
  case Leaving
  obtain r k1 w1 where 1: "sio_client_disconnect X (k, w) = (r, k1, w1)"
    by (cases "sio_client_disconnect X (k, w)") auto
  have "returned r" "k' = k1" using assms Leaving 1 by (cases r; auto split: if_splits)+
  with on_raw_returns [OF 1 [unfolded sio_client_disconnect_def] _ framed_raw_disconnect assms(2)] show ?thesis by simp
next
  case (Asking i)
  with assms show ?thesis by (auto simp: Let_def kept_back_off kept_refl kept_def same_tables_def client_ok_def split: if_splits)
next
  case (Sleeping i ms t)
  with assms show ?thesis by (auto simp: kept_refl split: if_splits)
next
  case (Connecting i)
  obtain r k1 w1 where 1: "sio_do_reconnect X (k, w) = (r, k1, w1)" by (cases "sio_do_reconnect X (k, w)") auto
  from 1 show ?thesis
  proof (cases rule: sio_do_reconnect_cases)
    case 4
    obtain r2 w2 where 2: "sio_connect_raw X (shared_builder k) w = (r2, w2)" by fastforce
    with 1 4(1) obtain c where "r2 = Ok c" "k1 = k\<lparr>cl_client := c\<rparr>"
      by (cases r2) (auto simp: sio_do_reconnect_def)
    with 2 4 1 assms Connecting sio_connect_raw_open show ?thesis by (auto simp: next_session_def)
  qed (use assms Connecting 1 in \<open>auto simp: kept_refl\<close>)
qed (use assms in auto)

lemma threads_step_kept:
  assumes "threads_step X (p, k, w) (p', k', w')" and "client_ok k" and "p' \<noteq> Dead" and "p' \<noteq> Stuck"
  shows "(\<exists>a. kept 0 (sio_client_set_reconnect_url a k) k') \<or> next_session p k p' k'"
proof -
  have same: "kept 0 k k' \<Longrightarrow> kept 0 (sio_client_set_reconnect_url (sb_address (cl_builder k)) k) k'"
    by (simp add: sio_client_set_reconnect_url_def)
  from assms(1) show ?thesis
  proof (cases rule: threads_stepE)
    case poller
    from poller_step_kept [OF this assms(2-4)] same show ?thesis by blast
  next
    case (user c r)
    have "kept 0 k k'" if "\<And>a. c \<noteq> CallSetReconnectUrl a"
      using user that assms(2) on_raw_returns
      by (cases c) (auto simp: sio_client_emit_def sio_client_emit_with_ack_def sio_client_disconnect_def)
    moreover have "kept 0 (sio_client_set_reconnect_url a k) k'" if "c = CallSetReconnectUrl a" for a
      using user that assms(2) by (auto simp: kept_def same_tables_def client_ok_def sio_client_set_reconnect_url_def)
    ultimately show ?thesis using same by blast
  next
    case (wait d)
    with kept_refl [OF assms(2)] same show ?thesis by blast
  qed
qed

text \<open>The builder but for the address, the tables, and a client that is set up as it says.\<close>

definition same_client :: "sio_client \<Rightarrow> sio_client \<Rightarrow> bool" where
  "same_client k k' \<longleftrightarrow> client_ok k' \<and> (\<exists>a. same_tables (sio_client_set_reconnect_url a k) k')"

lemma same_client_step:
  assumes "same_client k0 k"
    and "(\<exists>a. kept 0 (sio_client_set_reconnect_url a k) k') \<or> next_session p k p' k'"
  shows "same_client k0 k'"
proof -
  obtain b where b: "same_tables (sio_client_set_reconnect_url b k0) k" using assms(1) by (auto simp: same_client_def)
  from assms(2) obtain a where "client_ok k'" "same_tables (sio_client_set_reconnect_url a k) k' \<or> same_tables k k'"
    by (auto simp: kept_def next_session_def)
  with b have "\<exists>a. same_tables (sio_client_set_reconnect_url a k0) k'"
    by (cases "same_tables k k'")
      (auto simp: same_tables_def sio_client_set_reconnect_url_def intro: exI [of _ b] exI [of _ a])
  with \<open>client_ok k'\<close> show ?thesis by (simp add: same_client_def)
qed

text \<open>
  C17. However the two threads interleave and whatever the server, the callbacks and the user do: for as
  long as the polling thread lives, the client has its tables, its namespace and \<open>auth\<close> and free locks,
  and the builder all but the address; and only a connect of the polling thread that succeeds changes
  the session, to the next one, which starts open and without outstanding acks.
\<close>

theorem threads_keep_session:
  assumes "threads_reach X (p0, k0, w0) (p, k, w)" and "client_ok k0"
    and "threads_step X (p, k, w) (p', k', w')" and "p' \<noteq> Dead" and "p' \<noteq> Stuck"
  shows "same_client k0 k' \<and> (sio_client_session_epoch k' = sio_client_session_epoch k \<or>
    (\<exists>i. p = Connecting i) \<and> p' = Iterating \<and> sio_client_session_epoch k' = sio_client_session_epoch k + 1 \<and>
      sio_is_open (rc_socket (cl_client k')) \<and> rc_acks (cl_client k') = [])"
proof -
  have dead: "p2 \<in> {Dead, Stuck}" if "threads_step X (p1, k1, w1) (p2, k2, w2)" "p1 \<in> {Dead, Stuck}" for p1 k1 w1 p2 k2 w2
    using that by (cases rule: threads_stepE) auto
  have "fst t \<notin> {Dead, Stuck} \<longrightarrow> same_client k0 (fst (snd t))" if "threads_reach X (p0, k0, w0) t" for t
    using that unfolding threads_reach_def
  proof (induction rule: rtranclp_induct)
    case base
    have "same_tables (sio_client_set_reconnect_url (sb_address (cl_builder k0)) k0) k0"
      by (simp add: same_tables_def sio_client_set_reconnect_url_def)
    with assms(2) show ?case by (auto simp: same_client_def)
  next
    case (step t u)
    obtain p1 k1 w1 where t: "t = (p1, k1, w1)" by (cases t) auto
    obtain p2 k2 w2 where u: "u = (p2, k2, w2)" by (cases u) auto
    show ?case
    proof
      assume "fst u \<notin> {Dead, Stuck}"
      then have p2: "p2 \<noteq> Dead" "p2 \<noteq> Stuck" using u by auto
      have hop: "threads_step X (p1, k1, w1) (p2, k2, w2)" using step.hyps(2) t u by simp
      from dead [OF hop] p2 have "p1 \<notin> {Dead, Stuck}" by blast
      with step.IH t have k1: "same_client k0 k1" by simp
      then have "client_ok k1" by (simp add: same_client_def)
      from same_client_step [OF k1 threads_step_kept [OF hop this p2]] u
      show "same_client k0 (fst (snd u))" by simp
    qed
  qed
  from this [OF assms(1)] dead [OF assms(3)] assms(4,5) have k: "same_client k0 k"
    by (cases "p \<in> {Dead, Stuck}") simp_all
  then have "client_ok k" by (simp add: same_client_def)
  from threads_step_kept [OF assms(3) this assms(4,5)] same_client_step [OF k] show ?thesis
    by (auto simp: kept_def next_session_def sio_client_session_epoch_def sio_client_set_reconnect_url_def)
qed

theorem disconnect_undone_witness:
  "\<exists>k1 w1 k2 w3. call_client demo_server CallDisconnect (demo_leaver True, demo_world) = (Ok (), k1, w1) \<and>
     threads_reach demo_server (Waiting 45, k1, w1) (Iterating, k2, w3) \<and>
     sio_client_session_epoch k2 = 2 \<and> sio_is_open (rc_socket (cl_client k2))"
proof -
  let ?k = "demo_leaver True"
  obtain k1 w1 where k1: "call_client demo_server CallDisconnect (?k, demo_world) = (Ok (), k1, w1)"
    "es_transport (ss_engine (rc_socket (cl_client k1))) = Websocket demo_ws" using demo_leaves by blast
  obtain e w2 where e: "transport_poll demo_server (of_nat (45 - now w1))
      (es_transport (ss_engine (rc_socket (cl_client k1)))) w1 = (Err e, w2)"
    unfolding k1(2) using demo_server_lost by blast
  have "client_ok ?k" "in_reach demo_server ?k" "sb_reconnect (cl_builder ?k)" "sb_max_attempts (cl_builder ?k) \<noteq> Some 0"
    "sio_client_session_epoch ?k = 1"
    using demo_server_connects [of True]
    by (simp_all add: in_reach_def client_ok_def demo_leaver_def demo_raw_def sio_builder_new_def sio_client_session_epoch_def)
  with disconnect_undone [OF _ _ _ _ _ _ k1(1) _ e] k1(1) show ?thesis by fastforce
qed

theorem disconnect_final_witness:
  "\<exists>k1 w1. call_client demo_server CallDisconnect (demo_leaver False, demo_world) = (Ok (), k1, w1) \<and>
     (\<forall>p2 k2 w2. threads_reach demo_server (Waiting 45, k1, w1) (p2, k2, w2) \<longrightarrow>
        sio_client_session_epoch k2 = 1 \<and>
        call_client demo_server (CallEmit EvMessage (PText [] None)) (k2, w2) = (Err SioIllegalActionBeforeOpen, k2, w2))"
proof -
  obtain k1 w1 where k1: "call_client demo_server CallDisconnect (demo_leaver False, demo_world) = (Ok (), k1, w1)"
    using demo_leaves by blast
  have "parked (cl_builder (demo_leaver False)) (Waiting 45)" "sio_client_session_epoch (demo_leaver False) = 1"
    by (simp_all add: demo_leaver_def demo_raw_def sio_client_session_epoch_def)
  with disconnect_final [OF k1] k1 show ?thesis by fastforce
qed

theorem threads_keep_session_witness:
  "\<exists>k' w'. threads_step demo_server (Connecting 0, demo_leaver True, demo_world) (Iterating, k', w') \<and>
     same_client (demo_leaver True) k' \<and> sio_client_session_epoch k' \<in> {1, 2}"
proof -
  let ?k = "demo_leaver True"
  obtain c w' where "sio_connect_raw demo_server (shared_builder ?k) demo_world = (Ok c, w')"
    using demo_server_connects by blast
  then have "poller_step demo_server (Connecting 0) (?k, demo_world) = (Iterating, ?k\<lparr>cl_client := c\<rparr>, w')"
    by (simp add: sio_do_reconnect_def)
  then have step: "threads_step demo_server (Connecting 0, ?k, demo_world) (Iterating, ?k\<lparr>cl_client := c\<rparr>, w')"
    by (rule threads_step.poller)
  have "client_ok ?k" "sio_client_session_epoch ?k = 1"
    by (simp_all add: client_ok_def demo_leaver_def demo_raw_def sio_builder_new_def sio_client_session_epoch_def)
  with threads_keep_session [OF threads_reach_refl _ step] step show ?thesis by fastforce
qed

end
