(* ===== verification/Eio_Async_Socket.thy ===== *)
theory Eio_Async_Socket
  imports Eio_Client
begin

text \<open>
  \<open>engineio/src/asynchronous/async_socket.rs\<close>. The operations that await between two uses of the
  shared state are split there: \<open>emit\<close> into taking a copy of the transport and the \<open>select!\<close> that
  sends, \<open>disconnect\<close> into taking the transport away and sending the close packet. The blocking
  compositions are the operations run without interference; \<open>async_step\<close> interleaves the parts of
  any number of tasks. The callbacks are not called but spawned, \<open>self.handle.spawn(..)\<close>: the trace has
  the spawn, and when the callback runs is not part of the model.
\<close>

record async_socket =
  as_transport :: "async_transport option"
  as_closing :: bool
  as_on_close :: "callback option"
  as_on_data :: "callback option"
  as_on_error :: "callback option"
  as_on_open :: "callback option"
  as_on_packet :: "callback option"
  as_connected :: bool
  as_last_ping :: nat
  as_last_pong :: nat
  as_connection_data :: handshake_packet
  as_max_ping_timeout :: u64

type_synonym async_state = "async_socket \<times> world"

definition async_socket_new ::
  "ext \<Rightarrow> async_transport \<Rightarrow> handshake_packet \<Rightarrow> callback option \<Rightarrow> callback option \<Rightarrow> callback option \<Rightarrow>
   callback option \<Rightarrow> callback option \<Rightarrow> world \<Rightarrow> (eio_error, async_socket) outcome" where
  "async_socket_new X t h cl da er op pa w =
     and_then (add_u64 (overflow_checks X) (ping_interval h) (ping_timeout h)) (\<lambda>m.
       Ok \<lparr>as_transport = Some t, as_closing = False, as_on_close = cl, as_on_data = da, as_on_error = er,
          as_on_open = op, as_on_packet = pa, as_connected = False, as_last_ping = now w,
          as_last_pong = now w, as_connection_data = h, as_max_ping_timeout = m\<rparr>)"

definition async_call_error_callback :: "bytes \<Rightarrow> async_state \<Rightarrow> async_state" where
  "async_call_error_callback t = (\<lambda>(s, w). (s, spawn_opt (as_on_error s) (ArgText t) w))"

subsection \<open>Emitting\<close>

record async_pending =
  pe_data :: bytes
  pe_binary :: bool
  pe_transport :: async_transport

definition async_emit_begin ::
  "ext \<Rightarrow> eio_packet \<Rightarrow> async_state \<Rightarrow> (eio_error, async_pending) outcome \<times> async_state" where
  "async_emit_begin X p = (\<lambda>(s, w).
     if \<not> as_connected s
     then (Err IllegalActionBeforeOpen,
           async_call_error_callback (eio_error_display IllegalActionBeforeOpen) (s, w))
     else let bin = (packet_id p = MessageBinary);
            d = (if bin then data p else eio_packet_into_bytes (b64 X) p)
       in case as_transport s of
            None \<Rightarrow> (Err IllegalActionBeforeOpen, s, w)
          | Some t \<Rightarrow> (Ok \<lparr>pe_data = d, pe_binary = bin, pe_transport = t\<rparr>, s, w))"

text \<open>The \<open>select!\<close> is biased: a socket that is closing refuses before anything is sent.\<close>

definition async_emit_finish ::
  "ext \<Rightarrow> async_pending \<Rightarrow> async_state \<Rightarrow> (eio_error, unit) outcome \<times> async_state" where
  "async_emit_finish X q = (\<lambda>(s, w).
     case (if as_closing s then (Err IllegalActionBeforeOpen, w)
           else async_transport_emit X (pe_transport q) (pe_data q) (pe_binary q) w) of
       (Err e, w) \<Rightarrow> (Err e, async_call_error_callback (eio_error_display e) (s, w))
     | (r, w) \<Rightarrow> (r, s, w))"

definition async_socket_emit ::
  "ext \<Rightarrow> eio_packet \<Rightarrow> async_state \<Rightarrow> (eio_error, unit) outcome \<times> async_state" where
  "async_socket_emit X p sw = ques (async_emit_begin X p sw) (async_emit_finish X)"

subsection \<open>Opening and closing\<close>

definition async_connect_begin :: "async_state \<Rightarrow> (eio_error, unit) outcome \<times> async_state" where
  "async_connect_begin = (\<lambda>(s, w).
     if as_transport s = None then (Err IllegalActionBeforeOpen, s, w)
     else let s = s\<lparr>as_connected := True\<rparr>; w = spawn_opt (as_on_open s) ArgUnit w
       in (Ok (), s\<lparr>as_last_ping := now w\<rparr>, w))"

definition async_socket_connect :: "ext \<Rightarrow> async_state \<Rightarrow> (eio_error, unit) outcome \<times> async_state" where
  "async_socket_connect X sw =
     ques (async_connect_begin sw) (\<lambda>_ sw.
     ques (async_socket_emit X (eio_packet_new Pong '''') sw) (\<lambda>_ sw. (Ok (), sw)))"

definition async_disconnect_begin :: "async_socket \<Rightarrow> async_transport option \<times> async_socket" where
  "async_disconnect_begin s =
     (as_transport s, s\<lparr>as_connected := False, as_closing := True, as_transport := None\<rparr>)"

text \<open>\<open>tokio::time::timeout\<close> of one second around the last send.\<close>

definition within_ms ::
  "nat \<Rightarrow> eio_error \<Rightarrow> world \<Rightarrow> (eio_error, unit) outcome \<times> world \<Rightarrow> (eio_error, unit) outcome \<times> world" where
  "within_ms ms e w rw =
     (if now (snd rw) \<le> now w + ms then rw else (Err e, (snd rw)\<lparr>now := now w + ms\<rparr>))"

definition async_disconnect_end ::
  "ext \<Rightarrow> async_transport \<Rightarrow> async_state \<Rightarrow> (eio_error, unit) outcome \<times> async_state" where
  "async_disconnect_end X t = (\<lambda>(s, w).
     let w = spawn_opt (as_on_close s) ArgUnit w;
         (r, w) = within_ms 1000 (IncompleteIo ''Engine.IO close timed out'') w
           (async_transport_emit X t (eio_packet_into_bytes (b64 X) (eio_packet_new Close '''')) False w)
     in (r, s, w))"

definition async_socket_disconnect :: "ext \<Rightarrow> async_state \<Rightarrow> (eio_error, unit) outcome \<times> async_state" where
  "async_socket_disconnect X = (\<lambda>(s, w).
     case async_disconnect_begin s of
       (None, s) \<Rightarrow> (Ok (), s, w)
     | (Some t, s) \<Rightarrow> async_disconnect_end X t (s, w))"

subsection \<open>Incoming packets\<close>

definition async_is_connected :: "async_socket \<Rightarrow> bool" where
  "async_is_connected s = as_connected s"

definition async_pinged :: "async_state \<Rightarrow> async_state" where
  "async_pinged = (\<lambda>(s, w). (s\<lparr>as_last_ping := now w\<rparr>, w))"

definition async_time_to_next_ping :: "async_state \<Rightarrow> u64" where
  "async_time_to_next_ping = (\<lambda>(s, w).
     if as_last_ping s \<le> now w
     then let since = (of_nat (now w - as_last_ping s) :: u64)
          in if since > as_max_ping_timeout s then 0 else as_max_ping_timeout s - since
     else 0)"

definition async_handle_packet :: "eio_packet \<Rightarrow> async_state \<Rightarrow> async_state" where
  "async_handle_packet p = (\<lambda>(s, w). (s, spawn_opt (as_on_packet s) (ArgPacket p) w))"

definition async_handle_data :: "bytes \<Rightarrow> async_state \<Rightarrow> async_state" where
  "async_handle_data d = (\<lambda>(s, w). (s, spawn_opt (as_on_data s) (ArgBytes d) w))"

definition async_handle_close :: "async_state \<Rightarrow> async_state" where
  "async_handle_close = (\<lambda>(s, w).
     let w = spawn_opt (as_on_close s) ArgUnit w in (s\<lparr>as_connected := False\<rparr>, w))"

definition async_handle_incoming ::
  "ext \<Rightarrow> eio_packet \<Rightarrow> async_state \<Rightarrow> (eio_error, unit) outcome \<times> async_state" where
  "async_handle_incoming X p sw =
     (let sw = async_handle_packet p sw in
      case packet_id p of
        MessageBinary \<Rightarrow> (Ok (), async_handle_data (data p) sw)
      | Message \<Rightarrow> (Ok (), async_handle_data (data p) sw)
      | Close \<Rightarrow> (Ok (), async_handle_close sw)
      | Upgrade \<Rightarrow> (Ok (), sw)
      | Ping \<Rightarrow>
          ques (async_socket_emit X (eio_packet_new Pong '''') (async_pinged sw)) (\<lambda>_ sw. (Ok (), sw))
      | Pong \<Rightarrow> (Err InvalidPacket, sw)
      | Open \<Rightarrow> (Err InvalidPacket, sw)
      | Noop \<Rightarrow> (Ok (), sw))"

subsection \<open>The packet stream\<close>

text \<open>
  \<open>stream\<close>: the transport, the packets of the payload being given out, and whether an error or the
  end of the transport has ended it.
\<close>

record packet_stream =
  st_transport :: async_transport
  st_packets :: "eio_packet list"
  st_over :: bool

definition packet_stream_new :: "async_transport \<Rightarrow> packet_stream" where
  "packet_stream_new t = \<lparr>st_transport = t, st_packets = [], st_over = False\<rparr>"

definition parse_payload :: "ext \<Rightarrow> bytes \<Rightarrow> (eio_error, eio_packet list) outcome" where
  "parse_payload X b = eio_payload_try_from (b64 X) b"

fun packet_stream_loop ::
  "nat \<Rightarrow> ext \<Rightarrow> nat option \<Rightarrow> packet_stream \<Rightarrow> world \<Rightarrow> eio_packet polled \<times> packet_stream \<times> world" where
  "packet_stream_loop 0 X dl st w = (Hang, st, w)"
| "packet_stream_loop (Suc n) X dl st w =
     (if st_over st then (Ok (InTime None), st, w)
      else case st_packets st of
        p # ps \<Rightarrow> (Ok (InTime (Some p)), st\<lparr>st_packets := ps\<rparr>, w)
      | [] \<Rightarrow>
          (case async_transport_next X dl (st_transport st) w of (r, t, w) \<Rightarrow>
           let st = st\<lparr>st_transport := t\<rparr> in
           case r of
             Ok Elapsed \<Rightarrow> (Ok Elapsed, st, w)
           | Ok (InTime None) \<Rightarrow> (Ok (InTime None), st\<lparr>st_over := True\<rparr>, w)
           | Ok (InTime (Some b)) \<Rightarrow>
               (case parse_payload X b of
                  Ok ps \<Rightarrow> packet_stream_loop n X dl (st\<lparr>st_packets := ps\<rparr>) w
                | Err e \<Rightarrow> (Err e, st\<lparr>st_over := True\<rparr>, w)
                | Panic \<Rightarrow> (Panic, st, w)
                | Hang \<Rightarrow> (Hang, st, w))
           | Err e \<Rightarrow> (Err e, st\<lparr>st_over := True\<rparr>, w)
           | Panic \<Rightarrow> (Panic, st, w)
           | Hang \<Rightarrow> (Hang, st, w)))"

definition packet_stream_next ::
  "ext \<Rightarrow> nat option \<Rightarrow> packet_stream \<Rightarrow> world \<Rightarrow> eio_packet polled \<times> packet_stream \<times> world" where
  "packet_stream_next X dl st w = packet_stream_loop (loop_fuel X) X dl st w"

text \<open>
  \<open>as_stream\<close>: \<open>None\<close> is the empty stream of a socket whose transport is gone. A step waits for the
  next packet as long as the heartbeat allows, and disconnects when it does not come.
\<close>

definition as_stream :: "async_socket \<Rightarrow> packet_stream option" where
  "as_stream s = map_option packet_stream_new (as_transport s)"

definition as_stream_next ::
  "ext \<Rightarrow> packet_stream option \<Rightarrow> async_state \<Rightarrow>
   (eio_error, eio_packet option) outcome \<times> packet_stream option \<times> async_state" where
  "as_stream_next X st = (\<lambda>(s, w).
     case st of
       None \<Rightarrow> (Ok None, None, s, w)
     | Some st \<Rightarrow>
         (case packet_stream_next X (Some (now w + unat (async_time_to_next_ping (s, w)))) st w of (r, st, w) \<Rightarrow>
          case r of
            Ok (InTime p) \<Rightarrow> (Ok p, Some st, s, w)
          | Err e \<Rightarrow> (Err e, Some st, s, w)
          | Ok Elapsed \<Rightarrow>
              (case async_socket_disconnect X (s, w) of
                 (Err e, s, w) \<Rightarrow> (Err e, Some st, s, w)
               | (Ok _, s, w) \<Rightarrow> (Err PingTimeout, Some st, s, w)
               | (Panic, s, w) \<Rightarrow> (Panic, Some st, s, w)
               | (Hang, s, w) \<Rightarrow> (Hang, Some st, s, w))
          | Panic \<Rightarrow> (Panic, Some st, s, w)
          | Hang \<Rightarrow> (Hang, Some st, s, w)))"

subsection \<open>Any interleaving of tasks\<close>

text \<open>
  The shared socket, the emits that have their copy of the transport, the disconnects that have
  taken it, and the world.
\<close>

record async_tasks =
  tk_socket :: async_socket
  tk_emits :: "async_pending list"
  tk_closes :: "async_transport list"
  tk_world :: world

inductive async_step :: "ext \<Rightarrow> async_tasks \<Rightarrow> async_tasks \<Rightarrow> bool" for X where
  emit_starts: "async_emit_begin X p (s, w) = (Ok q, s', w') \<Longrightarrow>
    async_step X \<lparr>tk_socket = s, tk_emits = es, tk_closes = cs, tk_world = w\<rparr>
      \<lparr>tk_socket = s', tk_emits = q # es, tk_closes = cs, tk_world = w'\<rparr>"
| emit_refused: "async_emit_begin X p (s, w) = (Err e, s', w') \<Longrightarrow>
    async_step X \<lparr>tk_socket = s, tk_emits = es, tk_closes = cs, tk_world = w\<rparr>
      \<lparr>tk_socket = s', tk_emits = es, tk_closes = cs, tk_world = w'\<rparr>"
| emit_ends: "async_emit_finish X q (s, w) = (r, s', w') \<Longrightarrow>
    async_step X \<lparr>tk_socket = s, tk_emits = es1 @ q # es2, tk_closes = cs, tk_world = w\<rparr>
      \<lparr>tk_socket = s', tk_emits = es1 @ es2, tk_closes = cs, tk_world = w'\<rparr>"
| close_starts: "async_disconnect_begin s = (t, s') \<Longrightarrow>
    async_step X \<lparr>tk_socket = s, tk_emits = es, tk_closes = cs, tk_world = w\<rparr>
      \<lparr>tk_socket = s', tk_emits = es, tk_closes = (case t of None \<Rightarrow> cs | Some t \<Rightarrow> t # cs), tk_world = w\<rparr>"
| close_ends: "async_disconnect_end X t (s, w) = (r, s', w') \<Longrightarrow>
    async_step X \<lparr>tk_socket = s, tk_emits = es, tk_closes = cs1 @ t # cs2, tk_world = w\<rparr>
      \<lparr>tk_socket = s', tk_emits = es, tk_closes = cs1 @ cs2, tk_world = w'\<rparr>"
| opens: "async_connect_begin (s, w) = (r, s', w') \<Longrightarrow>
    async_step X \<lparr>tk_socket = s, tk_emits = es, tk_closes = cs, tk_world = w\<rparr>
      \<lparr>tk_socket = s', tk_emits = es, tk_closes = cs, tk_world = w'\<rparr>"
| peer_closes: "async_handle_close (s, w) = (s', w') \<Longrightarrow>
    async_step X \<lparr>tk_socket = s, tk_emits = es, tk_closes = cs, tk_world = w\<rparr>
      \<lparr>tk_socket = s', tk_emits = es, tk_closes = cs, tk_world = w'\<rparr>"

definition async_reaches :: "ext \<Rightarrow> async_tasks \<Rightarrow> async_tasks \<Rightarrow> bool" where
  "async_reaches X = (async_step X)\<^sup>*\<^sup>*"

text \<open>Retired: the transport has been taken. \<open>retired_ok\<close> is what the fields say then.\<close>

definition tasks_ok :: "async_tasks \<Rightarrow> bool" where
  "tasks_ok c \<longleftrightarrow>
     (as_closing (tk_socket c) \<longleftrightarrow> as_transport (tk_socket c) = None) \<and>
     (as_connected (tk_socket c) \<longrightarrow> as_transport (tk_socket c) \<noteq> None) \<and>
     length (tk_closes c) \<le> (if as_transport (tk_socket c) = None then 1 else 0)"

lemma async_emit_begin_frame:
  "async_emit_begin X p (s, w) = (r, s', w') \<Longrightarrow> s' = s \<and> sent w' = sent w \<and>
   (\<forall>q. r = Ok q \<longrightarrow> as_transport s = Some (pe_transport q) \<and> as_connected s)"
  by (auto simp: async_emit_begin_def async_call_error_callback_def Let_def
      split: if_splits option.splits)

lemma async_emit_finish_frame:
  "async_emit_finish X q (s, w) = (r, s', w') \<Longrightarrow> s' = s \<and> (as_closing s \<longrightarrow> sent w' = sent w)"
  by (cases "async_transport_emit X (pe_transport q) (pe_data q) (pe_binary q) w";
      cases "fst (async_transport_emit X (pe_transport q) (pe_data q) (pe_binary q) w)")
     (auto simp: async_emit_finish_def async_call_error_callback_def split: if_splits)

lemma within_ms_sent [simp]: "sent (snd (within_ms ms e w rw)) = sent (snd rw)"
  by (simp add: within_ms_def sent_def)

lemma async_disconnect_end_frame:
  "async_disconnect_end X t (s, w) = (r, s', w') \<Longrightarrow>
   s' = s \<and> (\<exists>es. sent w' = sent w @ es \<and> length es \<le> 1)"
  using async_transport.send_once [of X t "eio_packet_into_bytes (b64 X) (eio_packet_new Close '''')" False
      "spawn_opt (as_on_close s) ArgUnit w"]
    within_ms_sent [of 1000 "IncompleteIo ''Engine.IO close timed out''" "spawn_opt (as_on_close s) ArgUnit w"
      "async_transport_emit X t (eio_packet_into_bytes (b64 X) (eio_packet_new Close '''')) False
        (spawn_opt (as_on_close s) ArgUnit w)"]
  by (auto simp: async_disconnect_end_def Let_def case_prod_beta simp del: within_ms_sent)

lemma async_connect_begin_frame:
  "async_connect_begin (s, w) = (r, s', w') \<Longrightarrow>
   sent w' = sent w \<and> as_transport s' = as_transport s \<and> as_closing s' = as_closing s \<and>
   (as_connected s' \<longrightarrow> as_connected s \<or> as_transport s \<noteq> None)"
  by (auto simp: async_connect_begin_def Let_def split: if_splits)

lemma async_handle_close_frame:
  "async_handle_close (s, w) = (s', w') \<Longrightarrow>
   sent w' = sent w \<and> as_transport s' = as_transport s \<and> as_closing s' = as_closing s \<and> \<not> as_connected s'"
  by (auto simp: async_handle_close_def Let_def)

lemma async_step_ok: "async_step X c c' \<Longrightarrow> tasks_ok c \<Longrightarrow> tasks_ok c'"
proof (induction rule: async_step.induct)
  case (close_starts s t s' es cs w)
  then show ?case by (auto simp: tasks_ok_def async_disconnect_begin_def split: option.splits if_splits)
next
  case (opens s w r s' w' es cs)
  then show ?case using async_connect_begin_frame [OF opens.hyps] by (auto simp: tasks_ok_def)
next
  case (peer_closes s w s' w' es cs)
  then show ?case using async_handle_close_frame [OF peer_closes.hyps] by (auto simp: tasks_ok_def)
next
  case (close_ends t s w r s' w' es cs1 cs2)
  then show ?case
    using async_disconnect_end_frame [OF close_ends.hyps] by (auto simp: tasks_ok_def split: if_splits)
qed (auto simp: tasks_ok_def dest: async_emit_begin_frame async_emit_finish_frame)

text \<open>Once retired, each step leaves the transport gone and spends the sends of the closes.\<close>

lemma async_step_retired:
  "async_step X c c' \<Longrightarrow> tasks_ok c \<Longrightarrow> as_transport (tk_socket c) = None \<Longrightarrow>
   as_transport (tk_socket c') = None \<and>
   (\<exists>es. sent (tk_world c') = sent (tk_world c) @ es \<and> length es + length (tk_closes c') \<le> length (tk_closes c))"
proof (induction rule: async_step.induct)
  case (close_starts s t s' es cs w)
  then show ?case by (auto simp: async_disconnect_begin_def)
next
  case (opens s w r s' w' es cs)
  then show ?case using async_connect_begin_frame [OF opens.hyps] by auto
next
  case (peer_closes s w s' w' es cs)
  then show ?case using async_handle_close_frame [OF peer_closes.hyps] by auto
next
  case (close_ends t s w r s' w' es cs1 cs2)
  then show ?case using async_disconnect_end_frame [OF close_ends.hyps] by auto
next
  case (emit_ends q s w r s' w' es1 es2 cs)
  then show ?case using async_emit_finish_frame [OF emit_ends.hyps] by (auto simp: tasks_ok_def)
qed (auto dest: async_emit_begin_frame)

lemma async_reaches_retired:
  assumes "async_reaches X c c'" and "tasks_ok c" and "as_transport (tk_socket c) = None"
  shows "tasks_ok c' \<and> as_transport (tk_socket c') = None \<and>
    (\<exists>es. sent (tk_world c') = sent (tk_world c) @ es \<and> length es + length (tk_closes c') \<le> length (tk_closes c))"
  using assms(1) unfolding async_reaches_def
proof (induction rule: rtranclp_induct)
  case base
  with assms show ?case by simp
next
  case (step d e)
  then obtain es where es: "sent (tk_world d) = sent (tk_world c) @ es"
    "length es + length (tk_closes d) \<le> length (tk_closes c)" by blast
  from step async_step_retired [of X d e] obtain fs where
    fs: "as_transport (tk_socket e) = None" "sent (tk_world e) = sent (tk_world d) @ fs"
        "length fs + length (tk_closes e) \<le> length (tk_closes d)" by blast
  from step async_step_ok [of X d e] have "tasks_ok e" by blast
  with es fs show ?case by (intro conjI exI [of _ "es @ fs"]) simp_all
qed

lemma async_socket_new_Ok:
  "async_socket_new X t h cl da er op pa w = Ok s \<Longrightarrow>
   as_transport s = Some t \<and> \<not> as_closing s \<and> \<not> as_connected s \<and> as_connection_data s = h"
  by (auto simp: async_socket_new_def and_then_Ok_iff)

lemma async_socket_emit_closed:
  "\<not> as_connected s \<Longrightarrow>
   async_socket_emit X p (s, w) =
     (Err IllegalActionBeforeOpen, s,
      spawn_opt (as_on_error s) (ArgText (eio_error_display IllegalActionBeforeOpen)) w)"
  by (simp add: async_socket_emit_def async_emit_begin_def async_call_error_callback_def)

lemma within_ms_grows: "grows w (snd rw) \<Longrightarrow> grows w (snd (within_ms ms e w rw))"
  by (simp add: within_ms_def grows_def)

lemma async_socket_disconnect_frame:
  "as_transport (fst (snd (async_socket_disconnect X (s, w)))) = None"
  "\<not> as_connected (fst (snd (async_socket_disconnect X (s, w))))"
  "grows w (snd (snd (async_socket_disconnect X (s, w))))"
proof -
  let ?w = "spawn_opt (as_on_close s) ArgUnit w"
  have "grows w (snd (within_ms 1000 (IncompleteIo ''Engine.IO close timed out'') ?w
      (async_transport_emit X t (eio_packet_into_bytes (b64 X) (eio_packet_new Close '''')) False ?w)))" for t
    by (rule grows_trans [OF grows_spawn_opt within_ms_grows [OF async_transport.send_grows]])
  then show "as_transport (fst (snd (async_socket_disconnect X (s, w)))) = None"
    "\<not> as_connected (fst (snd (async_socket_disconnect X (s, w))))"
    "grows w (snd (snd (async_socket_disconnect X (s, w))))"
    by (simp_all add: async_socket_disconnect_def async_disconnect_begin_def async_disconnect_end_def
        case_prod_beta Let_def split: option.split)
qed

interpretation async_connection: connection as_connected "async_socket_emit X" "async_socket_disconnect X"
  IllegalActionBeforeOpen for X
proof unfold_locales
  fix s :: async_socket and m w assume "\<not> as_connected s"
  then show "\<exists>w'. async_socket_emit X m (s, w) = (Err IllegalActionBeforeOpen, s, w') \<and>
      sent w' = sent w \<and> grows w w'"
    by (simp add: async_socket_emit_closed)
qed (rule async_socket_disconnect_frame)+

subsection \<open>Properties\<close>

text \<open>
  C25. A retired socket is silent. Whatever tasks run, emits begun before included, from the moment
  a disconnect has taken the transport at most one more message reaches the network (its close
  packet), and no interleaving, not even \<open>connect\<close> on a clone, brings the connection back.
\<close>

theorem async_silent_once_retired:
  assumes "async_socket_new X t h cl da er op pa w = Ok s"
    and "async_reaches X \<lparr>tk_socket = s, tk_emits = [], tk_closes = [], tk_world = w\<rparr> c"
    and "as_transport (tk_socket c) = None" and "async_reaches X c c'"
  shows "(\<exists>es. sent (tk_world c') = sent (tk_world c) @ es \<and> length es \<le> 1) \<and>
    as_transport (tk_socket c') = None \<and> \<not> as_connected (tk_socket c')"
proof -
  let ?start = "\<lparr>tk_socket = s, tk_emits = [], tk_closes = [], tk_world = w\<rparr>"
  have "tasks_ok ?start" using async_socket_new_Ok [OF assms(1)] by (simp add: tasks_ok_def)
  with assms(2) have ok: "tasks_ok c"
    unfolding async_reaches_def by (induction rule: rtranclp_induct) (auto dest: async_step_ok)
  from async_reaches_retired [OF assms(4) ok assms(3)] ok assms(3) show ?thesis
    by (auto simp: tasks_ok_def)
qed

definition demo_async_ws :: async_socket where
  "demo_async_ws = \<lparr>as_transport = Some (AsyncWebsocket demo_ws), as_closing = False, as_on_close = None,
     as_on_data = None, as_on_error = None, as_on_open = None, as_on_packet = None, as_connected = False,
     as_last_ping = 0, as_last_pong = 0, as_connection_data = demo_handshake, as_max_ping_timeout = 45\<rparr>"

lemma demo_async_new:
  "async_socket_new demo_ext (AsyncWebsocket demo_ws) demo_handshake None None None None None demo_world =
   Ok demo_async_ws"
  by (simp add: async_socket_new_def add_u64_def demo_handshake_def demo_async_ws_def)

theorem async_silent_once_retired_witness:
  "\<exists>c. async_step demo_ext \<lparr>tk_socket = demo_async_ws, tk_emits = [], tk_closes = [], tk_world = demo_world\<rparr> c \<and>
     as_transport (tk_socket c) = None \<and> length (tk_closes c) = 1 \<and> \<not> as_connected (tk_socket c)"
proof -
  let ?start = "\<lparr>tk_socket = demo_async_ws, tk_emits = [], tk_closes = [], tk_world = demo_world\<rparr>"
  obtain t s' where d: "async_disconnect_begin demo_async_ws = (Some t, s')" "as_transport s' = None"
    by (simp add: async_disconnect_begin_def demo_async_ws_def)
  let ?c = "\<lparr>tk_socket = s', tk_emits = [], tk_closes = [t], tk_world = demo_world\<rparr>"
  have step: "async_step demo_ext ?start ?c"
    using async_step.close_starts [OF d(1), of demo_ext "[]" "[]" demo_world] by simp
  then have "async_reaches demo_ext ?start ?c" by (simp only: async_reaches_def r_into_rtranclp [of "async_step demo_ext"])
  moreover have "async_reaches demo_ext ?c ?c" by (simp add: async_reaches_def)
  ultimately show ?thesis
    using async_silent_once_retired [OF demo_async_new, of ?c ?c] d(2) step
    by (intro exI [of _ ?c]) simp
qed

text \<open>
  The asynchronous disconnect always leaves the socket closed and without its transport, even
  when the close packet fails or its second runs out; every emit after it is refused and silent,
  and so is a new \<open>connect\<close>.
\<close>

lemma async_disconnect_closes:
  "\<exists>r s' w1. async_socket_disconnect X (s, w) = (r, s', w1) \<and> as_transport s' = None \<and> grows w w1 \<and>
     (\<exists>w2. send_each (async_socket_emit X) ps (s', w1) =
        (replicate (length ps) (Err IllegalActionBeforeOpen), s', w2) \<and> sent w2 = sent w1) \<and>
     async_socket_connect X (s', w1) = (Err IllegalActionBeforeOpen, s', w1)"
proof -
  obtain r s' w1 where d: "async_socket_disconnect X (s, w) = (r, s', w1)"
    by (cases "async_socket_disconnect X (s, w)") auto
  with async_socket_disconnect_frame(1,2) [of X s w] async_socket_disconnect_frame(3) [of w X s]
  have s': "as_transport s' = None" "\<not> as_connected s'" "grows w w1" by simp_all
  have "\<exists>w2. send_each (async_socket_emit X) ps (s', w1) =
        (replicate (length ps) (Err IllegalActionBeforeOpen), s', w2) \<and> sent w2 = sent w1"
    using async_connection.send_each_closed [OF s'(2)] by blast
  moreover have "async_socket_connect X (s', w1) = (Err IllegalActionBeforeOpen, s', w1)"
    using s'(1) by (simp add: async_socket_connect_def async_connect_begin_def)
  ultimately show ?thesis using d s' by blast
qed

text \<open>
  When no packet comes in time the stream disconnects: the item is \<open>PingTimeout\<close> or the error
  of the disconnect, and the socket is closed and retired after it.
\<close>

lemma as_stream_timeout_disconnects:
  assumes "packet_stream_next X (Some (now w + unat (async_time_to_next_ping (s, w)))) st w = (Ok Elapsed, st', w1)"
  shows "\<exists>r s' w2. as_stream_next X (Some st) (s, w) = (r, Some st', s', w2) \<and>
    \<not> is_ok r \<and> as_transport s' = None \<and> \<not> as_connected s'"
proof -
  obtain r s' w2 where d: "async_socket_disconnect X (s, w1) = (r, s', w2)"
    by (cases "async_socket_disconnect X (s, w1)") auto
  with async_socket_disconnect_frame(1,2) [of X s w1] assms show ?thesis
    by (cases r) (auto simp: as_stream_next_def)
qed

end
