(* ===== verification/Eio_Async_Client.thy ===== *)
theory Eio_Async_Client
  imports Eio_Async_Socket
begin

text \<open>
  \<open>engineio/src/asynchronous/client/\<close>: the asynchronous client with its shared generator and the
  builder. The builder has the fields of the blocking one.
\<close>

subsection \<open>The client\<close>

text \<open>The generator of a client: not polled yet, in the packet stream of the socket, or over.\<close>

datatype client_gen = GenNew | GenRunning "packet_stream option" | GenOver

record async_client =
  ac_socket :: async_socket
  ac_gen :: client_gen

type_synonym async_client_state = "async_client \<times> world"

definition async_client_new :: "async_socket \<Rightarrow> async_client" where
  "async_client_new s = \<lparr>ac_socket = s, ac_gen = generator_new GenNew\<rparr>"

text \<open>An operation of the socket, lifted to the client.\<close>

definition on_socket ::
  "(async_state \<Rightarrow> ('e, 'a) outcome \<times> async_state) \<Rightarrow> async_client_state \<Rightarrow> ('e, 'a) outcome \<times> async_client_state" where
  "on_socket f = (\<lambda>(c, w). case f (ac_socket c, w) of (r, s, w) \<Rightarrow> (r, c\<lparr>ac_socket := s\<rparr>, w))"

definition async_client_connect :: "ext \<Rightarrow> async_client_state \<Rightarrow> (eio_error, unit) outcome \<times> async_client_state" where
  "async_client_connect X = on_socket (async_socket_connect X)"

text \<open>\<open>generator.close()\<close> drops the stream and what it holds in flight.\<close>

definition generator_close :: "client_gen \<Rightarrow> client_gen" where
  "generator_close g = GenOver"

definition async_client_disconnect :: "ext \<Rightarrow> async_client_state \<Rightarrow> (eio_error, unit) outcome \<times> async_client_state" where
  "async_client_disconnect X = (\<lambda>(c, w).
     on_socket (async_socket_disconnect X) (c\<lparr>ac_gen := generator_close (ac_gen c)\<rparr>, w))"

definition async_client_close :: "ext \<Rightarrow> async_client_state \<Rightarrow> (eio_error, unit) outcome \<times> async_client_state" where
  "async_client_close X cw = async_client_disconnect X cw"

definition async_client_emit ::
  "ext \<Rightarrow> eio_packet \<Rightarrow> async_client_state \<Rightarrow> (eio_error, unit) outcome \<times> async_client_state" where
  "async_client_emit X p = on_socket (async_socket_emit X p)"

definition async_client_is_connected :: "async_client \<Rightarrow> bool" where
  "async_client_is_connected c = async_is_connected (ac_socket c)"

text \<open>\<open>stream\<close>: each packet is handled before it is given out; an error ends the generator.\<close>

definition async_client_step ::
  "ext \<Rightarrow> packet_stream option \<Rightarrow> async_client_state \<Rightarrow>
   (eio_error, eio_packet option) outcome \<times> async_client_state" where
  "async_client_step X st = (\<lambda>(c, w).
     case as_stream_next X st (ac_socket c, w) of
       (Ok None, st, s, w) \<Rightarrow> (Ok None, c\<lparr>ac_socket := s, ac_gen := GenOver\<rparr>, w)
     | (Ok (Some p), st, s, w) \<Rightarrow>
         (case async_handle_incoming X p (s, w) of
            (Ok _, s, w) \<Rightarrow> (Ok (Some p), c\<lparr>ac_socket := s, ac_gen := GenRunning st\<rparr>, w)
          | (Err e, s, w) \<Rightarrow> (Err e, c\<lparr>ac_socket := s, ac_gen := GenOver\<rparr>, w)
          | (Panic, s, w) \<Rightarrow> (Panic, c\<lparr>ac_socket := s\<rparr>, w)
          | (Hang, s, w) \<Rightarrow> (Hang, c\<lparr>ac_socket := s\<rparr>, w))
     | (Err e, st, s, w) \<Rightarrow> (Err e, c\<lparr>ac_socket := s, ac_gen := GenOver\<rparr>, w)
     | (Panic, st, s, w) \<Rightarrow> (Panic, c\<lparr>ac_socket := s\<rparr>, w)
     | (Hang, st, s, w) \<Rightarrow> (Hang, c\<lparr>ac_socket := s\<rparr>, w))"

definition async_client_next ::
  "ext \<Rightarrow> async_client_state \<Rightarrow> (eio_error, eio_packet option) outcome \<times> async_client_state" where
  "async_client_next X = (\<lambda>(c, w).
     case ac_gen c of
       GenNew \<Rightarrow> async_client_step X (as_stream (ac_socket c)) (c, w)
     | GenRunning st \<Rightarrow> async_client_step X st (c, w)
     | GenOver \<Rightarrow> (Ok None, c, w))"

subsection \<open>The builder\<close>

definition async_builder_new :: "ext \<Rightarrow> url \<Rightarrow> eio_builder" where
  "async_builder_new X u =
     (let u1 = url_append_pair X ''EIO'' (show_nat ENGINE_IO_VERSION) u;
          u2 = (if url_path X u1 = ''/'' then url_set_path X ''/engine.io/'' u1 else u1)
      in \<lparr>cb_url = u2, cb_tls = None, cb_headers = None, cb_handshake = None,
          cb_on_error = async_callback_default, cb_on_open = async_callback_default,
          cb_on_close = async_callback_default, cb_on_data = async_callback_default,
          cb_on_packet = async_callback_default\<rparr>)"

definition async_builder_tls_config :: "tls \<Rightarrow> eio_builder \<Rightarrow> eio_builder" where
  "async_builder_tls_config t b = b\<lparr>cb_tls := Some t\<rparr>"

definition async_builder_headers :: "header_map \<Rightarrow> eio_builder \<Rightarrow> eio_builder" where
  "async_builder_headers h b = b\<lparr>cb_headers := Some h\<rparr>"

definition async_builder_on_close :: "callback \<Rightarrow> eio_builder \<Rightarrow> eio_builder" where
  "async_builder_on_close f b = b\<lparr>cb_on_close := async_callback_new f\<rparr>"

definition async_builder_on_data :: "callback \<Rightarrow> eio_builder \<Rightarrow> eio_builder" where
  "async_builder_on_data f b = b\<lparr>cb_on_data := async_callback_new f\<rparr>"

definition async_builder_on_error :: "callback \<Rightarrow> eio_builder \<Rightarrow> eio_builder" where
  "async_builder_on_error f b = b\<lparr>cb_on_error := async_callback_new f\<rparr>"

definition async_builder_on_open :: "callback \<Rightarrow> eio_builder \<Rightarrow> eio_builder" where
  "async_builder_on_open f b = b\<lparr>cb_on_open := async_callback_new f\<rparr>"

definition async_builder_on_packet :: "callback \<Rightarrow> eio_builder \<Rightarrow> eio_builder" where
  "async_builder_on_packet f b = b\<lparr>cb_on_packet := async_callback_new f\<rparr>"

text \<open>\<open>next\<close> is that of the transport the handshake goes over, without a deadline.\<close>

definition async_handshake_with_transport ::
  "ext \<Rightarrow> (world \<Rightarrow> bytes polled \<times> world) \<Rightarrow> eio_builder \<times> world \<Rightarrow> (eio_error, unit) outcome \<times> eio_builder \<times> world" where
  "async_handshake_with_transport X next = (\<lambda>(b, w).
     if cb_handshake b \<noteq> None then (Ok (), b, w)
     else case next w of (r, w) \<Rightarrow>
       ques (and_then r (\<lambda>i. and_then (case i of InTime d \<Rightarrow> ok_or d IncompletePacket | Elapsed \<Rightarrow> Hang) (\<lambda>d.
               and_then (eio_packet_try_from (b64 X) d) (handshake_try_from (json_handshake X)))), b, w) (\<lambda>h (b, w).
         (Ok (), b\<lparr>cb_handshake := Some h, cb_url := url_append_pair X ''sid'' (sid h) (cb_url b)\<rparr>, w)))"

definition async_handshake :: "ext \<Rightarrow> eio_builder \<times> world \<Rightarrow> (eio_error, unit) outcome \<times> eio_builder \<times> world" where
  "async_handshake X = (\<lambda>(b, w).
     if cb_handshake b \<noteq> None then (Ok (), b, w)
     else ques (and_then (convert_headers X (cb_headers b)) (async_polling_new X (cb_url b) (cb_tls b)), b, w)
       (\<lambda>t bw. async_handshake_with_transport X
                 (\<lambda>w. let (r, t', w) = async_polling_next X None t w in (r, w)) bw))"

definition async_websocket_upgrade :: "eio_builder \<Rightarrow> (eio_error, bool) outcome" where
  "async_websocket_upgrade b =
     (case cb_handshake b of None \<Rightarrow> Ok False
      | Some h \<Rightarrow> Ok (list_ex (\<lambda>u. to_lowercase u = ''websocket'') (upgrades h)))"

definition async_client_of ::
  "ext \<Rightarrow> async_transport \<Rightarrow> eio_builder \<Rightarrow> world \<Rightarrow> (eio_error, async_client) outcome \<times> world" where
  "async_client_of X t b w =
     (and_then (unwrap (cb_handshake b)) (\<lambda>h.
      and_then (async_socket_new X t h (cb_on_close b) (cb_on_data b) (cb_on_error b) (cb_on_open b)
          (cb_on_packet b) w) (\<lambda>s. Ok (async_client_new s))), w)"

definition async_build_polling :: "ext \<Rightarrow> eio_builder \<Rightarrow> world \<Rightarrow> (eio_error, async_client) outcome \<times> world" where
  "async_build_polling X b w =
     (case async_handshake X (b, w) of
        (Ok _, b, w) \<Rightarrow>
          ques (and_then (unwrap_headers X (cb_headers b)) (async_polling_new X (cb_url b) (cb_tls b)), w) (\<lambda>t w.
            async_client_of X (async_transport_from_polling t) b w)
      | (Err e, b, w) \<Rightarrow> (Err e, w)
      | (Panic, b, w) \<Rightarrow> (Panic, w)
      | (Hang, b, w) \<Rightarrow> (Hang, w))"

definition async_websocket_ready ::
  "ext \<Rightarrow> (world \<Rightarrow> (eio_error, unit) outcome \<times> world) \<Rightarrow> (world \<Rightarrow> bytes polled \<times> world) \<Rightarrow>
   async_transport \<Rightarrow> eio_builder \<Rightarrow> world \<Rightarrow> (eio_error, async_client) outcome \<times> world" where
  "async_websocket_ready X upgrade next t b w =
     (if cb_handshake b \<noteq> None
      then ques (upgrade w) (\<lambda>_ w. async_client_of X t b w)
      else case async_handshake_with_transport X next (b, w) of
             (Ok _, b, w) \<Rightarrow> async_client_of X t b w
           | (Err e, b, w) \<Rightarrow> (Err e, w)
           | (Panic, b, w) \<Rightarrow> (Panic, w)
           | (Hang, b, w) \<Rightarrow> (Hang, w))"

definition async_build_websocket :: "ext \<Rightarrow> eio_builder \<Rightarrow> world \<Rightarrow> (eio_error, async_client) outcome \<times> world" where
  "async_build_websocket X b w =
     ques (convert_headers X (cb_headers b), w) (\<lambda>h w.
       if url_scheme X (cb_url b) \<in> {''http'', ''ws''} then
         ques (async_ws_new X (cb_url b) h w) (\<lambda>t w.
           async_websocket_ready X (async_ws_upgrade X t) (async_ws_stream_next X None t)
             (async_transport_from_ws t) b w)
       else if url_scheme X (cb_url b) \<in> {''https'', ''wss''} then
         ques (async_wss_new X (cb_url b) (cb_tls b) h w) (\<lambda>t w.
           async_websocket_ready X (async_wss_upgrade X t) (async_wss_stream_next X None t)
             (async_transport_from_wss t) b w)
       else (Err (InvalidUrlScheme (url_scheme X (cb_url b))), w))"

definition async_build_websocket_with_upgrade ::
  "ext \<Rightarrow> eio_builder \<Rightarrow> world \<Rightarrow> (eio_error, async_client) outcome \<times> world" where
  "async_build_websocket_with_upgrade X b w =
     (case async_handshake X (b, w) of
        (Ok _, b, w) \<Rightarrow>
          ques (async_websocket_upgrade b, w) (\<lambda>up w.
            if up then async_build_websocket X b w else (Err IllegalWebsocketUpgrade, w))
      | (Err e, b, w) \<Rightarrow> (Err e, w)
      | (Panic, b, w) \<Rightarrow> (Panic, w)
      | (Hang, b, w) \<Rightarrow> (Hang, w))"

definition async_build :: "ext \<Rightarrow> eio_builder \<Rightarrow> world \<Rightarrow> (eio_error, async_client) outcome \<times> world" where
  "async_build X b w =
     (case async_handshake X (b, w) of
        (Ok _, b, w) \<Rightarrow>
          ques (async_websocket_upgrade b, w) (\<lambda>up w.
            if up then async_build_websocket_with_upgrade X b w else async_build_polling X b w)
      | (Err e, b, w) \<Rightarrow> (Err e, w)
      | (Panic, b, w) \<Rightarrow> (Panic, w)
      | (Hang, b, w) \<Rightarrow> (Hang, w))"

definition async_build_with_fallback ::
  "ext \<Rightarrow> eio_builder \<Rightarrow> world \<Rightarrow> (eio_error, async_client) outcome \<times> world" where
  "async_build_with_fallback X b w =
     (case async_build X b w of
        (Err e, w) \<Rightarrow> async_build_polling X b w
      | r \<Rightarrow> r)"

subsection \<open>Properties\<close>

text \<open>
  A disconnected asynchronous client is over for good: disconnecting drops the packets still
  buffered in the shared generator, and every later \<open>next\<close> is the end of the stream.
\<close>

lemma async_client_over_after_disconnect:
  "async_client_next X (snd (async_client_disconnect X (c, w))) =
     (Ok None, snd (async_client_disconnect X (c, w))) \<and>
   as_transport (ac_socket (fst (snd (async_client_disconnect X (c, w))))) = None \<and>
   \<not> async_client_is_connected (fst (snd (async_client_disconnect X (c, w))))"
proof -
  obtain r s w1 where d: "async_socket_disconnect X (ac_socket c, w) = (r, s, w1)"
    by (cases "async_socket_disconnect X (ac_socket c, w)") auto
  with async_socket_disconnect_frame(1,2) [of X "ac_socket c" w] show ?thesis
    by (simp add: async_client_disconnect_def on_socket_def async_client_next_def generator_close_def
        async_client_is_connected_def async_is_connected_def)
qed

lemma async_handle_incoming_returned: "returned (fst (async_handle_incoming X p (s, w)))"
proof -
  have "returned (fst (async_emit_finish X q (s, w)))" for q s w
    using async_transport.send_returned [of X "pe_transport q" "pe_data q" "pe_binary q" w]
    by (cases "async_transport_emit X (pe_transport q) (pe_data q) (pe_binary q) w";
        cases "fst (async_transport_emit X (pe_transport q) (pe_data q) (pe_binary q) w)")
       (auto simp: async_emit_finish_def)
  moreover have "returned (fst (async_emit_begin X p (s, w)))" for p s w
    by (simp add: async_emit_begin_def Let_def split: option.split)
  moreover have "returned (fst (ques rs k))"
    if "returned (fst rs)" "\<And>q s w. returned (fst (k q (s, w)))"
    for rs :: "(eio_error, async_pending) outcome \<times> async_state" and k :: "async_pending \<Rightarrow> async_state \<Rightarrow> (eio_error, unit) outcome \<times> async_state"
    using that by (cases rs; cases "fst rs") auto
  ultimately have emit: "returned (fst (async_socket_emit X p (s, w)))" for p s w
    by (simp add: async_socket_emit_def)
  have "returned (fst (ques (async_socket_emit X p (s, w)) (\<lambda>_ sw. (Ok (), sw))))" for p s w
    using emit [of p s w] by (cases "async_socket_emit X p (s, w)"; cases "fst (async_socket_emit X p (s, w))") auto
  then show ?thesis
    by (cases "packet_id p")
       (simp_all add: async_handle_incoming_def async_handle_packet_def async_pinged_def Let_def)
qed

text \<open>
  The asynchronous client never panics over a packet it has read: an open or a pong packet from
  the server is the error \<open>InvalidPacket\<close>, and ends the stream like every error.
\<close>

lemma async_client_rejects_server_pong:
  assumes "as_stream_next X st (ac_socket c, w) = (Ok (Some p), st', s, w1)"
  shows "returned (fst (async_client_step X st (c, w))) \<and>
    (packet_id p \<in> {Open, Pong} \<longrightarrow>
       fst (async_client_step X st (c, w)) = Err InvalidPacket \<and>
       ac_gen (fst (snd (async_client_step X st (c, w)))) = GenOver) \<and>
    (packet_id p \<notin> {Open, Pong, Ping} \<longrightarrow> fst (async_client_step X st (c, w)) = Ok (Some p))"
proof -
  obtain r s2 w2 where h: "async_handle_incoming X p (s, w1) = (r, s2, w2)"
    by (cases "async_handle_incoming X p (s, w1)") auto
  have ret: "returned r" using async_handle_incoming_returned [of X p s w1] h by simp
  have pong: "r = Err InvalidPacket" if "packet_id p \<in> {Open, Pong}"
    using that h by (auto simp: async_handle_incoming_def async_handle_packet_def Let_def)
  have other: "r = Ok ()" if "packet_id p \<notin> {Open, Pong, Ping}"
    using that h by (cases "packet_id p") (auto simp: async_handle_incoming_def async_handle_packet_def Let_def)
  from ret show ?thesis
    using assms h pong other by (cases r) (auto simp: async_client_step_def)
qed

definition demo_stream :: "eio_packet list \<Rightarrow> packet_stream" where
  "demo_stream ps = \<lparr>st_transport = AsyncWebsocket demo_ws, st_packets = ps, st_over = False\<rparr>"

lemma plain_message_decodes:
  "a \<noteq> '''' \<Longrightarrow> SEPARATOR \<notin> set a \<Longrightarrow> eio_payload_try_from B (CHR ''4'' # a) = Ok [eio_packet_new Message a]"
  by (simp add: eio_payload_try_from_def eio_packet_try_from_Cons byte_u8_def eio_packet_id_try_from_def)

text \<open>
  C36. The asynchronous polling stream takes each chunk of a response body for a whole payload. A
  message cut by a chunk boundary is delivered truncated, where the whole body decodes to the
  whole message.
\<close>

theorem async_chunk_truncates_message:
  assumes "ap_state t = PollChunks (Inr (CHR ''4'' # a) # Inr r # cs)" and "a \<noteq> ''''"
    and "SEPARATOR \<notin> set (a @ r)" and "1 < loop_fuel X"
  shows "fst (packet_stream_next X dl (packet_stream_new (AsyncPolling t)) w) =
      Ok (InTime (Some (eio_packet_new Message a))) \<and>
    parse_payload X (concat [CHR ''4'' # a, r]) = Ok [eio_packet_new Message (a @ r)]"
proof -
  obtain n where n: "loop_fuel X = Suc (Suc n)" using assms(4) by (cases "loop_fuel X"; cases "loop_fuel X - 1") auto
  have "async_polling_next X dl t w = (Ok (InTime (Some (CHR ''4'' # a))), t\<lparr>ap_state := PollChunks (Inr r # cs)\<rparr>, w)"
    using assms(1) by (simp add: async_polling_next_def generator_poll_next_def generator_new_def n)
  with assms show ?thesis
    by (simp add: packet_stream_next_def n packet_stream_new_def parse_payload_def plain_message_decodes)
qed

theorem async_chunk_truncates_message_witness:
  "fst (packet_stream_next demo_ext None (packet_stream_new (AsyncPolling
      \<lparr>ap_url = ''http://h/'', ap_tls = None, ap_headers = None, ap_stream_url = ''http://h/'',
       ap_state = PollChunks [Inr ''4he'', Inr ''llo'']\<rparr>)) demo_world) =
   Ok (InTime (Some (eio_packet_new Message ''he'')))"
  using async_chunk_truncates_message [of "\<lparr>ap_url = ''http://h/'', ap_tls = None, ap_headers = None,
      ap_stream_url = ''http://h/'', ap_state = PollChunks [Inr ''4he'', Inr ''llo'']\<rparr>" "''he''" "''llo''" "[]" demo_ext None]
  by (simp add: demo_ext_def)

end
