(* ===== verification/Sio_Async_Socket.thy ===== *)
theory Sio_Async_Socket
  imports Sio_Socket Eio_Async_Client
begin

text \<open>
  \<open>socketio/src/asynchronous/socket.rs\<close> and \<open>generator.rs\<close>: the asynchronous socket. Its stream is a
  generator over the engine's stream: \<open>sa_over\<close> says that it has been closed, has ended, or has
  given out an error, after which \<open>try_stream!\<close> gives nothing more. A panic inside it does not mark it
  as done: \<open>sa_panicked\<close>, and polling it again panics again (a generator resumed after panicking).
\<close>

record sio_async_socket =
  sa_engine :: async_client
  sa_connected :: bool
  sa_over :: bool
  sa_panicked :: bool

type_synonym sio_async_state = "sio_async_socket \<times> world"

definition sio_async_socket_new :: "async_client \<Rightarrow> (sio_error, sio_async_socket) outcome" where
  "sio_async_socket_new e = Ok \<lparr>sa_engine = e, sa_connected = False, sa_over = False, sa_panicked = False\<rparr>"

definition on_async_engine ::
  "(async_client_state \<Rightarrow> (eio_error, 'a) outcome \<times> async_client_state) \<Rightarrow> sio_async_state \<Rightarrow>
   (sio_error, 'a) outcome \<times> sio_async_state" where
  "on_async_engine f = (\<lambda>(s, w). case f (sa_engine s, w) of (r, e, w) \<Rightarrow>
     (map_err SioIncompleteResponseFromEngineIo r, s\<lparr>sa_engine := e\<rparr>, w))"

definition sio_async_is_engineio_connected :: "sio_async_socket \<Rightarrow> bool" where
  "sio_async_is_engineio_connected s = async_client_is_connected (sa_engine s)"

definition sio_async_connect :: "ext \<Rightarrow> sio_async_state \<Rightarrow> (sio_error, unit) outcome \<times> sio_async_state" where
  "sio_async_connect X sw =
     ques (on_async_engine (async_client_connect X) sw) (\<lambda>_ (s, w). (Ok (), s\<lparr>sa_connected := True\<rparr>, w))"

text \<open>\<open>close\<close> puts an empty stream in the place of the generator, whatever its state.\<close>

definition sio_generator_close :: "sio_async_socket \<Rightarrow> sio_async_socket" where
  "sio_generator_close s = s\<lparr>sa_over := True, sa_panicked := False\<rparr>"

definition sio_async_disconnect :: "ext \<Rightarrow> sio_async_state \<Rightarrow> (sio_error, unit) outcome \<times> sio_async_state" where
  "sio_async_disconnect X = (\<lambda>(s, w).
     case on_async_engine (async_client_disconnect X) (sio_generator_close (s\<lparr>sa_connected := False\<rparr>), w) of
       (r, s, w) \<Rightarrow> (r, s\<lparr>sa_connected := False\<rparr>, w))"

fun sio_async_send_attachments :: "ext \<Rightarrow> bytes list \<Rightarrow> sio_async_state \<Rightarrow> (sio_error, unit) outcome \<times> sio_async_state" where
  "sio_async_send_attachments X [] sw = (Ok (), sw)"
| "sio_async_send_attachments X (a # as) sw =
     ques (on_async_engine (async_client_emit X (eio_packet_new MessageBinary a)) sw) (\<lambda>_ sw.
       sio_async_send_attachments X as sw)"

definition sio_async_send :: "ext \<Rightarrow> sio_packet \<Rightarrow> sio_async_state \<Rightarrow> (sio_error, unit) outcome \<times> sio_async_state" where
  "sio_async_send X p = (\<lambda>(s, w).
     if \<not> sio_async_is_engineio_connected s \<or> \<not> sa_connected s then (Err SioIllegalActionBeforeOpen, s, w)
     else ques (sio_packet_into_bytes (overflow_checks X) p, s, w) (\<lambda>b sw.
       ques (on_async_engine (async_client_emit X (eio_packet_new Message b)) sw) (\<lambda>_ sw.
         case attachments p of
           Some as \<Rightarrow> sio_async_send_attachments X as sw
         | None \<Rightarrow> (Ok (), sw))))"

definition sio_async_emit ::
  "ext \<Rightarrow> bytes \<Rightarrow> event \<Rightarrow> payload \<Rightarrow> sio_async_state \<Rightarrow> (sio_error, unit) outcome \<times> sio_async_state" where
  "sio_async_emit X n e d sw =
     ques (new_from_payload (json X) d e n None, sw) (\<lambda>p sw. sio_async_send X p sw)"

definition sio_async_ack ::
  "ext \<Rightarrow> bytes \<Rightarrow> payload \<Rightarrow> i32 option \<Rightarrow> sio_async_state \<Rightarrow> (sio_error, unit) outcome \<times> sio_async_state" where
  "sio_async_ack X n d i sw =
     ques (ack_from_payload (json X) d n i, sw) (\<lambda>p sw. sio_async_send X p sw)"

definition sio_async_handle_socketio_packet :: "sio_packet \<Rightarrow> sio_async_socket \<Rightarrow> sio_async_socket" where
  "sio_async_handle_socketio_packet p s = (case packet_type p of
     Connect \<Rightarrow> s\<lparr>sa_connected := True\<rparr>
   | ConnectError \<Rightarrow> s\<lparr>sa_connected := False\<rparr>
   | Disconnect \<Rightarrow> s\<lparr>sa_connected := False\<rparr>
   | _ \<Rightarrow> s)"

text \<open>\<open>client.next().await.unwrap()\<close>: a stream that ends among the attachments panics.\<close>

fun sio_async_read_attachments ::
  "nat \<Rightarrow> ext \<Rightarrow> bytes list \<Rightarrow> sio_async_state \<Rightarrow> (sio_error, bytes list) outcome \<times> sio_async_state" where
  "sio_async_read_attachments 0 X as sw = (Ok as, sw)"
| "sio_async_read_attachments (Suc k) X as sw =
     ques (on_async_engine (async_client_next X) sw) (\<lambda>r sw.
       case r of
         None \<Rightarrow> (Panic, sw)
       | Some p \<Rightarrow>
           (if packet_id p \<in> {MessageBinary, Message}
            then sio_async_read_attachments k X (as @ [data p]) sw
            else (Err (SioInvalidAttachmentPacketType (eio_packet_id_to_u8 (packet_id p))), sw)))"

definition sio_async_handle_engineio_packet ::
  "ext \<Rightarrow> eio_packet \<Rightarrow> sio_async_state \<Rightarrow> (sio_error, sio_packet) outcome \<times> sio_async_state" where
  "sio_async_handle_engineio_packet X ep sw =
     ques (sio_packet_try_from (json X) (data ep), sw) (\<lambda>p sw.
       if attachment_count p > 0
       then ques (sio_async_read_attachments (unat (attachment_count p)) X [] sw) (\<lambda>as sw.
              (Ok (p\<lparr>attachments := Some as\<rparr>), sw))
       else (Ok p, sw))"

text \<open>One \<open>next\<close> of \<open>stream\<close>, until it yields.\<close>

fun sio_async_stream_loop :: "nat \<Rightarrow> ext \<Rightarrow> sio_async_state \<Rightarrow> (sio_error, sio_packet option) outcome \<times> sio_async_state" where
  "sio_async_stream_loop 0 X sw = (Hang, sw)"
| "sio_async_stream_loop (Suc n) X sw =
     ques (on_async_engine (async_client_next X) sw) (\<lambda>r sw.
       case r of
         None \<Rightarrow> (Ok None, sw)
       | Some ep \<Rightarrow>
           if packet_id ep = Message \<or> packet_id ep = MessageBinary
           then ques (sio_async_handle_engineio_packet X ep sw) (\<lambda>p (s, w).
                  (Ok (Some p), sio_async_handle_socketio_packet p s, w))
           else sio_async_stream_loop n X sw)"

definition sio_async_next :: "ext \<Rightarrow> sio_async_state \<Rightarrow> (sio_error, sio_packet option) outcome \<times> sio_async_state" where
  "sio_async_next X = (\<lambda>(s, w).
     if sa_over s then (Ok None, s, w)
     else if sa_panicked s then (Panic, s, w)
     else case sio_async_stream_loop (loop_fuel X) X (s, w) of
         (Ok None, s, w) \<Rightarrow> (Ok None, s\<lparr>sa_over := True\<rparr>, w)
       | (Err e, s, w) \<Rightarrow> (Err e, s\<lparr>sa_over := True\<rparr>, w)
       | (Panic, s, w) \<Rightarrow> (Panic, s\<lparr>sa_panicked := True\<rparr>, w)
       | (r, s, w) \<Rightarrow> (r, s, w))"

subsection \<open>The contract of a connection\<close>

definition sio_async_is_open :: "sio_async_socket \<Rightarrow> bool" where
  "sio_async_is_open s \<longleftrightarrow> sa_connected s \<and> async_client_is_connected (sa_engine s)"

lemma sio_async_send_closed:
  "\<not> sio_async_is_open s \<Longrightarrow> sio_async_send X p (s, w) = (Err SioIllegalActionBeforeOpen, s, w)"
  by (auto simp: sio_async_send_def sio_async_is_open_def sio_async_is_engineio_connected_def)

lemma sio_async_disconnect_frame:
  assumes "sio_async_disconnect X (s, w) = (r, s', w')"
  shows "\<not> sa_connected s'" and "sa_over s'" and "ac_gen (sa_engine s') = GenOver"
    and "as_transport (ac_socket (sa_engine s')) = None" and "grows w w'"
proof -
  obtain r1 e w1 where d: "async_socket_disconnect X (ac_socket (sa_engine s), w) = (r1, e, w1)"
    by (cases "async_socket_disconnect X (ac_socket (sa_engine s), w)") auto
  with async_socket_disconnect_frame [where w = w and X = X and s = "ac_socket (sa_engine s)"] assms
  show "\<not> sa_connected s'" and "sa_over s'" and "ac_gen (sa_engine s') = GenOver"
    and "as_transport (ac_socket (sa_engine s')) = None" and "grows w w'"
    by (auto simp: sio_async_disconnect_def on_async_engine_def async_client_disconnect_def on_socket_def
        sio_generator_close_def generator_close_def)
qed

interpretation sio_async_connection: connection sio_async_is_open "sio_async_send X" "sio_async_disconnect X"
  SioIllegalActionBeforeOpen for X
proof unfold_locales
  fix s :: sio_async_socket and m w assume "\<not> sio_async_is_open s"
  then show "\<exists>w'. sio_async_send X m (s, w) = (Err SioIllegalActionBeforeOpen, s, w') \<and>
      sent w' = sent w \<and> grows w w'"
    by (simp add: sio_async_send_closed)
next
  fix s :: sio_async_socket and w
  obtain r s' w' where d: "sio_async_disconnect X (s, w) = (r, s', w')" by (cases "sio_async_disconnect X (s, w)") auto
  from sio_async_disconnect_frame [OF d] d
  show "\<not> sio_async_is_open (fst (snd (sio_async_disconnect X (s, w))))"
    "grows w (snd (snd (sio_async_disconnect X (s, w))))"
    by (simp_all add: sio_async_is_open_def)
qed

subsection \<open>Attachments that do not come\<close>

text \<open>
  C39. The asynchronous connection ends between a packet and an attachment it announces: the stream
  panics, and whoever asks it again panics again. An error of the engine at the same place is an error
  item, after which the stream is over.
\<close>

theorem missing_attachment_panics:
  assumes "sio_packet_try_from (json X) (data ep) = Ok p" and "attachment_count p > 0"
    and "packet_id ep = Message" and "0 < loop_fuel X" and "\<not> sa_over s" and "\<not> sa_panicked s"
    and "async_client_next X (sa_engine s, w) = (Ok (Some ep), e1, w1)"
    and "async_client_next X (e1, w1) = (r, e2, w2)" and "r = Ok None \<or> r = Err e"
  shows "\<exists>s'. sio_async_next X (s, w) =
      (if r = Ok None then Panic else Err (SioIncompleteResponseFromEngineIo e), s', w2) \<and>
    sio_async_next X (s', w2) = (if r = Ok None then Panic else Ok None, s', w2)"
proof -
  obtain k where k: "unat (attachment_count p) = Suc k" using unat_pos_Suc [OF assms(2)] by blast
  obtain n where n: "loop_fuel X = Suc n" using assms(4) by (cases "loop_fuel X") auto
  show ?thesis
    using assms k n
    by (cases s) (auto simp: sio_async_next_def on_async_engine_def sio_async_handle_engineio_packet_def)
qed

definition demo_async_sio :: "eio_packet list \<Rightarrow> sio_async_socket" where
  "demo_async_sio ps = \<lparr>sa_engine = \<lparr>ac_socket = demo_async_ws, ac_gen = GenRunning (Some (demo_stream ps))\<rparr>,
     sa_connected = True, sa_over = False, sa_panicked = False\<rparr>"

abbreviation demo_engine :: "eio_packet list \<Rightarrow> async_client" where
  "demo_engine ps \<equiv> \<lparr>ac_socket = demo_async_ws, ac_gen = GenRunning (Some (demo_stream ps))\<rparr>"

lemma demo_engine_first:
  "async_client_next demo_ext (demo_engine (eio_packet_new Message d # ps), w) =
     (Ok (Some (eio_packet_new Message d)), demo_engine ps, w)"
proof -
  obtain n where n: "loop_fuel demo_ext = Suc n" by (simp add: demo_ext_def)
  show ?thesis
    by (simp add: async_client_next_def async_client_step_def as_stream_next_def
        packet_stream_next_def n demo_stream_def eio_packet_new_def async_handle_incoming_def
        async_handle_packet_def async_handle_data_def demo_async_ws_def spawn_opt_def Let_def)
qed

lemma demo_engine_end: "\<exists>e w'. async_client_next demo_ext (demo_engine [], demo_world) = (Ok None, e, w')"
proof -
  obtain n where n: "loop_fuel demo_ext = Suc n" by (simp add: demo_ext_def)
  have left: "async_time_to_next_ping (demo_async_ws, demo_world) = 45"
    by (simp add: async_time_to_next_ping_def demo_async_ws_def)
  have recv: "net_recv demo_ext c k = (0, WsEnd)" for c k by (simp add: demo_ext_def)
  show ?thesis
    by (simp add: async_client_next_def async_client_step_def as_stream_next_def packet_stream_next_def n
        demo_stream_def left async_ws_stream_next_def ws_stream_is_poll ws_general_poll_next_def ws_poll_loop_Suc
        ws_recv_def past_def recv in_time_def Let_def)
qed

theorem missing_attachment_panics_witness:
  "\<exists>s' w'. sio_async_next demo_ext (demo_async_sio [eio_packet_new Message (sio_text demo_binary_event)], demo_world) =
      (Panic, s', w') \<and> sio_async_next demo_ext (s', w') = (Panic, s', w')"
proof -
  let ?ep = "eio_packet_new Message (sio_text demo_binary_event)"
  obtain e2 w2 where "async_client_next demo_ext (demo_engine [], demo_world) = (Ok None, e2, w2)"
    using demo_engine_end by blast
  then show ?thesis
    using missing_attachment_panics [of demo_ext ?ep demo_binary_event "demo_async_sio [?ep]" demo_world
        "demo_engine []" demo_world "Ok None" e2 w2]
      sio_packet_dec_enc [OF demo_binary_event_wf] demo_engine_first [of "sio_text demo_binary_event" "[]" demo_world]
    by (auto simp: demo_ext_def eio_packet_new_def demo_async_sio_def demo_binary_event_def sio_packet_new_def)
qed

end
