(* ===== verification/Sio_Async_Builder.thy ===== *)
theory Sio_Async_Builder
  imports Sio_Builder Sio_Async_Socket
begin

text \<open>
  \<open>socketio/src/asynchronous/client/builder.rs\<close>: the builder of the asynchronous client. The client
  keeps the builder it was made from, behind a lock, and its callbacks do not change after that.
\<close>

record asio_builder =
  ab_address :: bytes
  ab_on :: "event \<rightharpoonup> callback"
  ab_on_any :: "callback option"
  ab_on_close :: "callback option"
  ab_on_reconnect :: "callback option"
  ab_namespace :: bytes
  ab_tls :: "tls option"
  ab_headers :: "header_map option"
  ab_transport :: transport_type
  ab_auth :: "json option"
  ab_reconnect :: bool
  ab_reconnect_on_disconnect :: bool
  ab_max_attempts :: "u8 option"
  ab_delay_min :: u64
  ab_delay_max :: u64

definition asio_builder_new :: "bytes \<Rightarrow> asio_builder" where
  "asio_builder_new a = \<lparr>ab_address = a, ab_on = Map.empty, ab_on_any = None, ab_on_close = None,
     ab_on_reconnect = None, ab_namespace = ''/'', ab_tls = None, ab_headers = None,
     ab_transport = AnyTransport, ab_auth = None, ab_reconnect = True,
     ab_reconnect_on_disconnect = False, ab_max_attempts = None, ab_delay_min = 1000, ab_delay_max = 5000\<rparr>"

definition asio_builder_namespace :: "bytes \<Rightarrow> asio_builder \<Rightarrow> asio_builder" where
  "asio_builder_namespace n b =
     b\<lparr>ab_namespace := (if starts_with_char CHR ''/'' n then n else ''/'' @ n)\<rparr>"

definition asio_builder_on :: "event \<Rightarrow> callback \<Rightarrow> asio_builder \<Rightarrow> asio_builder" where
  "asio_builder_on e h b = b\<lparr>ab_on := (ab_on b)(e \<mapsto> h)\<rparr>"

definition asio_builder_on_close_with_session :: "callback \<Rightarrow> asio_builder \<Rightarrow> asio_builder" where
  "asio_builder_on_close_with_session h b = b\<lparr>ab_on_close := Some h\<rparr>"

definition asio_builder_on_reconnect :: "callback \<Rightarrow> asio_builder \<Rightarrow> asio_builder" where
  "asio_builder_on_reconnect h b = b\<lparr>ab_on_reconnect := Some h\<rparr>"

definition asio_builder_on_any :: "callback \<Rightarrow> asio_builder \<Rightarrow> asio_builder" where
  "asio_builder_on_any h b = b\<lparr>ab_on_any := Some h\<rparr>"

definition asio_builder_tls_config :: "tls \<Rightarrow> asio_builder \<Rightarrow> asio_builder" where
  "asio_builder_tls_config t b = b\<lparr>ab_tls := Some t\<rparr>"

definition asio_builder_opening_header :: "bytes \<Rightarrow> bytes \<Rightarrow> asio_builder \<Rightarrow> asio_builder" where
  "asio_builder_opening_header k v b = b\<lparr>ab_headers := (case ab_headers b of
       Some m \<Rightarrow> Some (snd (header_map_insert k v m))
     | None \<Rightarrow> Some (snd (header_map_insert k v [])))\<rparr>"

definition asio_builder_auth :: "json \<Rightarrow> asio_builder \<Rightarrow> asio_builder" where
  "asio_builder_auth v b = b\<lparr>ab_auth := Some v\<rparr>"

definition asio_builder_transport_type :: "transport_type \<Rightarrow> asio_builder \<Rightarrow> asio_builder" where
  "asio_builder_transport_type t b = b\<lparr>ab_transport := t\<rparr>"

definition asio_builder_reconnect :: "bool \<Rightarrow> asio_builder \<Rightarrow> asio_builder" where
  "asio_builder_reconnect r b = b\<lparr>ab_reconnect := r\<rparr>"

definition asio_builder_reconnect_on_disconnect :: "bool \<Rightarrow> asio_builder \<Rightarrow> asio_builder" where
  "asio_builder_reconnect_on_disconnect r b = b\<lparr>ab_reconnect_on_disconnect := r\<rparr>"

definition asio_builder_reconnect_delay :: "u64 \<Rightarrow> u64 \<Rightarrow> asio_builder \<Rightarrow> asio_builder" where
  "asio_builder_reconnect_delay mn mx b = b\<lparr>ab_delay_min := mn, ab_delay_max := mx\<rparr>"

definition asio_builder_max_reconnect_attempts :: "u8 \<Rightarrow> asio_builder \<Rightarrow> asio_builder" where
  "asio_builder_max_reconnect_attempts n b = b\<lparr>ab_max_attempts := Some n\<rparr>"

text \<open>\<open>inner_create\<close>: the socket, not connected yet.\<close>

definition async_engine_builder_of :: "ext \<Rightarrow> asio_builder \<Rightarrow> url \<Rightarrow> eio_builder" where
  "async_engine_builder_of X b u =
     (let u = (if url_path X u = ''/'' then url_set_path X ''/socket.io/'' u else u);
          e = async_builder_new X u;
          e = (case ab_tls b of Some t \<Rightarrow> async_builder_tls_config t e | None \<Rightarrow> e)
      in case ab_headers b of Some h \<Rightarrow> async_builder_headers h e | None \<Rightarrow> e)"

definition build_async_engine ::
  "ext \<Rightarrow> transport_type \<Rightarrow> eio_builder \<Rightarrow> world \<Rightarrow> (eio_error, async_client) outcome \<times> world" where
  "build_async_engine X t e w = (case t of
     AnyTransport \<Rightarrow> async_build_with_fallback X e w
   | PollingTransport \<Rightarrow> async_build_polling X e w
   | WebsocketTransport \<Rightarrow> async_build_websocket X e w
   | WebsocketUpgradeTransport \<Rightarrow> async_build_websocket_with_upgrade X e w)"

definition asio_inner_create :: "ext \<Rightarrow> asio_builder \<Rightarrow> world \<Rightarrow> (sio_error, sio_async_socket) outcome \<times> world" where
  "asio_inner_create X b w =
     ques (from_ext SioInvalidUrl (url_parse X (ab_address b)), w) (\<lambda>u w.
     ques (err_into SioIncompleteResponseFromEngineIo
         (build_async_engine X (ab_transport b) (async_engine_builder_of X b u) w)) (\<lambda>e w.
       (sio_async_socket_new e, w)))"

end
