(* ===== verification/Sio_Async_Client.thy ===== *)
theory Sio_Async_Client
  imports Sio_Async_Builder
begin

text \<open>
  \<open>socketio/src/asynchronous/client/client.rs\<close>, \<open>ack.rs\<close>, \<open>callback.rs\<close>: the asynchronous client. A
  packet is dispatched as a task of its own, a \<open>job\<close>; a task that has started is the calls it has
  still to make. The reader task is in one of the phases of its loop. What runs between two awaits
  is one step, and \<open>asio_step\<close> interleaves the steps of the tasks, the reader and the user's own
  calls; a call to the network, and an attempt to reconnect, is one step.
\<close>

datatype disconnect_reason = ReasonUnknown | ReasonManual | ReasonServer

record reconnect_settings =
  rs_address :: "bytes option"
  rs_auth :: "json option"
  rs_headers :: "header_map option"

definition reconnect_settings_new :: reconnect_settings where
  "reconnect_settings_new = \<lparr>rs_address = None, rs_auth = None, rs_headers = None\<rparr>"

definition reconnect_settings_address :: "bytes \<Rightarrow> reconnect_settings \<Rightarrow> reconnect_settings" where
  "reconnect_settings_address a r = r\<lparr>rs_address := Some a\<rparr>"

definition reconnect_settings_auth :: "json \<Rightarrow> reconnect_settings \<Rightarrow> reconnect_settings" where
  "reconnect_settings_auth v r = r\<lparr>rs_auth := Some v\<rparr>"

definition reconnect_settings_opening_header :: "bytes \<Rightarrow> bytes \<Rightarrow> reconnect_settings \<Rightarrow> reconnect_settings" where
  "reconnect_settings_opening_header k v r = r\<lparr>rs_headers :=
     Some (snd (header_map_insert k v (case rs_headers r of Some m \<Rightarrow> m | None \<Rightarrow> [])))\<rparr>"

text \<open>What a dispatch task is to do, and the calls of one that has started.\<close>

datatype job =
    JobAck sio_packet
  | JobBinaryEvent sio_packet
  | JobEvent sio_packet
  | JobCallback event payload
  | JobClose bytes u64

datatype call = CallUser callback callback_arg | CallAck ack sio_packet

datatype progress = Todo job | Calls "call list"

record dispatch_task =
  dt_work :: progress
  dt_terminal :: bool

text \<open>
  The phases of the reader: reading the stream, the stream has ended, or reconnecting with the
  attempts counted (a \<open>u8\<close>) and the delays taken from the back-off of this round.
\<close>

datatype reader = NoReader | Reading | StreamEnded | Reconnecting u8 nat | ReaderDone

record asio_client =
  xc_socket :: sio_async_socket
  xc_acks :: "ack list"
  xc_nsp :: bytes
  xc_auth :: "json option"
  xc_builder :: asio_builder
  xc_reason :: disconnect_reason
  xc_epoch :: u64
  xc_tasks :: "dispatch_task list"
  xc_reader :: reader

type_synonym asio_state = "asio_client \<times> world"

definition asio_client_new :: "sio_async_socket \<Rightarrow> asio_builder \<Rightarrow> asio_client" where
  "asio_client_new s b = \<lparr>xc_socket = s, xc_acks = [], xc_nsp = ab_namespace b, xc_auth = ab_auth b,
     xc_builder = b, xc_reason = ReasonUnknown, xc_epoch = 0, xc_tasks = [], xc_reader = NoReader\<rparr>"

definition asio_session_epoch :: "asio_client \<Rightarrow> u64" where
  "asio_session_epoch c = xc_epoch c"

definition on_asio :: "(sio_async_state \<Rightarrow> (sio_error, 'a) outcome \<times> sio_async_state) \<Rightarrow> asio_state \<Rightarrow>
    (sio_error, 'a) outcome \<times> asio_state" where
  "on_asio f = (\<lambda>(c, w). case f (xc_socket c, w) of (r, s, w) \<Rightarrow> (r, c\<lparr>xc_socket := s\<rparr>, w))"

definition asio_connect :: "ext \<Rightarrow> asio_state \<Rightarrow> (sio_error, unit) outcome \<times> asio_state" where
  "asio_connect X cw =
     ques (on_asio (sio_async_connect X) cw) (\<lambda>_ (c, w).
       let auth = map_option (json_to_string (json X)) (xc_auth c);
           p = sio_packet_new Connect (xc_nsp c) auth None 0 None in
       ques (on_asio (sio_async_send X p) (c, w)) (\<lambda>_ (c, w).
         (Ok (), c\<lparr>xc_epoch := xc_epoch c + 1\<rparr>, w)))"

definition asio_emit :: "ext \<Rightarrow> event \<Rightarrow> payload \<Rightarrow> asio_state \<Rightarrow> (sio_error, unit) outcome \<times> asio_state" where
  "asio_emit X e d = (\<lambda>(c, w). on_asio (sio_async_emit X (xc_nsp c) e d) (c, w))"

definition asio_ack :: "ext \<Rightarrow> payload \<Rightarrow> asio_state \<Rightarrow> (sio_error, unit) outcome \<times> asio_state" where
  "asio_ack X d = (\<lambda>(c, w). on_asio (sio_async_ack X (xc_nsp c) d None) (c, w))"

definition asio_ack_with_id :: "ext \<Rightarrow> i32 \<Rightarrow> payload \<Rightarrow> asio_state \<Rightarrow> (sio_error, unit) outcome \<times> asio_state" where
  "asio_ack_with_id X i d = (\<lambda>(c, w). on_asio (sio_async_ack X (xc_nsp c) d (Some i)) (c, w))"

definition asio_emit_with_ack ::
  "ext \<Rightarrow> event \<Rightarrow> payload \<Rightarrow> nat \<Rightarrow> callback \<Rightarrow> asio_state \<Rightarrow> (sio_error, unit) outcome \<times> asio_state" where
  "asio_emit_with_ack X e d ms h = (\<lambda>(c, w).
     let i = random_id X (length (trace w)) in
     ques (new_from_payload (json X) d e (xc_nsp c) (Some i), c, w) (\<lambda>p (c, w).
       let a = \<lparr>ak_id = i, ak_timeout = ms, ak_started = now w, ak_callback = h\<rparr> in
       on_asio (sio_async_send X p) (c\<lparr>xc_acks := xc_acks c @ [a]\<rparr>, w)))"

subsection \<open>Dispatch tasks\<close>

text \<open>Finished tasks leave the list of a model state on their own (step \<open>finish\<close> of \<open>asio_step\<close>).\<close>

definition spawn_dispatch :: "job \<Rightarrow> bool \<Rightarrow> asio_client \<Rightarrow> asio_client" where
  "spawn_dispatch j t c = c\<lparr>xc_tasks := xc_tasks c @ [\<lparr>dt_work = Todo j, dt_terminal = t\<rparr>]\<rparr>"

text \<open>
  \<open>JoinHandle::abort\<close> asks for a cancellation, which takes effect at the await the task is suspended at.
  The steps of the model go from one await to the next and are taken one at a time, as on tokio's
  current-thread runtime: whenever one task aborts others, those are suspended and never run again, so
  they leave the list at once. On a runtime with several threads an aborted task may be in the middle
  of such a piece and finish it; the model has the piece before the abort.
\<close>

definition abort_dispatch :: "bool \<Rightarrow> asio_client \<Rightarrow> asio_client" where
  "abort_dispatch all_tasks c = c\<lparr>xc_tasks := filter (\<lambda>t. \<not> (all_tasks \<or> \<not> dt_terminal t)) (xc_tasks c)\<rparr>"

text \<open>The calls \<open>callback\<close> makes, its registrations read from the builder.\<close>

definition callback_calls :: "asio_builder \<Rightarrow> event \<Rightarrow> payload \<Rightarrow> i32 option \<Rightarrow> call list" where
  "callback_calls b e d i = (let d = set_ack_id i d in
     (case ab_on b e of Some h \<Rightarrow> [CallUser h (ArgPayload d)] | None \<Rightarrow> []) @
     (case (if wants_any e then ab_on_any b else None) of Some h \<Rightarrow> [CallUser h (ArgEvent e d)] | None \<Rightarrow> []))"

definition callback_close_calls :: "ext \<Rightarrow> asio_builder \<Rightarrow> bytes \<Rightarrow> u64 \<Rightarrow> call list" where
  "callback_close_calls X b reason ep =
     callback_calls b EvClose (payload_from_str (json X) reason) None @
     (case ab_on_close b of
        Some h \<Rightarrow> [CallUser h (ArgClose (payload_from_str (json X) reason) ep)] | None \<Rightarrow> [])"

text \<open>\<open>handle_ack\<close>: all acks with the id are taken out; each is looked at when its turn comes.\<close>

definition asio_handle_ack :: "sio_packet \<Rightarrow> asio_client \<Rightarrow> call list \<times> asio_client" where
  "asio_handle_ack p c = (case pkt_id p of
     None \<Rightarrow> ([], c)
   | Some i \<Rightarrow> (map (\<lambda>a. CallAck a p) (filter (\<lambda>a. ak_id a = i) (xc_acks c)),
       c\<lparr>xc_acks := filter (\<lambda>a. ak_id a \<noteq> i) (xc_acks c)\<rparr>))"

definition ack_calls :: "ext \<Rightarrow> ack \<Rightarrow> sio_packet \<Rightarrow> world \<Rightarrow> call list" where
  "ack_calls X a p w =
     (if now w - ak_started a < ak_timeout a
      then (case pkt_data p of
              Some s \<Rightarrow> [CallUser (ak_callback a)
                 (ArgPayload (set_ack_id (pkt_id p) (payload_from_string (json X) s)))]
            | None \<Rightarrow> []) @
           (case attachments p of
              Some (d # ds) \<Rightarrow> [CallUser (ak_callback a) (ArgPayload (PBinary d (pkt_id p)))]
            | _ \<Rightarrow> [])
      else [])"

definition asio_handle_binary_event :: "asio_builder \<Rightarrow> sio_packet \<Rightarrow> (sio_error, call list) outcome" where
  "asio_handle_binary_event b p =
     (let e = (case pkt_data p of Some s \<Rightarrow> event_from (filter (\<lambda>c. c \<noteq> CHR ''\"'') s) | None \<Rightarrow> EvMessage)
      in case attachments p of
        Some (d # ds) \<Rightarrow> Ok (callback_calls b e (PBinary d (pkt_id p)) (pkt_id p))
      | _ \<Rightarrow> Ok [])"

definition asio_handle_event :: "ext \<Rightarrow> asio_builder \<Rightarrow> sio_packet \<Rightarrow> (sio_error, call list) outcome" where
  "asio_handle_event X b p = (case pkt_data p of None \<Rightarrow> Ok [] | Some s \<Rightarrow>
     (case json_from_str (json X) s of
        Inr (JArray vs) \<Rightarrow> and_then (split_event vs) (\<lambda>(e, ps).
          Ok (callback_calls b e (payload_from_values ps) (pkt_id p)))
      | _ \<Rightarrow> Ok []))"

text \<open>An error of a handler is told to the \<open>error\<close> callback by the same task.\<close>

definition or_error_callback :: "ext \<Rightarrow> asio_builder \<Rightarrow> (sio_error, call list) outcome \<Rightarrow> call list" where
  "or_error_callback X b r = (case r of
     Ok cs \<Rightarrow> cs
   | Err e \<Rightarrow> callback_calls b EvError (payload_from_string (json X) (sio_error_display e)) None
   | _ \<Rightarrow> [])"

fun start_job :: "ext \<Rightarrow> job \<Rightarrow> asio_client \<Rightarrow> call list \<times> asio_client" where
  "start_job X (JobAck p) c = asio_handle_ack p c"
| "start_job X (JobBinaryEvent p) c = (or_error_callback X (xc_builder c) (asio_handle_binary_event (xc_builder c) p), c)"
| "start_job X (JobEvent p) c = (or_error_callback X (xc_builder c) (asio_handle_event X (xc_builder c) p), c)"
| "start_job X (JobCallback e d) c = (callback_calls (xc_builder c) e d None, c)"
| "start_job X (JobClose r ep) c = (callback_close_calls X (xc_builder c) r ep, c)"

text \<open>\<open>handle_socketio_packet\<close> only classifies the packet and spawns.\<close>

definition asio_handle_socketio_packet :: "ext \<Rightarrow> sio_packet \<Rightarrow> asio_client \<Rightarrow> asio_client" where
  "asio_handle_socketio_packet X p c =
     (if pkt_nsp p \<noteq> xc_nsp c then c
      else case packet_type p of
        Ack \<Rightarrow> spawn_dispatch (JobAck p) False c
      | BinaryAck \<Rightarrow> spawn_dispatch (JobAck p) False c
      | BinaryEvent \<Rightarrow> spawn_dispatch (JobBinaryEvent p) False c
      | Connect \<Rightarrow> spawn_dispatch (JobCallback EvConnect (payload_from_str (json X) '''')) True
          (c\<lparr>xc_reason := ReasonUnknown\<rparr>)
      | Disconnect \<Rightarrow>
          (let c = abort_dispatch False (c\<lparr>xc_reason := ReasonServer\<rparr>)
           in spawn_dispatch (JobClose (close_reason_as_str IOServerDisconnect) (asio_session_epoch c)) True c)
      | ConnectError \<Rightarrow> spawn_dispatch (JobCallback EvError (payload_from_string (json X)
          (''Received an ConnectError frame: '' @
           (case pkt_data p of Some s \<Rightarrow> s | None \<Rightarrow> quoted ''No error message provided'')))) False c
      | Event \<Rightarrow> spawn_dispatch (JobEvent p) False c)"

subsection \<open>Tearing down\<close>

text \<open>
  \<open>reader.take()\<close> and \<open>abort\<close>: an abort drops the \<open>ReaderState\<close> of a stream that is being read, whose
  \<open>drop\<close> aborts the tasks that are not terminal.
\<close>

definition reader_state_drop :: "asio_client \<Rightarrow> asio_client" where
  "reader_state_drop c = abort_dispatch False c"

definition abort_reader :: "asio_client \<Rightarrow> asio_client" where
  "abort_reader c =
     (let c' = (if xc_reader c = Reading then reader_state_drop c else c) in c'\<lparr>xc_reader := NoReader\<rparr>)"

definition sio_within_ms ::
  "nat \<Rightarrow> sio_error \<Rightarrow> world \<Rightarrow> (sio_error, unit) outcome \<times> asio_state \<Rightarrow> (sio_error, unit) outcome \<times> asio_state" where
  "sio_within_ms ms e w = (\<lambda>(r, c, w').
     if now w' \<le> now w + ms then (r, c, w') else (Err e, c, w'\<lparr>now := now w + ms\<rparr>))"

definition asio_disconnect :: "ext \<Rightarrow> asio_state \<Rightarrow> (sio_error, unit) outcome \<times> asio_state" where
  "asio_disconnect X = (\<lambda>(c, w).
     let c = abort_reader (c\<lparr>xc_reason := ReasonManual\<rparr>);
         p = sio_packet_new Disconnect (xc_nsp c) None None 0 None in
     on_return (sio_within_ms 1000 (SioIncompleteIo ''Socket.IO disconnect packet timed out'') w
         (on_asio (sio_async_send X p) (c, w))) (\<lambda>send_result (c, w).
     on_return (on_asio (sio_async_disconnect X) (c, w)) (\<lambda>close_result (c, w).
       (case close_result of
          Inl e \<Rightarrow> Err e
        | Inr _ \<Rightarrow> (case send_result of
            Inl e \<Rightarrow> if e = SioIllegalActionBeforeOpen then Ok () else Err e
          | Inr _ \<Rightarrow> Ok ()),
        abort_dispatch True c, w))))"

text \<open>
  The code of a callback: it runs on the client in one step. A callback that disconnects is one of
  the tasks its own disconnect aborts.
\<close>

fun asio_actions :: "ext \<Rightarrow> user_action list \<Rightarrow> asio_state \<Rightarrow> asio_state" where
  "asio_actions X [] cw = cw"
| "asio_actions X (UserEmit e d # us) cw = asio_actions X us (snd (asio_emit X e d cw))"
| "asio_actions X (UserEmitWithAck e d ms h # us) cw = asio_actions X us (snd (asio_emit_with_ack X e d ms h cw))"
| "asio_actions X (UserAck d # us) cw = asio_actions X us (snd (asio_ack X d cw))"
| "asio_actions X (UserAckWithId i d # us) cw = asio_actions X us (snd (asio_ack_with_id X i d cw))"
| "asio_actions X (UserDisconnect # us) cw = snd (asio_disconnect X cw)"

definition asio_call_user :: "ext \<Rightarrow> callback \<Rightarrow> callback_arg \<Rightarrow> asio_state \<Rightarrow> asio_state" where
  "asio_call_user X h a = (\<lambda>(c, w).
     asio_actions X (user_code X (length (trace w)) h a) (c, did (DidCall h a) w))"

subsection \<open>Reconnecting\<close>

text \<open>The settings the \<open>on_reconnect\<close> callback \<open>h\<close> returns when called after \<open>n\<close> effects: \<open>R n h\<close>.\<close>

definition apply_settings :: "reconnect_settings \<Rightarrow> asio_client \<Rightarrow> asio_client" where
  "apply_settings r c =
     (let b = xc_builder c;
          b = (case rs_address r of Some a \<Rightarrow> b\<lparr>ab_address := a\<rparr> | None \<Rightarrow> b);
          b = (if rs_headers r \<noteq> None then b\<lparr>ab_headers := rs_headers r\<rparr> else b)
      in c\<lparr>xc_builder := b, xc_auth := (case rs_auth r of Some v \<Rightarrow> Some v | None \<Rightarrow> xc_auth c)\<rparr>)"

definition asio_reconnect ::
  "ext \<Rightarrow> (nat \<Rightarrow> callback \<Rightarrow> reconnect_settings) \<Rightarrow> asio_state \<Rightarrow> (sio_error, unit) outcome \<times> asio_state" where
  "asio_reconnect X R = (\<lambda>(c, w).
     let (c, w) = (case ab_on_reconnect (xc_builder c) of
           None \<Rightarrow> (c, w)
         | Some h \<Rightarrow> (apply_settings (R (length (trace w)) h) c, did (DidCall h ArgUnit) w))
     in case asio_inner_create X (xc_builder c) w of (r, w) \<Rightarrow>
          ques (r, c, w) (\<lambda>s (c, w). asio_connect X (c\<lparr>xc_socket := s\<rparr>, w)))"

subsection \<open>The reader\<close>

definition asio_poll_stream :: "asio_client \<Rightarrow> asio_client" where
  "asio_poll_stream c = c\<lparr>xc_reader := Reading\<rparr>"

text \<open>The end of the stream: its state is dropped after the tasks were aborted.\<close>

definition end_stream :: "asio_client \<Rightarrow> asio_client" where
  "end_stream c = reader_state_drop (abort_dispatch False c)\<lparr>xc_reader := StreamEnded\<rparr>"

text \<open>\<open>as_stream\<close>: one \<open>next\<close> of it. A reader that panics is gone, and its state dropped.\<close>

definition asio_stream_next :: "ext \<Rightarrow> asio_state \<Rightarrow> asio_state" where
  "asio_stream_next X cw = (case on_asio (sio_async_next X) cw of
     (Ok None, c, w) \<Rightarrow> (end_stream c, w)
   | (Ok (Some p), c, w) \<Rightarrow>
       (if xc_reason c = ReasonManual then end_stream c else asio_handle_socketio_packet X p c, w)
   | (Err e, c, w) \<Rightarrow>
       (if xc_reason c = ReasonManual then end_stream c
        else spawn_dispatch (JobCallback EvError (payload_from_string (json X) (sio_error_display e))) True c, w)
   | (Panic, c, w) \<Rightarrow> ((reader_state_drop c)\<lparr>xc_reader := ReaderDone\<rparr>, w)
   | (Hang, c, w) \<Rightarrow> (c, w))"

text \<open>What the reader does when its stream has ended.\<close>

definition asio_after_stream :: "asio_client \<Rightarrow> asio_client" where
  "asio_after_stream c =
     (let b = xc_builder c;
          (c, again) = (case xc_reason c of
             ReasonUnknown \<Rightarrow>
               (spawn_dispatch (JobClose (close_reason_as_str TransportClose) (asio_session_epoch c)) True c,
                ab_reconnect b)
           | ReasonManual \<Rightarrow> (c, False)
           | ReasonServer \<Rightarrow> (c, ab_reconnect_on_disconnect b))
      in c\<lparr>xc_reader := (if again then Reconnecting 0 0 else ReaderDone)\<rparr>)"

text \<open>
  One turn of the loop that reconnects. Its \<open>break\<close>s leave that loop only: the reader goes on with a
  new stream in both cases.
\<close>

definition asio_reconnect_turn ::
  "ext \<Rightarrow> (nat \<Rightarrow> callback \<Rightarrow> reconnect_settings) \<Rightarrow> u8 \<Rightarrow> nat \<Rightarrow> asio_state \<Rightarrow> asio_state" where
  "asio_reconnect_turn X R i n = (\<lambda>(c, w).
     let mx = ab_max_attempts (xc_builder c) in
     if mx \<noteq> None \<and> overflow_checks X \<and> i = 255 then (c\<lparr>xc_reader := ReaderDone\<rparr>, w)
     else let i = (if mx \<noteq> None then i + 1 else i) in
       if mx \<noteq> None \<and> the mx < i then (c\<lparr>xc_reader := Reading\<rparr>, w)
       else case asio_reconnect X R (c, w) of
           (Ok _, c, w) \<Rightarrow> (c\<lparr>xc_reader := Reading\<rparr>, w)
         | (Err e, c, w) \<Rightarrow> (c\<lparr>xc_reader := Reconnecting i (n + 1)\<rparr>,
             case next_backoff X n of Some ms \<Rightarrow> sleep_ms ms w | None \<Rightarrow> w)
         | (Panic, c, w) \<Rightarrow> (c\<lparr>xc_reader := ReaderDone\<rparr>, w)
         | (Hang, c, w) \<Rightarrow> (c, w))"

fun asio_reader_step :: "ext \<Rightarrow> (nat \<Rightarrow> callback \<Rightarrow> reconnect_settings) \<Rightarrow> reader \<Rightarrow> asio_state \<Rightarrow> asio_state" where
  "asio_reader_step X R Reading cw = asio_stream_next X cw"
| "asio_reader_step X R StreamEnded cw = (asio_after_stream (fst cw), snd cw)"
| "asio_reader_step X R (Reconnecting i n) cw = asio_reconnect_turn X R i n cw"
| "asio_reader_step X R NoReader cw = cw"
| "asio_reader_step X R ReaderDone cw = cw"

subsection \<open>Connecting\<close>

definition asio_connect_manual :: "ext \<Rightarrow> asio_builder \<Rightarrow> world \<Rightarrow> (sio_error, asio_client) outcome \<times> world" where
  "asio_connect_manual X b w =
     ques (asio_inner_create X b w) (\<lambda>s w.
       case asio_connect X (asio_client_new s b, w) of (r, c, w) \<Rightarrow> ques (r, w) (\<lambda>_ w. (Ok c, w)))"

definition asio_builder_connect :: "ext \<Rightarrow> asio_builder \<Rightarrow> world \<Rightarrow> (sio_error, asio_client) outcome \<times> world" where
  "asio_builder_connect X b w = ques (asio_connect_manual X b w) (\<lambda>c w. (Ok (asio_poll_stream c), w))"

subsection \<open>Interleaving\<close>

text \<open>The user's own calls on the client or a clone of it, from outside its callbacks.\<close>

definition set_work :: "nat \<Rightarrow> progress \<Rightarrow> asio_client \<Rightarrow> asio_client" where
  "set_work i q c = c\<lparr>xc_tasks := (xc_tasks c)[i := (xc_tasks c ! i)\<lparr>dt_work := q\<rparr>]\<rparr>"

definition drop_task :: "nat \<Rightarrow> asio_client \<Rightarrow> asio_client" where
  "drop_task i c = c\<lparr>xc_tasks := take i (xc_tasks c) @ drop (Suc i) (xc_tasks c)\<rparr>"

inductive asio_step :: "ext \<Rightarrow> (nat \<Rightarrow> callback \<Rightarrow> reconnect_settings) \<Rightarrow> asio_state \<Rightarrow> asio_state \<Rightarrow> bool"
  for X R where
  start: "i < length (xc_tasks c) \<Longrightarrow> dt_work (xc_tasks c ! i) = Todo j \<Longrightarrow> start_job X j c = (cs, c') \<Longrightarrow>
    asio_step X R (c, w) (set_work i (Calls cs) c', w)"
| call_user: "i < length (xc_tasks c) \<Longrightarrow> dt_work (xc_tasks c ! i) = Calls (CallUser h a # cs) \<Longrightarrow>
    asio_step X R (c, w) (asio_call_user X h a (set_work i (Calls cs) c, w))"
| call_ack: "i < length (xc_tasks c) \<Longrightarrow> dt_work (xc_tasks c ! i) = Calls (CallAck k p # cs) \<Longrightarrow>
    asio_step X R (c, w) (set_work i (Calls (ack_calls X k p w @ cs)) c, w)"
| finish: "i < length (xc_tasks c) \<Longrightarrow> dt_work (xc_tasks c ! i) = Calls [] \<Longrightarrow>
    asio_step X R (c, w) (drop_task i c, w)"
| reader: "asio_step X R (c, w) (asio_reader_step X R (xc_reader c) (c, w))"
| user: "asio_step X R (c, w) (asio_actions X [u] (c, w))"
| wait: "asio_step X R (c, w) (c, w\<lparr>now := now w + d\<rparr>)"

inductive_cases asio_stepE [consumes 1, case_names start call_user call_ack finish reader user wait]:
  "asio_step X R (c, w) (c', w')"

definition asio_reaches :: "ext \<Rightarrow> (nat \<Rightarrow> callback \<Rightarrow> reconnect_settings) \<Rightarrow> asio_state \<Rightarrow> asio_state \<Rightarrow> bool" where
  "asio_reaches X R = (asio_step X R)\<^sup>*\<^sup>*"

text \<open>A client in its first session, with the callbacks and the tasks given.\<close>

definition demo_asio :: "eio_packet list \<Rightarrow> (event \<rightharpoonup> callback) \<Rightarrow> dispatch_task list \<Rightarrow> asio_client" where
  "demo_asio ps on ts = (asio_client_new (demo_async_sio ps) ((asio_builder_new ''bad'')\<lparr>ab_on := on\<rparr>))\<lparr>
     xc_epoch := 1, xc_tasks := ts, xc_reader := Reading\<rparr>"

subsection \<open>Agreement with the blocking client\<close>

fun made_call :: "call \<Rightarrow> world \<Rightarrow> world" where
  "made_call (CallUser h a) w = did (DidCall h a) w"
| "made_call (CallAck k p) w = w"

definition made_calls :: "call list \<Rightarrow> world \<Rightarrow> world" where
  "made_calls cs w = fold made_call cs w"

fun is_user_call :: "call \<Rightarrow> bool" where
  "is_user_call (CallUser h a) = True"
| "is_user_call (CallAck k p) = False"

lemma made_calls_simps [simp]:
  "made_calls [] w = w" "made_calls (k # ks) w = made_calls ks (made_call k w)"
  "made_calls (ks @ ks') w = made_calls ks' (made_calls ks w)"
  by (simp_all add: made_calls_def)

lemma asio_call_user_quiet: "quiet_users X \<Longrightarrow> asio_call_user X h a (c, w) = (c, did (DidCall h a) w)"
  by (simp add: asio_call_user_def quiet_users_def)

lemma asio_reaches_step: "asio_step X R a b \<Longrightarrow> asio_reaches X R b c \<Longrightarrow> asio_reaches X R a c"
  unfolding asio_reaches_def by (rule converse_rtranclp_into_rtranclp)

text \<open>The one task of a client runs to its end, when it has only calls to make.\<close>

lemma run_calls:
  assumes "quiet_users X" and "list_all is_user_call cs"
  shows "asio_reaches X R (c\<lparr>xc_tasks := [\<lparr>dt_work = Calls cs, dt_terminal = t\<rparr>]\<rparr>, w)
    (c\<lparr>xc_tasks := []\<rparr>, made_calls cs w)"
  using assms(2)
proof (induction cs arbitrary: w)
  case Nil
  let ?c = "c\<lparr>xc_tasks := [\<lparr>dt_work = Calls [], dt_terminal = t\<rparr>]\<rparr>"
  have "asio_step X R (?c, w) (drop_task 0 ?c, w)" by (rule asio_step.finish) simp_all
  then show ?case by (simp add: asio_reaches_def drop_task_def r_into_rtranclp)
next
  case (Cons k cs)
  then obtain h a where k: "k = CallUser h a" by (cases k) auto
  let ?c = "\<lambda>cs. c\<lparr>xc_tasks := [\<lparr>dt_work = Calls cs, dt_terminal = t\<rparr>]\<rparr>"
  have "asio_step X R (?c (k # cs), w) (asio_call_user X h a (set_work 0 (Calls cs) (?c (k # cs)), w))"
    by (rule asio_step.call_user) (simp_all add: k)
  moreover have "set_work 0 (Calls cs) (?c (k # cs)) = ?c cs" by (simp add: set_work_def)
  ultimately have "asio_step X R (?c (k # cs), w) (?c cs, did (DidCall h a) w)"
    by (simp add: asio_call_user_quiet [OF assms(1)])
  from asio_reaches_step [OF this Cons.IH] Cons.prems k show ?case by simp
qed

lemma run_job:
  assumes "quiet_users X" and "start_job X j c = (cs, c')" and "xc_tasks c' = xc_tasks c"
    and "xc_tasks c = [\<lparr>dt_work = Todo j, dt_terminal = t\<rparr>]" and "list_all is_user_call cs"
  shows "asio_reaches X R (c, w) (c'\<lparr>xc_tasks := []\<rparr>, made_calls cs w)"
proof -
  have "asio_step X R (c, w) (set_work 0 (Calls cs) c', w)"
    by (rule asio_step.start) (use assms in auto)
  moreover have "set_work 0 (Calls cs) c' = c'\<lparr>xc_tasks := [\<lparr>dt_work = Calls cs, dt_terminal = t\<rparr>]\<rparr>"
    using assms(3,4) by (simp add: set_work_def)
  ultimately show ?thesis
    using asio_reaches_step run_calls [OF assms(1,5)] by metis
qed

lemma made_callback_calls:
  "made_calls (callback_calls b e d i) w =
     call_opt (if wants_any e then ab_on_any b else None) (ArgEvent e (set_ack_id i d))
       (call_opt (ab_on b e) (ArgPayload (set_ack_id i d)) w)"
  "list_all is_user_call (callback_calls b e d i)"
  by (auto simp: callback_calls_def Let_def call_opt_def split: option.split)

text \<open>The two clients are set up alike.\<close>

definition same_setup :: "raw_client \<Rightarrow> asio_client \<Rightarrow> bool" where
  "same_setup c a \<longleftrightarrow> rc_on c = ab_on (xc_builder a) \<and> rc_on_any c = ab_on_any (xc_builder a) \<and>
     rc_on_close c = ab_on_close (xc_builder a) \<and> rc_nsp c = xc_nsp a \<and> rc_acks c = xc_acks a \<and>
     rc_epoch c = xc_epoch a \<and> \<not> rc_locked c"

lemma same_setup_updates [simp]:
  "same_setup c (a\<lparr>xc_tasks := ts\<rparr>) = same_setup c a" "same_setup c (a\<lparr>xc_reason := r\<rparr>) = same_setup c a"
  by (simp_all add: same_setup_def)

lemma callback_run:
  assumes "quiet_users X" and "same_setup c a"
    and "start_job X j (a\<lparr>xc_tasks := [\<lparr>dt_work = Todo j, dt_terminal = t\<rparr>]\<rparr>) =
      (callback_calls (xc_builder a) e d i, a\<lparr>xc_tasks := [\<lparr>dt_work = Todo j, dt_terminal = t\<rparr>]\<rparr>)"
  shows "\<exists>w'. raw_callback disc X e d i (c, w) = (Ok (), c, w') \<and>
    asio_reaches X R (a\<lparr>xc_tasks := [\<lparr>dt_work = Todo j, dt_terminal = t\<rparr>]\<rparr>, w) (a\<lparr>xc_tasks := []\<rparr>, w')"
  using run_job [OF assms(1,3), of t R w] assms(1,2)
  by (auto simp: raw_callback_quiet same_setup_def made_callback_calls)
lemma split_event_cases: "(\<exists>e vs'. split_event vs = Ok (e, vs')) \<or> split_event vs = Err SioIncompletePacket"
  by (cases vs rule: split_event.cases) auto

definition one_task :: "job \<Rightarrow> bool \<Rightarrow> asio_client \<Rightarrow> asio_client" where
  "one_task j t a = a\<lparr>xc_tasks := [\<lparr>dt_work = Todo j, dt_terminal = t\<rparr>]\<rparr>"

lemma one_task_simps [simp]:
  "xc_builder (one_task j t a) = xc_builder a" "xc_acks (one_task j t a) = xc_acks a"
  "xc_tasks (one_task j t a) = [\<lparr>dt_work = Todo j, dt_terminal = t\<rparr>]"
  by (simp_all add: one_task_def)

lemma idle_run:
  assumes "quiet_users X" and "start_job X j (one_task j t a) = ([], one_task j t a)"
  shows "asio_reaches X R (one_task j t a, w) (a\<lparr>xc_tasks := []\<rparr>, w)"
  using run_job [OF assms, of t R w] by (simp add: one_task_def)

lemma event_run:
  assumes "quiet_users X" and "same_setup c a"
  shows "\<exists>w'. on_return (raw_handle_event X p (c, w)) (\<lambda>r cw. case r of
        Inl e \<Rightarrow> report_error X e cw | Inr _ \<Rightarrow> (Ok (), cw)) = (Ok (), c, w') \<and>
    asio_reaches X R (one_task (JobEvent p) t a, w) (a\<lparr>xc_tasks := []\<rparr>, w')"
proof (cases "\<exists>s vs. pkt_data p = Some s \<and> json_from_str (json X) s = Inr (JArray vs)")
  case True
  then obtain s vs where s: "pkt_data p = Some s" "json_from_str (json X) s = Inr (JArray vs)" by blast
  from split_event_cases [of vs] show ?thesis
  proof (elim disjE exE)
    fix e vs' assume e: "split_event vs = Ok (e, vs')"
    with s have "start_job X (JobEvent p) (one_task (JobEvent p) t a) =
        (callback_calls (xc_builder a) e (payload_from_values vs') (pkt_id p), one_task (JobEvent p) t a)"
      by (simp add: asio_handle_event_def or_error_callback_def)
    from callback_run [OF assms this [unfolded one_task_def], of "raw_disconnect X" w R] s e show ?thesis
      by (auto simp: raw_handle_event_def one_task_def)
  next
    assume e: "split_event vs = Err SioIncompletePacket"
    with s have "start_job X (JobEvent p) (one_task (JobEvent p) t a) =
        (callback_calls (xc_builder a) EvError (payload_from_string (json X) (sio_error_display SioIncompletePacket)) None,
         one_task (JobEvent p) t a)"
      by (simp add: asio_handle_event_def or_error_callback_def)
    from callback_run [OF assms this [unfolded one_task_def], of "raw_disconnect X" w R] s e show ?thesis
      by (auto simp: raw_handle_event_def report_error_def one_task_def)
  qed
next
  case False
  then have "start_job X (JobEvent p) (one_task (JobEvent p) t a) = ([], one_task (JobEvent p) t a)"
    by (auto simp: asio_handle_event_def or_error_callback_def split: option.split sum.split json.split)
  moreover have "raw_handle_event X p (c, w) = (Ok (), c, w)"
    using False by (auto simp: raw_handle_event_def split: option.split sum.split json.split)
  ultimately show ?thesis using idle_run [OF assms(1)] by fastforce
qed

lemma binary_event_run:
  assumes "quiet_users X" and "same_setup c a"
  shows "\<exists>w'. on_return (raw_handle_binary_event X p (c, w)) (\<lambda>r cw. case r of
        Inl e \<Rightarrow> report_error X e cw | Inr _ \<Rightarrow> (Ok (), cw)) = (Ok (), c, w') \<and>
    asio_reaches X R (one_task (JobBinaryEvent p) t a, w) (a\<lparr>xc_tasks := []\<rparr>, w')"
proof -
  let ?e = "case pkt_data p of Some s \<Rightarrow> event_from (filter (\<lambda>c. c \<noteq> CHR ''\"'') s) | None \<Rightarrow> EvMessage"
  show ?thesis
  proof (cases "\<exists>d ds. attachments p = Some (d # ds)")
    case True
    then obtain d ds where d: "attachments p = Some (d # ds)" by blast
    then have "start_job X (JobBinaryEvent p) (one_task (JobBinaryEvent p) t a) =
        (callback_calls (xc_builder a) ?e (PBinary d (pkt_id p)) (pkt_id p), one_task (JobBinaryEvent p) t a)"
      by (simp add: asio_handle_binary_event_def or_error_callback_def)
    from callback_run [OF assms this [unfolded one_task_def], of "raw_disconnect X" w R] d show ?thesis
      by (auto simp: raw_handle_binary_event_def one_task_def)
  next
    case False
    then have "start_job X (JobBinaryEvent p) (one_task (JobBinaryEvent p) t a) = ([], one_task (JobBinaryEvent p) t a)"
      and "raw_handle_binary_event X p (c, w) = (Ok (), c, w)"
      by (auto simp: asio_handle_binary_event_def raw_handle_binary_event_def or_error_callback_def
          split: option.split list.split)
    then show ?thesis using idle_run [OF assms(1)] by fastforce
  qed
qed

lemma filter_distinct_key: "distinct (map f xs) \<Longrightarrow> k \<in> set xs \<Longrightarrow> filter (\<lambda>b. f b = f k) xs = [k]"
proof (induction xs)
  case (Cons x xs)
  have "filter (\<lambda>b. f b = f k) xs = []" if "f k \<notin> f ` set xs"
    using that by (auto simp: filter_empty_conv image_iff)
  with Cons show ?case by (cases "x = k") (auto simp: image_iff)
qed simp

lemma ack_calls_made:
  assumes "quiet_users X" and "pkt_id p = Some i" and "take_ack i (rc_acks c) = Some (k, as)"
  shows "raw_handle_ack X p (c, w) = (Ok (), c\<lparr>rc_acks := as\<rparr>, made_calls (ack_calls X k p w) w)"
    and "list_all is_user_call (ack_calls X k p w)"
  using assms by (auto simp: raw_handle_ack_def ack_calls_def Let_def split: option.split list.split)

lemma ack_run_known:
  assumes "quiet_users X" and "same_setup c a" and "distinct (map ak_id (rc_acks c))"
    and k: "k \<in> set (rc_acks c)" "pkt_id p = Some (ak_id k)"
  shows "\<exists>as w'. (distinct (map ak_id (rc_acks c)) \<longrightarrow> distinct (map ak_id as)) \<and>
    raw_handle_ack X p (c, w) = (Ok (), c\<lparr>rc_acks := as\<rparr>, w') \<and>
    asio_reaches X R (one_task (JobAck p) t a, w) (a\<lparr>xc_acks := as, xc_tasks := []\<rparr>, w')"
proof -
  let ?as = "filter (\<lambda>b. ak_id b \<noteq> ak_id k) (rc_acks c)"
  let ?task = "\<lambda>cs. (a\<lparr>xc_acks := ?as\<rparr>)\<lparr>xc_tasks := [\<lparr>dt_work = Calls cs, dt_terminal = t\<rparr>]\<rparr>"
  note calls = ack_calls_made [OF assms(1) k(2) take_ack_distinct [OF assms(3) k(1)], of w]
  have acks: "xc_acks a = rc_acks c" using assms(2) by (simp add: same_setup_def)
  have "start_job X (JobAck p) (one_task (JobAck p) t a) = ([CallAck k p], (one_task (JobAck p) t a)\<lparr>xc_acks := ?as\<rparr>)"
    by (simp add: asio_handle_ack_def k(2) acks filter_distinct_key [OF assms(3) k(1)])
  then have "asio_step X R (one_task (JobAck p) t a, w)
      (set_work 0 (Calls [CallAck k p]) ((one_task (JobAck p) t a)\<lparr>xc_acks := ?as\<rparr>), w)"
    by (intro asio_step.start [where j = "JobAck p"]) simp_all
  then have s1: "asio_step X R (one_task (JobAck p) t a, w) (?task [CallAck k p], w)"
    by (simp add: set_work_def one_task_def)
  have "asio_step X R (?task [CallAck k p], w) (set_work 0 (Calls (ack_calls X k p w @ [])) (?task [CallAck k p]), w)"
    by (rule asio_step.call_ack) simp_all
  then have s2: "asio_step X R (?task [CallAck k p], w) (?task (ack_calls X k p w), w)" by (simp add: set_work_def)
  have "asio_reaches X R (one_task (JobAck p) t a, w) (a\<lparr>xc_acks := ?as, xc_tasks := []\<rparr>, made_calls (ack_calls X k p w) w)"
    using asio_reaches_step [OF s1 asio_reaches_step [OF s2 run_calls [OF assms(1) calls(2)]]] by simp
  with calls(1) show ?thesis using distinct_map_filter [of ak_id "rc_acks c"] by blast
qed

lemma ack_run_unknown:
  assumes "quiet_users X" and "same_setup c a"
    and "\<not> (\<exists>k. k \<in> set (rc_acks c) \<and> pkt_id p = Some (ak_id k))"
  shows "\<exists>as w'. (distinct (map ak_id (rc_acks c)) \<longrightarrow> distinct (map ak_id as)) \<and>
    raw_handle_ack X p (c, w) = (Ok (), c\<lparr>rc_acks := as\<rparr>, w') \<and>
    asio_reaches X R (one_task (JobAck p) t a, w) (a\<lparr>xc_acks := as, xc_tasks := []\<rparr>, w')"
proof -
  have acks: "xc_acks a = rc_acks c" using assms(2) by (simp add: same_setup_def)
  have keep: "filter (\<lambda>b. ak_id b \<noteq> i) (rc_acks c) = rc_acks c" "filter (\<lambda>b. ak_id b = i) (rc_acks c) = []"
    if "pkt_id p = Some i" for i
    using that assms(3) by (auto simp: filter_id_conv filter_empty_conv)
  have eqs: "(one_task (JobAck p) t a)\<lparr>xc_acks := rc_acks c\<rparr> = one_task (JobAck p) t a"
    "a\<lparr>xc_acks := rc_acks c, xc_tasks := []\<rparr> = a\<lparr>xc_tasks := []\<rparr>" "c\<lparr>rc_acks := rc_acks c\<rparr> = c"
    using acks by (cases a; cases c; simp add: one_task_def)+
  have "start_job X (JobAck p) (one_task (JobAck p) t a) = ([], one_task (JobAck p) t a)"
    by (cases "pkt_id p") (simp_all add: asio_handle_ack_def acks keep eqs)
  from idle_run [OF assms(1) this, of R w]
  have "asio_reaches X R (one_task (JobAck p) t a, w) (a\<lparr>xc_acks := rc_acks c, xc_tasks := []\<rparr>, w)"
    by (simp add: eqs)
  moreover have "raw_handle_ack X p (c, w) = (Ok (), c\<lparr>rc_acks := rc_acks c\<rparr>, w)"
  proof (cases "pkt_id p")
    case (Some i)
    with assms(3) have "take_ack i (rc_acks c) = None" by (auto simp: take_ack_None)
    with Some eqs show ?thesis by (simp add: raw_handle_ack_def)
  qed (simp add: raw_handle_ack_def eqs)
  ultimately show ?thesis by blast
qed

lemma ack_run:
  assumes "quiet_users X" and "same_setup c a" and "distinct (map ak_id (rc_acks c))"
  shows "\<exists>as w'. (distinct (map ak_id (rc_acks c)) \<longrightarrow> distinct (map ak_id as)) \<and>
    raw_handle_ack X p (c, w) = (Ok (), c\<lparr>rc_acks := as\<rparr>, w') \<and>
    asio_reaches X R (one_task (JobAck p) t a, w) (a\<lparr>xc_acks := as, xc_tasks := []\<rparr>, w')"
proof (cases "\<exists>k. k \<in> set (rc_acks c) \<and> pkt_id p = Some (ak_id k)")
  case True
  with ack_run_known [OF assms] show ?thesis by blast
next
  case False
  with ack_run_unknown [OF assms(1,2)] show ?thesis by blast
qed

lemma close_run:
  assumes "quiet_users X" and "same_setup c b"
  shows "\<exists>w'. raw_callback_close disc X r (rc_epoch c) (c, w) = (Ok (), c, w') \<and>
    asio_reaches X R (one_task (JobClose r (xc_epoch b)) t b, w) (b\<lparr>xc_tasks := []\<rparr>, w')"
proof -
  let ?j = "JobClose r (xc_epoch b)" and ?cs = "callback_close_calls X (xc_builder b) r (xc_epoch b)"
  have "start_job X ?j (one_task ?j t b) = (?cs, one_task ?j t b)" by simp
  moreover have "list_all is_user_call ?cs"
    by (simp add: callback_close_calls_def made_callback_calls split: option.split)
  ultimately have "asio_reaches X R (one_task ?j t b, w) (b\<lparr>xc_tasks := []\<rparr>, made_calls ?cs w)"
    using run_job [OF assms(1), of ?j "one_task ?j t b" ?cs "one_task ?j t b" t R w] by (simp add: one_task_def)
  moreover have "raw_callback_close disc X r (rc_epoch c) (c, w) = (Ok (), c, made_calls ?cs w)"
    using assms by (auto simp: raw_callback_close_quiet same_setup_def callback_close_calls_def
        made_callback_calls call_opt_def split: option.split)
  ultimately show ?thesis by blast
qed

lemma spawn_on_idle: "xc_tasks b = [] \<Longrightarrow> spawn_dispatch j t b = one_task j t b"
  by (simp add: spawn_dispatch_def one_task_def)

text \<open>
  What dispatching a packet leaves alike: the tables, the acks and the sessions, no task, both
  sockets, and a reader that goes on as before.
\<close>

definition dispatched_alike :: "raw_client \<Rightarrow> asio_client \<Rightarrow> raw_client \<Rightarrow> asio_client \<Rightarrow> bool" where
  "dispatched_alike c a c' a' \<longleftrightarrow> xc_tasks a' = [] \<and> same_setup c' a' \<and>
     rc_socket c' = rc_socket c \<and> xc_socket a' = xc_socket a \<and> xc_reader a' = xc_reader a \<and>
     (xc_reason a \<noteq> ReasonManual \<longrightarrow> xc_reason a' \<noteq> ReasonManual) \<and> distinct (map ak_id (rc_acks c'))"

text \<open>A packet that fires the callbacks of one event, and one that answers an acknowledgement.\<close>

lemma callback_packet_agrees:
  assumes "quiet_users X" and "same_setup c b" and "distinct (map ak_id (rc_acks c))"
    and "xc_socket b = xc_socket a" and "xc_reader b = xc_reader a" and "xc_reason b \<in> {xc_reason a, ReasonUnknown}"
    and "asio_handle_socketio_packet X p a = one_task (JobCallback e d) t b"
    and "raw_handle_socketio_packet X p (c, w) = raw_callback (raw_disconnect X) X e d None (c, w)"
  shows "\<exists>c' w' a'. raw_handle_socketio_packet X p (c, w) = (Ok (), c', w') \<and>
    asio_reaches X R (asio_handle_socketio_packet X p a, w) (a', w') \<and> dispatched_alike c a c' a'"
  using callback_run [OF assms(1,2), of "JobCallback e d" t e d None "raw_disconnect X" w R] assms
  by (auto simp: one_task_def dispatched_alike_def intro!: exI [of _ "b\<lparr>xc_tasks := []\<rparr>"])

lemma ack_packet_agrees:
  assumes "quiet_users X" and "same_setup c a" and "xc_tasks a = []" and "distinct (map ak_id (rc_acks c))"
    and nsp: "pkt_nsp p = rc_nsp c" "pkt_nsp p = xc_nsp a" and "packet_type p \<in> {Ack, BinaryAck}"
  shows "\<exists>c' w' a'. raw_handle_socketio_packet X p (c, w) = (Ok (), c', w') \<and>
    asio_reaches X R (asio_handle_socketio_packet X p a, w) (a', w') \<and> dispatched_alike c a c' a'"
proof -
  obtain as w' where "distinct (map ak_id as)" "raw_handle_ack X p (c, w) = (Ok (), c\<lparr>rc_acks := as\<rparr>, w')"
    "asio_reaches X R (one_task (JobAck p) False a, w) (a\<lparr>xc_acks := as, xc_tasks := []\<rparr>, w')"
    using ack_run [OF assms(1,2,4)] assms(4) by blast
  with assms show ?thesis
    by (auto simp: raw_handle_socketio_packet_def asio_handle_socketio_packet_def spawn_on_idle same_setup_def
        dispatched_alike_def
        intro!: exI [of _ "a\<lparr>xc_acks := as, xc_tasks := []\<rparr>"])
qed

text \<open>
  For a packet the asynchronous client dispatches to a task, the task, when it runs alone, makes the
  very calls the blocking client makes for it, in their order and with their arguments, and leaves
  the same acks outstanding: the two clients agree on every packet, as long as no callback's code acts.
\<close>

lemma async_dispatch_agrees:
  assumes "quiet_users X" and "same_setup c a" and "xc_tasks a = []" and "distinct (map ak_id (rc_acks c))"
  shows "\<exists>c' w' a'. raw_handle_socketio_packet X p (c, w) = (Ok (), c', w') \<and>
    asio_reaches X R (asio_handle_socketio_packet X p a, w) (a', w') \<and> dispatched_alike c a c' a'"
proof (cases "pkt_nsp p = rc_nsp c")
  case False
  with assms(2) have "asio_handle_socketio_packet X p a = a" by (simp add: asio_handle_socketio_packet_def same_setup_def)
  with False assms show ?thesis
    by (auto simp: raw_handle_socketio_packet_def asio_reaches_def dispatched_alike_def intro!: exI [of _ a])
next
  case True
  with assms(2) have nsp: "pkt_nsp p = xc_nsp a" by (simp add: same_setup_def)
  have none: "a\<lparr>xc_tasks := []\<rparr> = a" using assms(3) by (cases a) simp
  note callback = callback_packet_agrees [OF assms(1)] and acked = ack_packet_agrees [OF assms True nsp]
  note defs = raw_handle_socketio_packet_def asio_handle_socketio_packet_def
  show ?thesis
  proof (cases "packet_type p")
    case Connect
    show ?thesis
      by (rule callback [where b = "a\<lparr>xc_reason := ReasonUnknown\<rparr>"])
         (use Connect True nsp assms(2-4) in \<open>simp_all add: defs spawn_on_idle\<close>)
  next
    case ConnectError
    show ?thesis
      by (rule callback [where b = a]) (use ConnectError True nsp assms(2-4) in \<open>simp_all add: defs spawn_on_idle\<close>)
  next
    case Event
    with event_run [OF assms(1,2), of p w R False] True nsp assms(2-4) none show ?thesis
      by (auto simp: defs spawn_on_idle dispatched_alike_def intro!: exI [of _ a])
  next
    case BinaryEvent
    with binary_event_run [OF assms(1,2), of p w R False] True nsp assms(2-4) none show ?thesis
      by (auto simp: defs spawn_on_idle dispatched_alike_def intro!: exI [of _ a])
  next
    case Disconnect
    let ?b = "abort_dispatch False (a\<lparr>xc_reason := ReasonServer\<rparr>)"
    have b: "xc_tasks ?b = []" "xc_epoch ?b = rc_epoch c" "same_setup c ?b" "xc_socket ?b = xc_socket a"
      "xc_reader ?b = xc_reader a" "xc_reason ?b = ReasonServer"
      using assms(2,3) by (simp_all add: abort_dispatch_def same_setup_def)
    from close_run [OF assms(1) b(3), of "raw_disconnect X" "close_reason_as_str IOServerDisconnect" w R True] b
    show ?thesis using Disconnect True nsp assms(4)
      by (auto simp: defs dispatched_alike_def spawn_on_idle asio_session_epoch_def Let_def intro!: exI [of _ "?b\<lparr>xc_tasks := []\<rparr>"])
  qed (use acked in simp_all)
qed

subsection \<open>The reader on its own\<close>

fun reader_run :: "nat \<Rightarrow> ext \<Rightarrow> (nat \<Rightarrow> callback \<Rightarrow> reconnect_settings) \<Rightarrow> asio_state \<Rightarrow> asio_state" where
  "reader_run 0 X R cw = cw"
| "reader_run (Suc n) X R cw = reader_run n X R (asio_reader_step X R (xc_reader (fst cw)) cw)"

lemma reader_run_add: "reader_run (m + n) X R cw = reader_run n X R (reader_run m X R cw)"
  by (induction m arbitrary: cw) simp_all

definition close_task :: "close_reason \<Rightarrow> u64 \<Rightarrow> dispatch_task" where
  "close_task r ep = \<lparr>dt_work = Todo (JobClose (close_reason_as_str r) ep), dt_terminal = True\<rparr>"

lemma close_task_terminal [simp]: "dt_terminal (close_task r ep)"
  by (simp add: close_task_def)

text \<open>
  C22. When the server disconnects and its stream then ends, exactly one close is dispatched, with the
  session that died; the tasks of the session are aborted but not the notifications already under
  way; and the reader reconnects only if the builder asks for it.
\<close>

theorem server_disconnect_closes_once:
  assumes "xc_reader c = Reading" and "xc_reason c \<noteq> ReasonManual"
    and "sio_async_next X (xc_socket c, w) = (Ok (Some p), s1, w1)"
    and "packet_type p = Disconnect" and "pkt_nsp p = xc_nsp c"
    and "sio_async_next X (s1, w1) = (Ok None, s2, w2)"
  shows "\<exists>c'. reader_run 3 X R (c, w) = (c', w2) \<and>
    xc_tasks c' = filter dt_terminal (xc_tasks c) @ [close_task IOServerDisconnect (asio_session_epoch c)] \<and>
    asio_session_epoch c' = asio_session_epoch c \<and>
    xc_reader c' = (if ab_reconnect_on_disconnect (xc_builder c) then Reconnecting 0 0 else ReaderDone)"
proof -
  define c1 where "c1 = asio_handle_socketio_packet X p (c\<lparr>xc_socket := s1\<rparr>)"
  have c1: "xc_reader c1 = Reading" "xc_reason c1 = ReasonServer" "xc_socket c1 = s1" "xc_builder c1 = xc_builder c"
    "xc_epoch c1 = xc_epoch c"
    "xc_tasks c1 = filter dt_terminal (xc_tasks c) @ [close_task IOServerDisconnect (asio_session_epoch c)]"
    using assms by (simp_all add: c1_def asio_handle_socketio_packet_def abort_dispatch_def spawn_dispatch_def
        close_task_def asio_session_epoch_def Let_def)
  have 1: "asio_reader_step X R Reading (c, w) = (c1, w1)"
    using assms by (simp add: asio_stream_next_def on_asio_def c1_def)
  have 2: "asio_reader_step X R Reading (c1, w1) = (end_stream (c1\<lparr>xc_socket := s2\<rparr>), w2)"
    using assms c1 by (simp add: asio_stream_next_def on_asio_def)
  show ?thesis
    using assms(1) 1 2 c1
    by (simp add: numeral_3_eq_3 end_stream_def reader_state_drop_def abort_dispatch_def asio_after_stream_def
        asio_session_epoch_def Let_def)
qed

definition demo_bye :: sio_packet where
  "demo_bye = sio_packet_new Disconnect ''/'' None None 0 None"

lemma demo_bye_wf: "sio_packet_wf plain_json_lib demo_bye"
  by (simp add: demo_bye_def sio_packet_wf_def sio_packet_new_def nsp_ok_def id_ok_def is_binary_type_def
      is_ascii_def is_ascii_digit_def)

theorem server_disconnect_closes_once_witness:
  "\<exists>c' w'. reader_run 3 demo_ext (\<lambda>n h. reconnect_settings_new)
       (demo_asio [eio_packet_new Message (sio_text demo_bye)] Map.empty [], demo_world) = (c', w') \<and>
     xc_tasks c' = [close_task IOServerDisconnect 1] \<and> xc_reader c' = ReaderDone"
proof -
  let ?c = "demo_asio [eio_packet_new Message (sio_text demo_bye)] Map.empty []"
  let ?s1 = "(demo_async_sio [])\<lparr>sa_connected := False\<rparr>"
  obtain e2 w2 where e2: "async_client_next demo_ext (demo_engine [], demo_world) = (Ok None, e2, w2)"
    using demo_engine_end by blast
  obtain n where n: "loop_fuel demo_ext = Suc n" by (simp add: demo_ext_def)
  have "sio_packet_try_from (json demo_ext) (sio_text demo_bye) = Ok demo_bye"
    using sio_packet_dec_enc [OF demo_bye_wf] by (simp add: demo_bye_def sio_packet_new_def demo_ext_def)
  then have "sio_async_next demo_ext (xc_socket ?c, demo_world) = (Ok (Some demo_bye), ?s1, demo_world)"
    using demo_engine_first [of "sio_text demo_bye" "[]" demo_world]
    by (simp add: demo_asio_def asio_client_new_def demo_async_sio_def sio_async_next_def n on_async_engine_def
        sio_async_handle_engineio_packet_def eio_packet_new_def demo_bye_def sio_packet_new_def
        sio_async_handle_socketio_packet_def)
  moreover have "\<exists>s2. sio_async_next demo_ext (?s1, demo_world) = (Ok None, s2, w2)"
    using e2 by (simp add: demo_async_sio_def sio_async_next_def n on_async_engine_def)
  ultimately show ?thesis
    using server_disconnect_closes_once [of ?c demo_ext demo_world demo_bye ?s1 demo_world _ w2]
    by (fastforce simp: demo_asio_def asio_client_new_def asio_builder_new_def demo_bye_def sio_packet_new_def
        asio_session_epoch_def)
qed

text \<open>No attempt of the reader to reconnect gets as far as a socket.\<close>

definition asio_out_of_reach :: "ext \<Rightarrow> asio_client \<Rightarrow> bool" where
  "asio_out_of_reach X c \<longleftrightarrow> ab_on_reconnect (xc_builder c) = None \<and>
     (\<forall>w. \<exists>e w'. asio_inner_create X (xc_builder c) w = (Err e, w'))"

lemma out_of_reach_turn:
  assumes "asio_out_of_reach X c" and "ab_max_attempts (xc_builder c) = Some m" and "i < unat m"
  shows "\<exists>w'. asio_reconnect_turn X R (of_nat i) n (c, w) =
    (c\<lparr>xc_reader := Reconnecting (of_nat (Suc i)) (n + 1)\<rparr>, w')"
proof -
  have i: "i < 255" using assms(3) u8_bound(1) [of m] by simp
  have u: "unat (of_nat i :: u8) = i" "unat (of_nat (Suc i) :: u8) = Suc i"
    using i unat_of_nat_u8 [of i] unat_of_nat_u8 [of "Suc i"] by simp_all
  have "unat (255 :: u8) = 255" by simp
  with u i have "(of_nat i :: u8) \<noteq> 255" by (metis nat_neq_iff)
  moreover have "\<not> m < (of_nat (Suc i) :: u8)" using u assms(3) by (simp add: word_less_nat_alt del: of_nat_Suc)
  moreover obtain e w1 where "asio_inner_create X (xc_builder c) w = (Err e, w1)"
    using assms(1) unfolding asio_out_of_reach_def by blast
  ultimately show ?thesis
    using assms(1,2) by (simp add: asio_reconnect_turn_def asio_reconnect_def asio_out_of_reach_def add.commute)
qed
lemma reader_run_turns:
  assumes "asio_out_of_reach X c" and "ab_max_attempts (xc_builder c) = Some m" and "i + j \<le> unat m"
  shows "\<exists>w'. reader_run j X R (c\<lparr>xc_reader := Reconnecting (of_nat i) n\<rparr>, w) =
    (c\<lparr>xc_reader := Reconnecting (of_nat (i + j)) (n + j)\<rparr>, w')"
  using assms(3)
proof (induction j arbitrary: i n w)
  case (Suc j)
  let ?c = "c\<lparr>xc_reader := Reconnecting (of_nat i) n\<rparr>"
  have "asio_out_of_reach X ?c" using assms(1) by (simp add: asio_out_of_reach_def)
  from out_of_reach_turn [OF this, of m i R n w] assms(2) Suc.prems
  obtain w1 where "asio_reader_step X R (xc_reader ?c) (?c, w) =
      (c\<lparr>xc_reader := Reconnecting (of_nat (Suc i)) (n + 1)\<rparr>, w1)" by auto
  with Suc.IH [of "Suc i" "n + 1" w1] Suc.prems show ?case by (simp del: of_nat_Suc)
qed simp

lemma limit_reached_turn:
  assumes "ab_max_attempts (xc_builder c) = Some m" and "m \<noteq> 255"
  shows "asio_reconnect_turn X R m n (c, w) = (c\<lparr>xc_reader := Reading\<rparr>, w)"
  using assms unat_Suc_u8 [OF assms(2)] by (simp add: asio_reconnect_turn_def word_less_nat_alt)

lemma reader_run_one: "reader_run 1 X R cw = asio_reader_step X R (xc_reader (fst cw)) cw"
  by simp

text \<open>A round: the close, the attempts that are the limit, and the old stream again.\<close>

lemma reader_round:
  assumes "asio_out_of_reach X c" and "ab_max_attempts (xc_builder c) = Some m" and "m \<noteq> 255"
    and "ab_reconnect (xc_builder c)" and "xc_reason c = ReasonUnknown" and "sa_over (xc_socket c)"
    and "xc_reader c = StreamEnded" and "list_all dt_terminal (xc_tasks c)"
  shows "\<exists>w'. reader_run (unat m + 3) X R (c, w) =
    (c\<lparr>xc_tasks := xc_tasks c @ [close_task TransportClose (xc_epoch c)]\<rparr>, w')"
proof -
  define d where "d = c\<lparr>xc_tasks := xc_tasks c @ [close_task TransportClose (xc_epoch c)]\<rparr>"
  have d: "asio_out_of_reach X d" "ab_max_attempts (xc_builder d) = Some m" "list_all dt_terminal (xc_tasks d)"
    "sa_over (xc_socket d)" "xc_reader d = StreamEnded"
    using assms by (simp_all add: d_def asio_out_of_reach_def)
  have 1: "reader_run 1 X R (c, w) = (d\<lparr>xc_reader := Reconnecting (of_nat 0) 0\<rparr>, w)"
    using assms by (simp add: asio_after_stream_def spawn_dispatch_def d_def close_task_def asio_session_epoch_def Let_def)
  obtain w1 where 2: "reader_run (unat m) X R (d\<lparr>xc_reader := Reconnecting (of_nat 0) 0\<rparr>, w) =
      (d\<lparr>xc_reader := Reconnecting m (unat m)\<rparr>, w1)"
    using reader_run_turns [OF d(1,2), of 0 "unat m" R 0 w] by auto
  have 3: "reader_run 1 X R (d\<lparr>xc_reader := Reconnecting m (unat m)\<rparr>, w1) = (d\<lparr>xc_reader := Reading\<rparr>, w1)"
    using limit_reached_turn [of "d\<lparr>xc_reader := Reconnecting m (unat m)\<rparr>" m X R "unat m" w1] d(2) assms(3) by simp
  have filt: "filter dt_terminal (xc_tasks d) = xc_tasks d" using d(3) by (simp add: filter_id_conv list_all_iff)
  have "end_stream (d\<lparr>xc_reader := Reading\<rparr>) = d"
    using filt d(5) by (cases d) (simp add: end_stream_def reader_state_drop_def abort_dispatch_def)
  moreover have "d\<lparr>xc_reader := Reading, xc_socket := xc_socket d\<rparr> = d\<lparr>xc_reader := Reading\<rparr>" by (cases d) simp
  ultimately have 4: "reader_run 1 X R (d\<lparr>xc_reader := Reading\<rparr>, w1) = (d, w1)"
    using d(4) by (simp add: asio_stream_next_def on_asio_def sio_async_next_def)
  have "reader_run (1 + unat m + 1 + 1) X R (c, w) = (d, w1)"
    unfolding reader_run_add 1 2 3 4 ..
  then show ?thesis by (auto simp: d_def numeral_3_eq_3)
qed

text \<open>
  C29. \<open>max_reconnect_attempts\<close> does not stop the asynchronous client: when it has used up its attempts
  the reader goes back to the stream that has ended, reports the end of the connection once more and
  starts counting again. However many rounds \<open>k\<close> one waits for, it comes to the end of the \<open>k\<close>th.
\<close>

theorem async_attempts_not_limited:
  assumes "asio_out_of_reach X c" and "ab_max_attempts (xc_builder c) = Some m" and "m \<noteq> 255"
    and "ab_reconnect (xc_builder c)" and "xc_reason c = ReasonUnknown" and "sa_over (xc_socket c)"
    and "xc_reader c = StreamEnded" and "xc_tasks c = []"
  shows "\<exists>w'. reader_run (k * (unat m + 3)) X R (c, w) =
    (c\<lparr>xc_tasks := replicate k (close_task TransportClose (asio_session_epoch c))\<rparr>, w')"
proof (induction k)
  case 0
  have "c\<lparr>xc_tasks := []\<rparr> = c" using assms(8) by (cases c) simp
  then show ?case by simp
next
  case (Suc k)
  let ?task = "close_task TransportClose (asio_session_epoch c)"
  let ?c = "c\<lparr>xc_tasks := replicate k ?task\<rparr>"
  obtain w1 where w1: "reader_run (k * (unat m + 3)) X R (c, w) = (?c, w1)" using Suc by blast
  have "asio_out_of_reach X ?c" using assms(1) by (simp add: asio_out_of_reach_def)
  from reader_round [OF this, of m R w1] assms(2-7)
  obtain w2 where "reader_run (unat m + 3) X R (?c, w1) = (c\<lparr>xc_tasks := replicate k ?task @ [?task]\<rparr>, w2)"
    by (auto simp: list_all_iff asio_session_epoch_def)
  moreover have "Suc k * (unat m + 3) = k * (unat m + 3) + (unat m + 3)" by simp
  ultimately have "reader_run (Suc k * (unat m + 3)) X R (c, w) = (c\<lparr>xc_tasks := replicate (Suc k) ?task\<rparr>, w2)"
    using w1 by (simp only: reader_run_add replicate_append_same replicate_Suc)
  then show ?case by blast
qed

definition demo_lost :: asio_client where
  "demo_lost = (asio_client_new \<lparr>sa_engine = demo_engine [], sa_connected = False, sa_over = True, sa_panicked = False\<rparr>
     (asio_builder_max_reconnect_attempts 2 (asio_builder_new ''bad'')))\<lparr>xc_epoch := 1, xc_reader := StreamEnded\<rparr>"

theorem async_attempts_not_limited_witness:
  "\<exists>w'. reader_run 500 (demo_ext\<lparr>url_parse := \<lambda>s. Inl ''relative URL without a base''\<rparr>) (\<lambda>n h. reconnect_settings_new)
     (demo_lost, demo_world) = (demo_lost\<lparr>xc_tasks := replicate 100 (close_task TransportClose 1)\<rparr>, w')"
proof -
  let ?X = "demo_ext\<lparr>url_parse := \<lambda>s. Inl ''relative URL without a base''\<rparr>"
  have "asio_out_of_reach ?X demo_lost"
    by (simp add: asio_out_of_reach_def asio_inner_create_def demo_lost_def asio_client_new_def
        asio_builder_new_def asio_builder_max_reconnect_attempts_def)
  from async_attempts_not_limited [OF this, of 2 100 "\<lambda>n h. reconnect_settings_new" demo_world] show ?thesis
    by (simp add: demo_lost_def asio_client_new_def asio_builder_new_def asio_builder_max_reconnect_attempts_def
        asio_session_epoch_def)
qed

end
