(* ===== verification/Sio_Async_Sessions.thy ===== *)
theory Sio_Async_Sessions
  imports Sio_Async_Client
begin

text \<open>
  Which session a close of the asynchronous client names. Each successful connect of the client,
  the first and every reconnection, counts \<open>session_epoch\<close> up; a close is reported by a task of its
  own, which may run long after a new session has begun, and carries the number as an argument.
\<close>

text \<open>The numbers the close callbacks of a task are still to be told.\<close>

fun call_sessions :: "call \<Rightarrow> u64 list" where
  "call_sessions (CallUser h (ArgClose d ep)) = [ep]"
| "call_sessions c = []"

fun work_sessions :: "progress \<Rightarrow> u64 list" where
  "work_sessions (Todo (JobClose r ep)) = [ep]"
| "work_sessions (Todo j) = []"
| "work_sessions (Calls cs) = concat (map call_sessions cs)"

definition told_sessions :: "asio_client \<Rightarrow> u64 set" where
  "told_sessions c = (\<Union>t \<in> set (xc_tasks c). set (work_sessions (dt_work t)))"

text \<open>
  What a step may do: start at most one session, and let a task name only the session that was in
  force, beside those that were named before.
\<close>

definition session_step :: "asio_client \<Rightarrow> asio_client \<Rightarrow> bool" where
  "session_step c c' \<longleftrightarrow> xc_epoch c' \<in> {xc_epoch c, xc_epoch c + 1} \<and>
     told_sessions c' \<subseteq> insert (xc_epoch c) (told_sessions c)"

text \<open>A step that starts no session and names none.\<close>

definition session_kept :: "asio_client \<Rightarrow> asio_client \<Rightarrow> bool" where
  "session_kept c c' \<longleftrightarrow> xc_epoch c' = xc_epoch c \<and> told_sessions c' \<subseteq> told_sessions c"

lemma session_kept_refl [simp]: "session_kept c c"
  by (simp add: session_kept_def)

lemma session_kept_trans: "session_kept a b \<Longrightarrow> session_kept b c \<Longrightarrow> session_kept a c"
  unfolding session_kept_def by auto

lemma session_kept_step: "session_kept c c' \<Longrightarrow> session_step c c'"
  unfolding session_kept_def session_step_def by auto

lemma session_kept_tasks:
  assumes "xc_epoch c' = xc_epoch c" and "set (xc_tasks c') \<subseteq> set (xc_tasks c)"
  shows "session_kept c c'"
  using assms by (auto simp: session_kept_def told_sessions_def)

lemma told_sessions_updates [simp]:
  "told_sessions (c\<lparr>xc_socket := s\<rparr>) = told_sessions c"
  "told_sessions (c\<lparr>xc_acks := as\<rparr>) = told_sessions c"
  "told_sessions (c\<lparr>xc_reason := d\<rparr>) = told_sessions c"
  "told_sessions (c\<lparr>xc_reader := r\<rparr>) = told_sessions c"
  "told_sessions (c\<lparr>xc_epoch := ep\<rparr>) = told_sessions c"
  "told_sessions (c\<lparr>xc_builder := b\<rparr>) = told_sessions c"
  "told_sessions (c\<lparr>xc_auth := v\<rparr>) = told_sessions c"
  by (simp_all add: told_sessions_def)

lemma told_sessions_spawn:
  "told_sessions (spawn_dispatch j t c) = told_sessions c \<union> set (work_sessions (Todo j))"
  by (auto simp: told_sessions_def spawn_dispatch_def)

lemma session_kept_abort: "session_kept c (abort_dispatch b c)"
  by (rule session_kept_tasks) (auto simp: abort_dispatch_def)

lemma session_kept_drop: "session_kept c (drop_task i c)"
  by (rule session_kept_tasks) (auto simp: drop_task_def dest: in_set_takeD in_set_dropD)

lemma session_kept_set_work:
  assumes "i < length (xc_tasks c)"
    and "set (work_sessions q) \<subseteq> set (work_sessions (dt_work (xc_tasks c ! i)))"
  shows "session_kept c (set_work i q c)"
proof -
  have "xc_tasks c ! i \<in> set (xc_tasks c)" using assms(1) by simp
  moreover have "t \<in> set (xc_tasks c) \<or> t = (xc_tasks c ! i)\<lparr>dt_work := q\<rparr>" if "t \<in> set (xc_tasks (set_work i q c))" for t
    using that set_update_subset_insert [of "xc_tasks c" i] by (auto simp: set_work_def)
  ultimately have "told_sessions (set_work i q c) \<subseteq> told_sessions c"
    using assms(2) unfolding told_sessions_def by fastforce
  then show ?thesis by (simp add: session_kept_def set_work_def)
qed

subsection \<open>The operations\<close>

lemma on_asio_fields [simp]:
  "xc_epoch (fst (snd (on_asio f cw))) = xc_epoch (fst cw)"
  "xc_tasks (fst (snd (on_asio f cw))) = xc_tasks (fst cw)"
  by (simp_all add: on_asio_def case_prod_beta)

lemma session_kept_on_asio [simp]: "session_kept c (fst (snd (on_asio f (c, w))))"
  by (rule session_kept_tasks) simp_all


lemma session_kept_ques:
  assumes "session_kept c (fst (snd m))" and "\<And>a s. session_kept (fst s) (fst (snd (k a s)))"
  shows "session_kept c (fst (snd (ques m k)))"
  using assms session_kept_trans [OF assms(1), of "fst (snd (k a (snd m)))" for a]
  by (cases m; cases "fst m") auto

lemma session_kept_on_return:
  assumes "session_kept c (fst (snd m))" and "\<And>a s. session_kept (fst s) (fst (snd (k a s)))"
  shows "session_kept c (fst (snd (on_return m k)))"
  using assms session_kept_trans [OF assms(1), of "fst (snd (k a (snd m)))" for a]
  by (cases m; cases "fst m") auto

lemma session_kept_abort_reader: "session_kept c (abort_reader c)"
  by (rule session_kept_tasks) (auto simp: abort_reader_def reader_state_drop_def abort_dispatch_def Let_def)

lemma session_kept_disconnect: "session_kept (fst cw) (fst (snd (asio_disconnect X cw)))"
proof -
  obtain c w where cw: "cw = (c, w)" by (cases cw)
  let ?c = "abort_reader (c\<lparr>xc_reason := ReasonManual\<rparr>)"
  have "session_kept c ?c"
    using session_kept_abort_reader [of "c\<lparr>xc_reason := ReasonManual\<rparr>"] by (simp add: session_kept_def)
  moreover have "session_kept ?c (fst (snd (sio_within_ms 1000 e w (on_asio f (?c, w)))))" for e f
    using session_kept_on_asio [of ?c f w] by (simp add: sio_within_ms_def case_prod_beta)
  ultimately have "session_kept c (fst (snd (sio_within_ms 1000 e w (on_asio f (?c, w)))))" for e f
    using session_kept_trans by blast
  then show ?thesis
    unfolding cw asio_disconnect_def
    by (auto simp: Let_def intro!: session_kept_on_return session_kept_abort)
qed

lemma session_kept_emit_with_ack: "session_kept (fst cw) (fst (snd (asio_emit_with_ack X e d ms h cw)))"
proof -
  have acks: "session_kept c (fst (snd (on_asio f (c\<lparr>xc_acks := as\<rparr>, w))))" for c f as w
    by (rule session_kept_tasks) simp_all
  show ?thesis
    by (cases cw) (auto simp: asio_emit_with_ack_def Let_def acks intro!: session_kept_ques)
qed

lemma session_kept_actions: "session_kept (fst cw) (fst (asio_actions X us cw))"
proof (induction us arbitrary: cw)
  case (Cons u us)
  have rest: "session_kept (fst cw) (fst (asio_actions X us cw'))" if "session_kept (fst cw) (fst cw')" for cw'
    using session_kept_trans [OF that Cons.IH] .
  show ?case
    by (cases cw; cases u) (use rest session_kept_disconnect [of cw] session_kept_emit_with_ack [of cw] in
        \<open>auto simp: asio_emit_def asio_ack_def asio_ack_with_id_def\<close>)
qed simp

text \<open>No callback but the one of \<open>on_close\<close> is told a session.\<close>

lemma callback_calls_sessions: "x \<in> set (callback_calls b e d i) \<Longrightarrow> call_sessions x = []"
  by (auto simp: callback_calls_def Let_def split: option.splits if_splits)

lemma ack_calls_sessions: "x \<in> set (ack_calls X a p w) \<Longrightarrow> call_sessions x = []"
  by (auto simp: ack_calls_def split: option.splits list.splits if_splits)

lemma or_error_callback_sessions:
  assumes "\<And>cs. r = Ok cs \<Longrightarrow> \<exists>e d i. set cs \<subseteq> set (callback_calls b e d i)"
    and "x \<in> set (or_error_callback X b r)"
  shows "call_sessions x = []"
  using assms callback_calls_sessions by (cases r) (fastforce simp: or_error_callback_def)+

lemma handler_calls_sessions:
  "x \<in> set (or_error_callback X b (asio_handle_event X b p)) \<Longrightarrow> call_sessions x = []"
  "x \<in> set (or_error_callback X b (asio_handle_binary_event b p)) \<Longrightarrow> call_sessions x = []"
  by (erule or_error_callback_sessions [rotated],
      fastforce simp: asio_handle_event_def outcome_simps split: option.splits sum.splits json.splits)
     (erule or_error_callback_sessions [rotated],
      fastforce simp: asio_handle_binary_event_def Let_def split: option.splits list.splits)

lemma start_job_sessions:
  assumes "start_job X j c = (cs, c')"
  shows "set (concat (map call_sessions cs)) \<subseteq> set (work_sessions (Todo j))"
    and "session_kept c c'" and "xc_tasks c' = xc_tasks c"
proof -
  show "set (concat (map call_sessions cs)) \<subseteq> set (work_sessions (Todo j))"
    using assms
    by (cases j) (auto simp: asio_handle_ack_def callback_close_calls_def callback_calls_sessions
        handler_calls_sessions split: option.splits)
  show kept: "xc_tasks c' = xc_tasks c"
    using assms by (cases j) (auto simp: asio_handle_ack_def split: option.splits)
  have "xc_epoch c' = xc_epoch c"
    using assms by (cases j) (auto simp: asio_handle_ack_def split: option.splits)
  with kept show "session_kept c c'" by (intro session_kept_tasks) simp_all
qed

subsection \<open>The steps of the reader\<close>

lemma told_sessions_abort:
  "told_sessions (abort_dispatch b c) \<subseteq> told_sessions c" "xc_epoch (abort_dispatch b c) = xc_epoch c"
  using session_kept_abort [of c b] by (simp_all add: session_kept_def)

lemma spawn_dispatch_epoch [simp]: "xc_epoch (spawn_dispatch j t c) = xc_epoch c"
  by (simp add: spawn_dispatch_def)

lemma session_step_packet: "session_step c (asio_handle_socketio_packet X p c)"
  using told_sessions_abort [of False "c\<lparr>xc_reason := ReasonServer\<rparr>"]
  by (cases "packet_type p") (auto simp: asio_handle_socketio_packet_def session_step_def told_sessions_spawn
      asio_session_epoch_def Let_def)

lemma session_kept_end_stream: "session_kept c (end_stream c)"
  by (rule session_kept_tasks) (auto simp: end_stream_def reader_state_drop_def abort_dispatch_def)

lemma session_step_kept: "session_kept a b \<Longrightarrow> session_step b c \<Longrightarrow> xc_epoch a = xc_epoch b \<Longrightarrow> session_step a c"
  unfolding session_kept_def session_step_def by auto

lemma session_step_stream_next: "session_step (fst cw) (fst (asio_stream_next X cw))"
proof -
  obtain c w where cw: "cw = (c, w)" by (cases cw)
  obtain r c1 w1 where n: "on_asio (sio_async_next X) (c, w) = (r, c1, w1)"
    by (cases "on_asio (sio_async_next X) (c, w)") auto
  then have k: "session_kept c c1" using session_kept_on_asio [of c "sio_async_next X" w] by simp
  have drop: "session_kept c1 ((reader_state_drop c1)\<lparr>xc_reader := ReaderDone\<rparr>)"
    by (rule session_kept_tasks) (auto simp: reader_state_drop_def abort_dispatch_def)
  have spawn: "session_kept c1 (spawn_dispatch (JobCallback e d) t c1)" for e d t
    by (simp add: session_kept_def told_sessions_spawn)
  have "session_step c1 (fst (asio_stream_next X cw))"
    using n session_step_packet session_kept_step [OF session_kept_end_stream] session_kept_step [OF drop]
      session_kept_step [OF spawn] session_kept_step [OF session_kept_refl]
    by (cases r) (auto simp: cw asio_stream_next_def split: option.splits)
  with k show ?thesis by (auto simp: cw session_kept_def session_step_def)
qed

lemma session_step_after_stream: "session_step c (asio_after_stream c)"
  by (cases "xc_reason c") (auto simp: asio_after_stream_def session_step_def told_sessions_spawn
      asio_session_epoch_def Let_def)

lemma asio_connect_session:
  "xc_tasks (fst (snd (asio_connect X (c, w)))) = xc_tasks c"
  "xc_epoch (fst (snd (asio_connect X (c, w)))) = xc_epoch c + (if is_ok (fst (asio_connect X (c, w))) then 1 else 0)"
proof -
  obtain r c1 w1 where 1: "on_asio (sio_async_connect X) (c, w) = (r, c1, w1)"
    by (cases "on_asio (sio_async_connect X) (c, w)") auto
  let ?send = "on_asio (sio_async_send X (sio_packet_new Connect (xc_nsp c1)
      (map_option (json_to_string (json X)) (xc_auth c1)) None 0 None)) (c1, w1)"
  have c1: "xc_epoch c1 = xc_epoch c" "xc_tasks c1 = xc_tasks c"
    using on_asio_fields [of "sio_async_connect X" "(c, w)"] 1 by simp_all
  obtain r2 c2 w2 where 2: "?send = (r2, c2, w2)" by (cases ?send) auto
  have c2: "xc_epoch c2 = xc_epoch c" "xc_tasks c2 = xc_tasks c"
    using on_asio_fields 2 c1 by (metis fst_conv snd_conv)+
  from 1 2 c1 c2 show "xc_tasks (fst (snd (asio_connect X (c, w)))) = xc_tasks c"
    "xc_epoch (fst (snd (asio_connect X (c, w)))) = xc_epoch c + (if is_ok (fst (asio_connect X (c, w))) then 1 else 0)"
    by (cases r; cases r2; simp add: asio_connect_def Let_def)+
qed

lemma session_step_tasks:
  "xc_tasks c' = xc_tasks c \<Longrightarrow> xc_epoch c' \<in> {xc_epoch c, xc_epoch c + 1} \<Longrightarrow> session_step c c'"
  by (auto simp: session_step_def told_sessions_def)

lemma asio_reconnect_session:
  "xc_tasks (fst (snd (asio_reconnect X R (c, w)))) = xc_tasks c"
  "xc_epoch (fst (snd (asio_reconnect X R (c, w)))) =
    xc_epoch c + (if is_ok (fst (asio_reconnect X R (c, w))) then 1 else 0)"
proof -
  define cw where "cw = (case ab_on_reconnect (xc_builder c) of None \<Rightarrow> (c, w)
     | Some h \<Rightarrow> (apply_settings (R (length (trace w)) h) c, did (DidCall h ArgUnit) w))"
  obtain c1 w1 where cw1: "cw = (c1, w1)" by (cases cw)
  then have c1: "xc_tasks c1 = xc_tasks c" "xc_epoch c1 = xc_epoch c"
    unfolding cw_def by (auto simp: apply_settings_def Let_def split: option.splits)
  obtain r w2 where 2: "asio_inner_create X (xc_builder c1) w1 = (r, w2)" by fastforce
  have eq: "asio_reconnect X R (c, w) = ques (r, c1, w2) (\<lambda>s (c, w). asio_connect X (c\<lparr>xc_socket := s\<rparr>, w))"
    using cw1 2 by (simp add: asio_reconnect_def cw_def)
  show "xc_tasks (fst (snd (asio_reconnect X R (c, w)))) = xc_tasks c"
    "xc_epoch (fst (snd (asio_reconnect X R (c, w)))) =
      xc_epoch c + (if is_ok (fst (asio_reconnect X R (c, w))) then 1 else 0)"
    unfolding eq by (cases r; simp add: c1 asio_connect_session)+
qed

lemma session_step_turn: "session_step c (fst (asio_reconnect_turn X R i n (c, w)))"
proof -
  obtain r c1 w1 where r: "asio_reconnect X R (c, w) = (r, c1, w1)" by (cases "asio_reconnect X R (c, w)") auto
  have "xc_tasks c1 = xc_tasks c" "xc_epoch c1 \<in> {xc_epoch c, xc_epoch c + 1}"
    using asio_reconnect_session [of X R c w] r by auto
  with r show ?thesis
    by (cases r) (auto simp: asio_reconnect_turn_def Let_def intro!: session_step_tasks)
qed

lemma session_step_reader: "session_step (fst cw) (fst (asio_reader_step X R p cw))"
  using session_step_stream_next [of cw X] session_step_after_stream [of "fst cw"]
    session_step_turn [of "fst cw" X R _ _ "snd cw"] session_kept_step [OF session_kept_refl]
  by (cases p) simp_all

subsection \<open>All interleavings\<close>

lemma asio_step_session:
  assumes "asio_step X R cw cw'"
  shows "session_step (fst cw) (fst cw')"
proof -
  obtain c w c' w' where cw: "cw = (c, w)" "cw' = (c', w')" by (metis surj_pair)
  with assms have "asio_step X R (c, w) (c', w')" by simp
  then have "session_step c c'"
  proof (cases rule: asio_stepE)
    case (start i j cs c1)
    note job = start_job_sessions [OF start(3)]
    have "session_kept c1 (set_work i (Calls cs) c1)"
      using start job by (intro session_kept_set_work) (simp_all del: set_concat)
    with job(2) start(4) show ?thesis using session_kept_step session_kept_trans by auto
  next
    case (call_user i h a cs)
    have "session_kept c (set_work i (Calls cs) c)"
      using call_user by (intro session_kept_set_work) auto
    moreover have "session_kept (set_work i (Calls cs) c) (fst (asio_call_user X h a (set_work i (Calls cs) c, w)))"
      using session_kept_actions [of "(set_work i (Calls cs) c, did (DidCall h a) w)" X] by (simp add: asio_call_user_def)
    moreover have "c' = fst (asio_call_user X h a (set_work i (Calls cs) c, w))" using call_user(1) by (metis fst_conv)
    ultimately show ?thesis using session_kept_step session_kept_trans by auto
  next
    case (call_ack i k p cs)
    have "session_kept c (set_work i (Calls (ack_calls X k p w @ cs)) c)"
      using call_ack by (intro session_kept_set_work) (auto simp: ack_calls_sessions)
    with call_ack show ?thesis by (simp add: session_kept_step)
  next
    case reader
    then show ?thesis using session_step_reader [of "(c, w)" X R "xc_reader c"] by (metis fst_conv)
  next
    case (user u)
    then show ?thesis using session_kept_step [OF session_kept_actions [of "(c, w)" X "[u]"]] by (metis fst_conv)
  qed (simp_all add: session_kept_step session_kept_drop)
  then show ?thesis by (simp add: cw)
qed

text \<open>The sessions from number \<open>a\<close> on, \<open>k\<close> of them after the first.\<close>

definition sessions_upto :: "u64 \<Rightarrow> nat \<Rightarrow> u64 set" where
  "sessions_upto a k = (\<lambda>j. a + of_nat j) ` {..k}"

lemma sessions_upto_step:
  assumes "xc_epoch c = a + of_nat k" and "told_sessions c \<subseteq> sessions_upto a k" and "session_step c c'"
  shows "\<exists>k' \<in> {k, Suc k}. xc_epoch c' = a + of_nat k' \<and> told_sessions c' \<subseteq> sessions_upto a k'"
proof -
  have up: "sessions_upto a k \<subseteq> sessions_upto a (Suc k)" "xc_epoch c \<in> sessions_upto a k"
    using assms(1) by (auto simp: sessions_upto_def)
  with assms(2,3) have told: "told_sessions c' \<subseteq> sessions_upto a k" by (auto simp: session_step_def)
  show ?thesis
  proof (cases "xc_epoch c' = xc_epoch c")
    case True
    with assms(1) told show ?thesis by auto
  next
    case False
    with assms(1,3) have "xc_epoch c' = a + of_nat (Suc k)" by (simp add: session_step_def)
    with told up(1) show ?thesis by blast
  qed
qed

lemma asio_builder_connect_session:
  assumes "asio_builder_connect X b w = (Ok c, w')"
  shows "xc_epoch c = 1" and "xc_tasks c = []" and "told_sessions c = {}"
proof -
  from assms obtain s w1 where s: "asio_inner_create X b w = (Ok s, w1)"
    by (cases "asio_inner_create X b w"; cases "fst (asio_inner_create X b w)")
       (auto simp: asio_builder_connect_def asio_connect_manual_def)
  obtain r c1 w2 where c: "asio_connect X (asio_client_new s b, w1) = (r, c1, w2)"
    by (cases "asio_connect X (asio_client_new s b, w1)") auto
  with assms s have "r = Ok ()" "c = asio_poll_stream c1"
    by (cases r; simp add: asio_builder_connect_def asio_connect_manual_def)+
  moreover note asio_connect_session [of X "asio_client_new s b" w1]
  ultimately show "xc_epoch c = 1" "xc_tasks c = []" "told_sessions c = {}"
    using c by (simp_all add: asio_poll_stream_def asio_client_new_def told_sessions_def)
qed

lemma asio_sessions_after:
  assumes "xc_epoch c = 1" and "told_sessions c = {}" and "(asio_step X R ^^ n) (c, w) cw"
  shows "\<exists>k \<le> n. xc_epoch (fst cw) = 1 + of_nat k \<and> told_sessions (fst cw) \<subseteq> sessions_upto 1 k"
  using assms(3)
proof (induction n arbitrary: cw)
  case 0
  with assms(1,2) show ?case by (intro exI [of _ 0]) auto
next
  case (Suc n)
  then obtain d where d: "(asio_step X R ^^ n) (c, w) d" "asio_step X R d cw" by auto
  from Suc.IH [OF d(1)] obtain k where k: "k \<le> n" "xc_epoch (fst d) = 1 + of_nat k"
    "told_sessions (fst d) \<subseteq> sessions_upto 1 k" by blast
  from sessions_upto_step [OF k(2,3) asio_step_session [OF d(2)]] obtain k' where "k' \<in> {k, Suc k}"
    "xc_epoch (fst cw) = 1 + of_nat k'" "told_sessions (fst cw) \<subseteq> sessions_upto 1 k'" by blast
  with k(1) show ?case by (intro exI [of _ k']) auto
qed

lemma unat_session:
  assumes "j < 2 ^ 64 - 1"
  shows "unat (1 + of_nat j :: u64) = Suc j"
proof -
  have "unat (of_nat (Suc j) :: u64) = Suc j" by (simp add: unat_of_nat del: of_nat_Suc) (use assms in simp)
  then show ?thesis by simp
qed

text \<open>
  C26. A close of the asynchronous client is never attributed to a session that did not exist. From a
  new client on, whatever the order in which tasks, reader and user take their steps, the sessions
  are numbered from 1, at most one begins in a step, and each close still to be reported names one
  of those begun so far: never 0, never a later one. The bound is that of the counter, a \<open>u64\<close>.
\<close>

theorem async_close_names_its_session:
  assumes "asio_builder_connect X b w = (Ok c, w1)" and "(asio_step X R ^^ n) (c, w1) (c2, w2)"
    and "n < 2 ^ 64 - 1"
  shows "0 < unat (asio_session_epoch c2) \<and> unat (asio_session_epoch c2) \<le> Suc n \<and>
    (\<forall>e \<in> told_sessions c2. 0 < e \<and> e \<le> asio_session_epoch c2)"
proof -
  from asio_sessions_after [OF asio_builder_connect_session(1,3) [OF assms(1)] assms(2)] obtain k
    where k: "k \<le> n" "xc_epoch c2 = 1 + of_nat k" "told_sessions c2 \<subseteq> sessions_upto 1 k" by auto
  have nats: "unat (1 + of_nat j :: u64) = Suc j" if "j \<le> k" for j
    using unat_session [of j] that k(1) assms(3) by simp
  have "0 < e \<and> e \<le> xc_epoch c2" if "e \<in> told_sessions c2" for e
  proof -
    from that k(3) obtain j where j: "j \<le> k" "e = 1 + of_nat j" by (auto simp: sessions_upto_def)
    then have "unat e = Suc j" "unat (xc_epoch c2) = Suc k" using nats k(2) by simp_all
    with j(1) show ?thesis by (simp add: word_le_nat_alt word_less_nat_alt)
  qed
  moreover have "unat (xc_epoch c2) = Suc k" using nats [of k] k(2) by simp
  ultimately show ?thesis using k(1) by (simp add: asio_session_epoch_def)
qed

text \<open>A server that answers the handshake over a websocket and then goes away.\<close>

definition demo_short_session :: ext where
  "demo_short_session = demo_items [(1, WsMsg (WsText ''0s''))]"

definition demo_short_builder :: asio_builder where
  "demo_short_builder = (asio_builder_new ''http://h'')\<lparr>ab_transport := WebsocketTransport\<rparr>"

lemma demo_short_simps [simp]:
  "loop_fuel demo_short_session = 10" "b64 demo_short_session = letters_engine"
  "json demo_short_session = plain_json_lib" "overflow_checks demo_short_session = True"
  "net_recv demo_short_session c k = (if k = 0 then (1, WsMsg (WsText ''0s'')) else (0, WsEnd))"
  "url_parse demo_short_session = Inr" "url_scheme demo_short_session = demo_scheme"
  "url_path demo_short_session u = ''/''" "url_set_path demo_short_session p u = u @ p"
  "url_append_pair demo_short_session = demo_append" "ws_request_ok demo_short_session u = Inr ()"
  "url_set_scheme demo_short_session s u =
     (case split_once CHR '':'' u of None \<Rightarrow> None | Some (s', r) \<Rightarrow> Some (s @ '':'' @ r))" "net_connect demo_short_session n u = (0, Inr ())"
  "net_send demo_short_session n m = (0, Inr ())"
  "json_handshake demo_short_session s =
     Inr \<lparr>sid = s, upgrades = [''websocket''], ping_interval = 25000, ping_timeout = 20000\<rparr>"
  by (simp_all add: demo_short_session_def demo_items_def demo_ext_def)

lemma ws_poll_ten:
  "ws_poll_loop 10 X dl c w =
     (case ws_recv X dl c w of
        (Elapsed, w) \<Rightarrow> (Ok Elapsed, w)
      | (InTime i, w) \<Rightarrow> (case ws_read i of None \<Rightarrow> ws_poll_loop 9 X dl c w | Some r \<Rightarrow> (in_time r, w)))"
  using ws_poll_loop_Suc [of 9 X dl c w] by simp

lemma demo_short_read:
  "received w c = 0 \<Longrightarrow> now w = 0 \<Longrightarrow> async_ws_stream_next demo_short_session None \<lparr>ws_conn = c, ws_url = u\<rparr> w =
     (Ok (InTime (Some ''0s'')), w\<lparr>now := 1, received := (received w)(c := 1)\<rparr>)"
  by (simp add: async_ws_stream_next_def ws_stream_is_poll ws_general_poll_next_def ws_poll_ten ws_recv_def past_def
      in_time_def)

lemma demo_short_handshake:
  "and_then (eio_packet_try_from letters_engine ''0s'') (handshake_try_from (json_handshake demo_short_session)) =
    Ok \<lparr>sid = ''s'', upgrades = [''websocket''], ping_interval = 25000, ping_timeout = 20000\<rparr>"
proof -
  have "eio_packet_try_from letters_engine ''0s'' = Ok (eio_packet_new Open ''s'')" by code_simp
  then show ?thesis by (simp add: handshake_try_from_def eio_packet_new_def)
qed

text \<open>The socket the builder makes, its engine connected or not.\<close>

definition demo_short_socket :: "url \<Rightarrow> bool \<Rightarrow> sio_async_socket" where
  "demo_short_socket u b = \<lparr>sa_engine = async_client_new \<lparr>as_transport = Some (AsyncWebsocket \<lparr>ws_conn = 0, ws_url = u\<rparr>),
        as_closing = False, as_on_close = None, as_on_data = None, as_on_error = None, as_on_open = None,
        as_on_packet = None, as_connected = b, as_last_ping = 1, as_last_pong = 1,
        as_connection_data = \<lparr>sid = ''s'', upgrades = [''websocket''], ping_interval = 25000, ping_timeout = 20000\<rparr>,
        as_max_ping_timeout = 45000\<rparr>, sa_connected = b, sa_over = False, sa_panicked = False\<rparr>"

lemma demo_short_engine:
  "\<exists>u w. asio_inner_create demo_short_session demo_short_builder demo_world = (Ok (demo_short_socket u False), w) \<and>
    now w = 1 \<and> received w 0 = 1"
  by (simp add: asio_inner_create_def build_async_engine_def async_engine_builder_of_def
         demo_short_builder_def asio_builder_new_def
        async_builder_new_def demo_append_def ENGINE_IO_VERSION_def async_build_websocket_def convert_headers_def
        demo_scheme_def async_ws_new_def unwrap_def ws_connect_def ws_general_new_def
        async_websocket_ready_def async_handshake_with_transport_def demo_short_read did_def demo_world_def 
        async_client_of_def async_socket_new_def add_u64_def async_transport_from_ws_def async_callback_default_def demo_short_handshake sio_async_socket_new_def
        demo_short_socket_def Let_def) blast


lemma demo_short_emit:
  assumes "utf8_valid d"
  shows "async_ws_emit demo_short_session \<lparr>ws_conn = 0, ws_url = u\<rparr> d False w =
    (Ok (), did (DidSend 0 (WsText d)) (w\<lparr>send_count := send_count w + 1\<rparr>))"
  using assms by (simp add: async_ws_emit_def ws_general_emit_def from_utf8_def ws_send_def)

lemma demo_short_packet_id: "packet_id (eio_packet_new i d) = i"
  "attachments (sio_packet_new t n x k c a) = a"
  by (simp_all add: eio_packet_new_def sio_packet_new_def)

lemma demo_short_packets:
  "sio_packet_into_bytes True (sio_packet_new Connect ''/'' None None 0 None) = Ok ''0''"
  "eio_packet_into_bytes letters_engine (eio_packet_new Message ''0'') = ''40''"
  "utf8_valid ''3''" "utf8_valid ''40''"
  by code_simp+

lemma demo_short_connect:
  assumes "now w = 1" and "received w 0 = 1"
  shows "\<exists>w'. sio_async_connect demo_short_session (demo_short_socket u False, w) = (Ok (), demo_short_socket u True, w') \<and>
    now w' = 1 \<and> received w' 0 = 1"
  using assms
  by (simp add: sio_async_connect_def on_async_engine_def async_client_connect_def on_socket_def async_socket_connect_def
      async_connect_begin_def demo_short_socket_def async_client_new_def async_socket_emit_def async_emit_begin_def
      async_emit_finish_def control_packet_bytes demo_short_emit demo_short_packets spawn_opt_def did_def
      demo_short_packet_id Let_def)

lemma demo_short_hello:
  assumes "now w = 1" and "received w 0 = 1"
  shows "\<exists>w'. sio_async_send demo_short_session (sio_packet_new Connect ''/'' None None 0 None) (demo_short_socket u True, w) =
    (Ok (), demo_short_socket u True, w') \<and> now w' = 1 \<and> received w' 0 = 1"
  using assms
  by (simp add: sio_async_send_def on_async_engine_def async_client_emit_def on_socket_def demo_short_packets
      sio_async_is_engineio_connected_def async_client_is_connected_def async_is_connected_def
      demo_short_socket_def async_client_new_def async_socket_emit_def async_emit_begin_def
      async_emit_finish_def demo_short_emit did_def demo_short_packet_id Let_def)

lemma packet_stream_ten:
  "st_over st = False \<Longrightarrow> st_packets st = [] \<Longrightarrow> packet_stream_loop 10 X dl st w =
          (case async_transport_next X dl (st_transport st) w of (r, t, w) \<Rightarrow>
           let st = st\<lparr>st_transport := t\<rparr> in
           case r of
             Ok Elapsed \<Rightarrow> (Ok Elapsed, st, w)
           | Ok (InTime None) \<Rightarrow> (Ok (InTime None), st\<lparr>st_over := True\<rparr>, w)
           | Ok (InTime (Some b)) \<Rightarrow>
               (case parse_payload X b of
                  Ok ps \<Rightarrow> packet_stream_loop 9 X dl (st\<lparr>st_packets := ps\<rparr>) w
                | Err e \<Rightarrow> (Err e, st\<lparr>st_over := True\<rparr>, w)
                | Panic \<Rightarrow> (Panic, st, w)
                | Hang \<Rightarrow> (Hang, st, w))
           | Err e \<Rightarrow> (Err e, st\<lparr>st_over := True\<rparr>, w)
           | Panic \<Rightarrow> (Panic, st, w)
           | Hang \<Rightarrow> (Hang, st, w))"
  using packet_stream_loop.simps(2) [of 9 X dl st w] by simp

lemma demo_short_end:
  assumes "now w = 1" and "received w 0 = 1"
  shows "\<exists>s w'. sio_async_next demo_short_session (demo_short_socket u True, w) = (Ok None, s, w')"
proof -
  have "\<exists>e w'. async_client_next demo_short_session (sa_engine (demo_short_socket u True), w) = (Ok None, e, w')"
    using assms
    by (simp add: async_client_next_def async_client_step_def async_client_new_def generator_new_def as_stream_def as_stream_next_def packet_stream_next_def
        demo_short_socket_def packet_stream_new_def async_time_to_next_ping_def async_ws_stream_next_def ws_stream_is_poll
        ws_general_poll_next_def ws_poll_ten packet_stream_ten ws_recv_def past_def in_time_def Let_def)
  then obtain e w' where "async_client_next demo_short_session (sa_engine (demo_short_socket u True), w) = (Ok None, e, w')"
    by blast
  moreover have "sio_async_stream_loop 10 X sw = ques (on_async_engine (async_client_next X) sw) (\<lambda>r sw.
       case r of
         None \<Rightarrow> (Ok None, sw)
       | Some ep \<Rightarrow>
           if packet_id ep = Message \<or> packet_id ep = MessageBinary
           then ques (sio_async_handle_engineio_packet X ep sw) (\<lambda>p (s, w).
                  (Ok (Some p), sio_async_handle_socketio_packet p s, w))
           else sio_async_stream_loop 9 X sw)" for X sw
    using sio_async_stream_loop.simps(2) [of 9 X sw] by simp
  ultimately show ?thesis
    by (simp add: sio_async_next_def on_async_engine_def demo_short_socket_def)
qed


lemma demo_short_client:
  "\<exists>u c w. asio_builder_connect demo_short_session demo_short_builder demo_world = (Ok c, w) \<and>
    xc_socket c = demo_short_socket u True \<and> xc_reader c = Reading \<and> xc_reason c = ReasonUnknown \<and>
    now w = 1 \<and> received w 0 = 1"
proof -
  let ?X = demo_short_session
  obtain u w where 1: "asio_inner_create ?X demo_short_builder demo_world = (Ok (demo_short_socket u False), w)"
    "now w = 1" "received w 0 = 1" using demo_short_engine by blast
  from demo_short_connect [OF 1(2,3)] obtain w1 where
    2: "sio_async_connect ?X (demo_short_socket u False, w) = (Ok (), demo_short_socket u True, w1)"
    "now w1 = 1" "received w1 0 = 1" by blast
  from demo_short_hello [OF 2(2,3)] obtain w2 where
    3: "sio_async_send ?X (sio_packet_new Connect ''/'' None None 0 None) (demo_short_socket u True, w1) =
      (Ok (), demo_short_socket u True, w2)" "now w2 = 1" "received w2 0 = 1" by blast
  from 1 2 3 show ?thesis
    by (simp add: asio_builder_connect_def asio_connect_manual_def asio_connect_def on_asio_def asio_client_new_def
        demo_short_builder_def asio_builder_new_def asio_poll_stream_def Let_def) blast
qed

theorem async_close_names_its_session_witness:
  "\<exists>c w1 c2 w2. asio_builder_connect demo_short_session demo_short_builder demo_world = (Ok c, w1) \<and>
     (asio_step demo_short_session (\<lambda>n h. reconnect_settings_new) ^^ 2) (c, w1) (c2, w2) \<and>
     told_sessions c2 = {1} \<and> unat (asio_session_epoch c2) \<le> 3 \<and> 1 \<le> asio_session_epoch c2"
proof -
  let ?X = demo_short_session and ?R = "\<lambda>n h. reconnect_settings_new"
  obtain u c w where c: "asio_builder_connect ?X demo_short_builder demo_world = (Ok c, w)"
    "xc_socket c = demo_short_socket u True" "xc_reader c = Reading" "xc_reason c = ReasonUnknown"
    "now w = 1" "received w 0 = 1" using demo_short_client by blast
  from demo_short_end [OF c(5,6)] obtain s w1 where
    n: "sio_async_next ?X (demo_short_socket u True, w) = (Ok None, s, w1)" by blast
  let ?c1 = "end_stream (c\<lparr>xc_socket := s\<rparr>)" and ?c2 = "asio_after_stream (end_stream (c\<lparr>xc_socket := s\<rparr>))"
  have "asio_step ?X ?R (c, w) (?c1, w1)"
    using asio_step.reader [of ?X ?R c w] c n by (simp add: asio_stream_next_def on_asio_def)
  moreover have "asio_step ?X ?R (?c1, w1) (?c2, w1)"
    using asio_step.reader [of ?X ?R ?c1 w1] by (simp add: end_stream_def reader_state_drop_def abort_dispatch_def)
  ultimately have run: "(asio_step ?X ?R ^^ 2) (c, w) (?c2, w1)"
    by (auto simp: numeral_2_eq_2)
  have "told_sessions ?c2 = {1}"
    using asio_builder_connect_session [OF c(1)] c(4)
    by (simp add: asio_after_stream_def end_stream_def reader_state_drop_def abort_dispatch_def
        asio_session_epoch_def spawn_dispatch_def told_sessions_def)
  with async_close_names_its_session [OF c(1) run] run c(1) show ?thesis by fastforce
qed

end
