(* ===== verification/Sio_Async_Teardown.thy ===== *)
theory Sio_Async_Teardown
  imports Sio_Async_Client
begin

text \<open>
  Disconnecting and reconnecting at the same time. \<open>Sio_Async_Client\<close> takes a \<open>disconnect\<close> and one
  attempt of the reader to reconnect as single steps; here both are cut at their awaits, so that
  callbacks, other calls and each other's parts come in between, and the abort of the reader, asked for
  first and taking effect later, may hit an attempt at any of them. \<open>fine_step\<close> is the interleaving. Disconnects are tasks of their own,
  one after the other behind the lock \<open>disconnect_operation\<close>; one that has returned is in
  \<open>fc_results\<close>.
\<close>


subsection \<open>An attempt to reconnect, cut at its awaits\<close>

text \<open>
  What the reader awaits: the \<open>on_reconnect\<close> callback, taken out of the builder; the lock to apply its
  settings and put it back; the new socket; the lock to install it; the engine; the connect packet;
  after a failure, the delay of the back-off, with the instant at which it is over.
\<close>

datatype attempt =
    AwaitCallback callback
  | ApplySettings callback reconnect_settings
  | CreateSocket
  | InstallSocket sio_async_socket
  | OpenEngine
  | SendConnect
  | BackOff nat nat

definition put_on_reconnect :: "callback option \<Rightarrow> asio_client \<Rightarrow> asio_client" where
  "put_on_reconnect h c = c\<lparr>xc_builder := (xc_builder c)\<lparr>ab_on_reconnect := h\<rparr>\<rparr>"

text \<open>The head of the loop's body: the count of the attempts, and the callback taken.\<close>

definition attempt_begin :: "ext \<Rightarrow> u8 \<Rightarrow> nat \<Rightarrow> asio_client \<Rightarrow> attempt option \<times> asio_client" where
  "attempt_begin X i n c =
     (let mx = ab_max_attempts (xc_builder c) in
      if mx \<noteq> None \<and> overflow_checks X \<and> i = 255 then (None, c\<lparr>xc_reader := ReaderDone\<rparr>)
      else let i = (if mx \<noteq> None then i + 1 else i) in
        if mx \<noteq> None \<and> the mx < i then (None, c\<lparr>xc_reader := Reading\<rparr>)
        else let c = c\<lparr>xc_reader := Reconnecting i n\<rparr> in
          (case ab_on_reconnect (xc_builder c) of
             Some h \<Rightarrow> (Some (AwaitCallback h), put_on_reconnect None c)
           | None \<Rightarrow> (Some CreateSocket, c)))"

text \<open>An attempt that failed: the next one is made after the delay of the back-off.\<close>

definition attempt_failed :: "ext \<Rightarrow> asio_state \<Rightarrow> attempt option \<times> asio_state" where
  "attempt_failed X = (\<lambda>(c, w). case xc_reader c of
     Reconnecting i n \<Rightarrow> (map_option (\<lambda>ms. BackOff ms (now w + ms)) (next_backoff X n),
       c\<lparr>xc_reader := Reconnecting i (n + 1)\<rparr>, w)
   | r \<Rightarrow> (None, c, w))"

text \<open>What comes of a call that was awaited; \<open>a\<close> is the attempt while it has not returned.\<close>

definition attempt_await ::
  "ext \<Rightarrow> attempt \<Rightarrow> (sio_error, 'a) outcome \<times> asio_state \<Rightarrow> ('a \<Rightarrow> asio_state \<Rightarrow> attempt option \<times> asio_state) \<Rightarrow>
   attempt option \<times> asio_state" where
  "attempt_await X a rcw k = (case rcw of
     (Ok v, cw) \<Rightarrow> k v cw
   | (Err e, cw) \<Rightarrow> attempt_failed X cw
   | (Panic, c, w) \<Rightarrow> (None, c\<lparr>xc_reader := ReaderDone\<rparr>, w)
   | (Hang, cw) \<Rightarrow> (Some a, cw))"

fun attempt_step ::
  "ext \<Rightarrow> (nat \<Rightarrow> callback \<Rightarrow> reconnect_settings) \<Rightarrow> attempt \<Rightarrow> asio_state \<Rightarrow> attempt option \<times> asio_state" where
  "attempt_step X R (AwaitCallback h) (c, w) =
     (Some (ApplySettings h (R (length (trace w)) h)), c, did (DidCall h ArgUnit) w)"
| "attempt_step X R (ApplySettings h r) (c, w) =
     (Some CreateSocket, put_on_reconnect (Some h) (apply_settings r c), w)"
| "attempt_step X R CreateSocket (c, w) =
     (case asio_inner_create X (xc_builder c) w of (r, w) \<Rightarrow>
        attempt_await X CreateSocket (r, c, w) (\<lambda>s cw. (Some (InstallSocket s), cw)))"
| "attempt_step X R (InstallSocket s) (c, w) = (Some OpenEngine, c\<lparr>xc_socket := s\<rparr>, w)"
| "attempt_step X R OpenEngine (c, w) =
     attempt_await X OpenEngine (on_asio (sio_async_connect X) (c, w)) (\<lambda>_ cw. (Some SendConnect, cw))"
| "attempt_step X R SendConnect (c, w) =
     (let auth = map_option (json_to_string (json X)) (xc_auth c);
          p = sio_packet_new Connect (xc_nsp c) auth None 0 None in
      attempt_await X SendConnect (on_asio (sio_async_send X p) (c, w)) (\<lambda>_ (c, w).
        (None, c\<lparr>xc_epoch := xc_epoch c + 1, xc_reader := Reading\<rparr>, w)))"
| "attempt_step X R (BackOff ms t) (c, w) =
     (if now w < t then (Some (BackOff ms t), c, w) else (None, c, did (DidSleep ms) w))"


subsection \<open>A disconnect, cut at its awaits\<close>

text \<open>
  Waiting for the lock of the reason; taking the handle of the reader and asking for its abort; for the
  aborted reader to end; for the disconnect packet; for the close of the engine, with the result of the
  packet; and at last the abort of the tasks.
\<close>

datatype teardown =
    SetReason
  | TakeReader
  | JoinReader
  | SendDisconnect
  | CloseEngine "sio_error + unit"
  | AbortTasks "sio_error + unit" "sio_error + unit"

definition teardown_result :: "sio_error + unit \<Rightarrow> sio_error + unit \<Rightarrow> (sio_error, unit) outcome" where
  "teardown_result send_result close_result = (case close_result of
     Inl e \<Rightarrow> Err e
   | Inr _ \<Rightarrow> (case send_result of
       Inl e \<Rightarrow> if e = SioIllegalActionBeforeOpen then Ok () else Err e
     | Inr _ \<Rightarrow> Ok ()))"

text \<open>\<open>fc_aborted\<close>: the abort of the reader has been asked for, and the reader has not ended yet.\<close>

record fine_client =
  fc_client :: asio_client
  fc_attempt :: "attempt option"
  fc_aborted :: bool
  fc_waiting :: nat
  fc_teardown :: "teardown option"
  fc_results :: "(sio_error, unit) outcome list"

type_synonym fine_state = "fine_client \<times> world"

text \<open>A call that has come back, as what it returned.\<close>

definition came_back :: "(sio_error, unit) outcome \<Rightarrow> (sio_error + unit) option" where
  "came_back r = (case r of Ok u \<Rightarrow> Some (Inr u) | Err e \<Rightarrow> Some (Inl e) | _ \<Rightarrow> None)"

fun teardown_step :: "ext \<Rightarrow> teardown \<Rightarrow> fine_state \<Rightarrow> fine_state" where
  "teardown_step X SetReason (f, w) =
     (f\<lparr>fc_client := (fc_client f)\<lparr>xc_reason := ReasonManual\<rparr>, fc_teardown := Some TakeReader\<rparr>, w)"
| "teardown_step X TakeReader (f, w) =
     (f\<lparr>fc_aborted := (xc_reader (fc_client f) \<noteq> NoReader), fc_teardown := Some JoinReader\<rparr>, w)"
| "teardown_step X JoinReader (f, w) = (f\<lparr>fc_teardown := Some SendDisconnect\<rparr>, w)"
| "teardown_step X SendDisconnect (f, w) =
     (let p = sio_packet_new Disconnect (xc_nsp (fc_client f)) None None 0 None in
      case sio_within_ms 1000 (SioIncompleteIo ''Socket.IO disconnect packet timed out'') w
             (on_asio (sio_async_send X p) (fc_client f, w)) of (r, c, w) \<Rightarrow>
        (f\<lparr>fc_client := c, fc_teardown := (case came_back r of Some s \<Rightarrow> Some (CloseEngine s)
            | None \<Rightarrow> Some SendDisconnect)\<rparr>, w))"
| "teardown_step X (CloseEngine s) (f, w) =
     (case on_asio (sio_async_disconnect X) (fc_client f, w) of (r, c, w) \<Rightarrow>
        (f\<lparr>fc_client := c, fc_teardown := (case came_back r of Some t \<Rightarrow> Some (AbortTasks s t)
            | None \<Rightarrow> Some (CloseEngine s))\<rparr>, w))"
| "teardown_step X (AbortTasks s t) (f, w) =
     (f\<lparr>fc_client := abort_dispatch True (fc_client f), fc_teardown := None,
        fc_results := fc_results f @ [teardown_result s t]\<rparr>, w)"


text \<open>\<open>reader.await\<close> is over when the reader is; an aborted reader ends at one of its awaits.\<close>

definition may_go_on :: "fine_client \<Rightarrow> teardown \<Rightarrow> bool" where
  "may_go_on f t \<longleftrightarrow> t = JoinReader \<longrightarrow> \<not> fc_aborted f"

definition end_reader :: "fine_client \<Rightarrow> fine_client" where
  "end_reader f = f\<lparr>fc_client := abort_reader (fc_client f), fc_attempt := None, fc_aborted := False\<rparr>"

subsection \<open>Interleaving\<close>

text \<open>
  Steps go from one await to the next. A rule may be taken when its guard holds and need not be: a
  part that waits, for a lock, for the network or for the runtime, is one whose rule is not taken yet, or
  never. An aborted reader may go on for as long as it likes before it ends, and only then the join of
  \<open>disconnect\<close> is over. The lock \<open>disconnect_operation\<close> is \<open>fc_teardown\<close>, with the callers that wait for it
  counted by \<open>fc_waiting\<close>; the write lock of the socket is taken by the reader alone and for one
  assignment, \<open>InstallSocket\<close>, so behind the join nothing holds up \<open>socket.read()\<close>.

  A callback that disconnects starts a disconnect and awaits it; it is one of the tasks that are
  aborted before it returns, so what comes after is never run and its task is left out.
\<close>

definition before_disconnect :: "user_action list \<Rightarrow> user_action list" where
  "before_disconnect us = takeWhile (\<lambda>u. u \<noteq> UserDisconnect) us"

inductive fine_step ::
  "ext \<Rightarrow> (nat \<Rightarrow> callback \<Rightarrow> reconnect_settings) \<Rightarrow> fine_state \<Rightarrow> fine_state \<Rightarrow> bool" for X R where
  start: "fc_client f = c \<Longrightarrow> i < length (xc_tasks c) \<Longrightarrow> dt_work (xc_tasks c ! i) = Todo j \<Longrightarrow>
    start_job X j c = (cs, c') \<Longrightarrow> fine_step X R (f, w) (f\<lparr>fc_client := set_work i (Calls cs) c'\<rparr>, w)"
| call_user: "fc_client f = c \<Longrightarrow> i < length (xc_tasks c) \<Longrightarrow>
    dt_work (xc_tasks c ! i) = Calls (CallUser h a # cs) \<Longrightarrow> us = user_code X (length (trace w)) h a \<Longrightarrow>
    asio_actions X (before_disconnect us) (set_work i (Calls cs) c, did (DidCall h a) w) = (c', w') \<Longrightarrow>
    fine_step X R (f, w)
      (if UserDisconnect \<in> set us then f\<lparr>fc_client := drop_task i c', fc_waiting := fc_waiting f + 1\<rparr>
       else f\<lparr>fc_client := c'\<rparr>, w')"
| call_ack: "fc_client f = c \<Longrightarrow> i < length (xc_tasks c) \<Longrightarrow>
    dt_work (xc_tasks c ! i) = Calls (CallAck k p # cs) \<Longrightarrow>
    fine_step X R (f, w) (f\<lparr>fc_client := set_work i (Calls (ack_calls X k p w @ cs)) c\<rparr>, w)"
| finish: "fc_client f = c \<Longrightarrow> i < length (xc_tasks c) \<Longrightarrow> dt_work (xc_tasks c ! i) = Calls [] \<Longrightarrow>
    fine_step X R (f, w) (f\<lparr>fc_client := drop_task i c\<rparr>, w)"
| user: "u \<noteq> UserDisconnect \<Longrightarrow> asio_actions X [u] (fc_client f, w) = (c', w') \<Longrightarrow>
    fine_step X R (f, w) (f\<lparr>fc_client := c'\<rparr>, w')"
| user_disconnect: "fine_step X R (f, w) (f\<lparr>fc_waiting := fc_waiting f + 1\<rparr>, w)"
| reader: "fc_attempt f = None \<Longrightarrow> (\<nexists>i n. xc_reader (fc_client f) = Reconnecting i n) \<Longrightarrow>
    asio_reader_step X R (xc_reader (fc_client f)) (fc_client f, w) = (c', w') \<Longrightarrow>
    fine_step X R (f, w) (f\<lparr>fc_client := c'\<rparr>, w')"
| attempt_begin: "fc_attempt f = None \<Longrightarrow> xc_reader (fc_client f) = Reconnecting i n \<Longrightarrow>
    attempt_begin X i n (fc_client f) = (a, c') \<Longrightarrow>
    fine_step X R (f, w) (f\<lparr>fc_client := c', fc_attempt := a\<rparr>, w)"
| attempt: "fc_attempt f = Some a \<Longrightarrow> attempt_step X R a (fc_client f, w) = (a', c', w') \<Longrightarrow>
    fine_step X R (f, w) (f\<lparr>fc_client := c', fc_attempt := a'\<rparr>, w')"
| lock: "fc_teardown f = None \<Longrightarrow> fc_waiting f = Suc k \<Longrightarrow>
    fine_step X R (f, w) (f\<lparr>fc_waiting := k, fc_teardown := Some SetReason\<rparr>, w)"
| teardown: "fc_teardown f = Some t \<Longrightarrow> may_go_on f t \<Longrightarrow> fine_step X R (f, w) (teardown_step X t (f, w))"
| reader_ends: "fc_aborted f \<Longrightarrow> fine_step X R (f, w) (end_reader f, w)"
| wait: "fine_step X R (f, w) (f, w\<lparr>now := now w + d\<rparr>)"

inductive_cases fine_stepE [consumes 1, case_names start call_user call_ack finish user user_disconnect
    reader attempt_begin attempt lock teardown reader_ends wait]: "fine_step X R (f, w) (f', w')"

definition fine_reaches ::
  "ext \<Rightarrow> (nat \<Rightarrow> callback \<Rightarrow> reconnect_settings) \<Rightarrow> fine_state \<Rightarrow> fine_state \<Rightarrow> bool" where
  "fine_reaches X R = (fine_step X R)\<^sup>*\<^sup>*"

text \<open>A client with no disconnect and no attempt under way; \<open>rs\<close> is what earlier disconnects returned.\<close>

definition at_rest :: "asio_client \<Rightarrow> (sio_error, unit) outcome list \<Rightarrow> fine_client" where
  "at_rest c rs = \<lparr>fc_client = c, fc_attempt = None, fc_aborted = False, fc_waiting = 0, fc_teardown = None, fc_results = rs\<rparr>"

lemma fine_reaches_step: "fine_step X R a b \<Longrightarrow> fine_reaches X R b c \<Longrightarrow> fine_reaches X R a c"
  unfolding fine_reaches_def by (rule converse_rtranclp_into_rtranclp)

lemma fine_reaches_refl [simp]: "fine_reaches X R a a"
  by (simp add: fine_reaches_def)

lemma fine_reaches_trans: "fine_reaches X R a b \<Longrightarrow> fine_reaches X R b c \<Longrightarrow> fine_reaches X R a c"
  unfolding fine_reaches_def by (rule rtranclp_trans)

lemma fine_reaches_one: "fine_step X R a b \<Longrightarrow> fine_reaches X R a b"
  by (auto simp: fine_reaches_def)

lemma attempt_reaches:
  assumes "fc_attempt f = Some a" and "attempt_step X R a (fc_client f, w) = (a', c', w')"
    and "f\<lparr>fc_client := c', fc_attempt := a'\<rparr> = f'" and "fine_reaches X R (f', w') g"
  shows "fine_reaches X R (f, w) g"
  using fine_reaches_step [OF fine_step.attempt [OF assms(1,2)]] assms(3,4) by blast

lemma fine_reaches_invariant:
  assumes "fine_reaches X R (f, w) (f', w')" and "I f" and "\<And>f w f' w'. fine_step X R (f, w) (f', w') \<Longrightarrow> I f \<Longrightarrow> I f'"
  shows "I f'"
proof -
  have "I (fst fw)" if "(fine_step X R)\<^sup>*\<^sup>* (f, w) fw" for fw
    using that
  proof (induction rule: rtranclp_induct)
    case (step y z)
    then show ?case using assms(3) [of "fst y" "snd y" "fst z" "snd z"] by simp
  qed (simp add: assms(2))
  from this [OF assms(1) [unfolded fine_reaches_def]] show ?thesis by simp
qed

subsection \<open>Calls that return, and a socket that is closed for good\<close>

lemma map_err_returned [simp]: "returned (map_err f r) = returned r"
  by (cases r) auto

lemma async_emit_finish_returned: "returned (fst (async_emit_finish X q (s, w)))"
  using async_transport.send_returned [of X "pe_transport q" "pe_data q" "pe_binary q" w]
  by (cases "async_transport_emit X (pe_transport q) (pe_data q) (pe_binary q) w";
      cases "fst (async_transport_emit X (pe_transport q) (pe_data q) (pe_binary q) w)")
     (auto simp: async_emit_finish_def)

lemma sio_async_send_returned:
  assumes "sio_packet_into_bytes (overflow_checks X) p = Ok b" and "attachments p = None"
  shows "returned (fst (sio_async_send X p (s, w)))"
proof -
  let ?ep = "eio_packet_new Message b" and ?s = "ac_socket (sa_engine s)"
  have "returned (fst (async_socket_emit X ?ep (?s, w)))"
    using async_emit_finish_returned [of X _ ?s w] by (cases "async_emit_begin X ?ep (?s, w)")
      (auto simp: async_socket_emit_def async_emit_begin_def Let_def split: option.splits if_splits)
  with assms(1,2) show ?thesis
    by (cases "async_socket_emit X ?ep (?s, w)"; cases "fst (async_socket_emit X ?ep (?s, w))")
      (auto simp: sio_async_send_def on_async_engine_def async_client_emit_def on_socket_def)
qed

lemma sio_async_disconnect_returned: "returned (fst (sio_async_disconnect X (s, w)))"
proof -
  have "returned (fst (async_disconnect_end X t (s, w)))" for t s w
    using async_transport.send_returned
    by (auto simp: async_disconnect_end_def within_ms_def Let_def case_prod_beta)
  then have "returned (fst (async_socket_disconnect X (s, w)))" for s w
    by (simp add: async_socket_disconnect_def async_disconnect_begin_def split: option.split)
  then show ?thesis
    by (auto simp: sio_async_disconnect_def on_async_engine_def async_client_disconnect_def on_socket_def
        case_prod_beta Let_def map_err_returned)
qed

text \<open>A client whose socket is closed for good.\<close>

definition retired :: "asio_client \<Rightarrow> bool" where
  "retired c \<longleftrightarrow> \<not> sa_connected (xc_socket c) \<and> as_transport (ac_socket (sa_engine (xc_socket c))) = None"

lemma retired_send:
  "retired c \<Longrightarrow> on_asio (sio_async_send X p) (c, w) = (Err SioIllegalActionBeforeOpen, c, w)"
  by (simp add: on_asio_def retired_def sio_async_send_closed sio_async_is_open_def)

lemma asio_emits_eq:
  "asio_emit X e d (c, w) = ques (new_from_payload (json X) d e (xc_nsp c) None, c, w)
     (\<lambda>p. on_asio (sio_async_send X p))"
  "asio_ack X d (c, w) = ques (ack_from_payload (json X) d (xc_nsp c) None, c, w)
     (\<lambda>p. on_asio (sio_async_send X p))"
  "asio_ack_with_id X i d (c, w) = ques (ack_from_payload (json X) d (xc_nsp c) (Some i), c, w)
     (\<lambda>p. on_asio (sio_async_send X p))"
  by (cases d; simp add: asio_emit_def asio_ack_def asio_ack_with_id_def on_asio_def sio_async_emit_def
      sio_async_ack_def Let_def split: prod.split)+

lemma retired_emits:
  assumes "retired c"
  shows "asio_emit X e d (c, w) = (Err SioIllegalActionBeforeOpen, c, w)"
    "asio_ack X d (c, w) = (Err SioIllegalActionBeforeOpen, c, w)"
    "asio_ack_with_id X i d (c, w) = (Err SioIllegalActionBeforeOpen, c, w)"
  using retired_send [OF assms] by (cases d; simp add: asio_emits_eq Let_def)+

lemma retired_emit_with_ack:
  assumes "retired c"
  shows "\<exists>as. asio_emit_with_ack X e d ms h (c, w) = (Err SioIllegalActionBeforeOpen, c\<lparr>xc_acks := as\<rparr>, w)"
proof -
  have "retired (c\<lparr>xc_acks := as\<rparr>)" for as using assms by (simp add: retired_def)
  from retired_send [OF this] show ?thesis
    by (cases d) (auto simp: asio_emit_with_ack_def Let_def)
qed

subsection \<open>What a step keeps\<close>

lemma before_disconnect_none [simp]: "UserDisconnect \<notin> set (before_disconnect us)"
  by (auto simp: before_disconnect_def dest: set_takeWhileD)

lemma before_disconnect_id: "UserDisconnect \<notin> set us \<Longrightarrow> before_disconnect us = us"
  by (auto simp: before_disconnect_def takeWhile_eq_all_conv)

lemma start_job_keeps:
  assumes "start_job X j c = (cs, c')"
  shows "xc_reader c' = xc_reader c" "xc_epoch c' = xc_epoch c" "retired c' = retired c"
    "xc_builder c' = xc_builder c" "xc_tasks c' = xc_tasks c"
  using assms by (cases j; force simp: asio_handle_ack_def retired_def split: option.splits)+

lemma on_asio_keeps:
  assumes "on_asio g (c, w) = (r, c', w')"
  shows "xc_reader c' = xc_reader c" "xc_epoch c' = xc_epoch c" "xc_builder c' = xc_builder c"
    "xc_tasks c' = xc_tasks c"
  using assms by (auto simp: on_asio_def split: prod.splits)

lemma asio_emits_keep:
  assumes "asio_actions X [u] (c, w) = (c', w')" and "u \<noteq> UserDisconnect"
  shows "xc_reader c' = xc_reader c \<and> xc_epoch c' = xc_epoch c \<and> xc_builder c' = xc_builder c \<and> xc_tasks c' = xc_tasks c"
proof (cases u)
  case (UserEmitWithAck e d ms h)
  with assms(1) show ?thesis
    by (cases d) (auto simp: asio_emit_with_ack_def Let_def on_asio_def split: prod.splits)
qed (use assms in \<open>auto simp: asio_emit_def asio_ack_def asio_ack_with_id_def on_asio_def split: prod.splits\<close>)

lemma asio_emits_retired:
  assumes "asio_actions X [u] (c, w) = (c', w')" and "u \<noteq> UserDisconnect" and "retired c"
  shows "retired c' \<and> w' = w"
proof (cases u)
  case (UserEmitWithAck e d ms h)
  with assms(1) retired_emit_with_ack [OF assms(3), of X e d ms h w] assms(3) show ?thesis
    by (auto simp: retired_def)
qed (use assms retired_emits [OF assms(3)] in auto)

lemma asio_actions_Cons:
  "u \<noteq> UserDisconnect \<Longrightarrow> asio_actions X (u # us) cw = asio_actions X us (asio_actions X [u] cw)"
  by (cases u) simp_all

lemma asio_actions_keep:
  assumes "asio_actions X us (c, w) = (c', w')" and "UserDisconnect \<notin> set us"
  shows "xc_reader c' = xc_reader c \<and> xc_epoch c' = xc_epoch c \<and> xc_builder c' = xc_builder c \<and> xc_tasks c' = xc_tasks c"
  using assms
proof (induction us arbitrary: c w)
  case (Cons u us)
  obtain c1 w1 where u: "asio_actions X [u] (c, w) = (c1, w1)" by (cases "asio_actions X [u] (c, w)")
  have ne: "u \<noteq> UserDisconnect" using Cons.prems(2) by auto
  with Cons.prems(1) u have "asio_actions X us (c1, w1) = (c', w')"
    using asio_actions_Cons [of u X us "(c, w)"] by simp
  with Cons.IH [of c1 w1] asio_emits_keep [OF u ne] Cons.prems show ?case by auto
qed simp

lemma asio_actions_retired:
  assumes "asio_actions X us (c, w) = (c', w')" and "UserDisconnect \<notin> set us" and "retired c"
  shows "retired c' \<and> w' = w"
  using assms
proof (induction us arbitrary: c w)
  case (Cons u us)
  obtain c1 w1 where u: "asio_actions X [u] (c, w) = (c1, w1)" by (cases "asio_actions X [u] (c, w)")
  have ne: "u \<noteq> UserDisconnect" using Cons.prems(2) by auto
  with Cons.prems(1) u have "asio_actions X us (c1, w1) = (c', w')"
    using asio_actions_Cons [of u X us "(c, w)"] by simp
  with Cons.IH [of c1 w1] asio_emits_retired [OF u ne] Cons.prems show ?case by auto
qed simp


subsection \<open>A disconnect on its own\<close>

lemma came_back_returned: "returned r \<Longrightarrow> \<exists>s. came_back r = Some s"
  by (cases r) (auto simp: came_back_def)

lemma disconnect_packet_returned:
  "returned (fst (sio_within_ms ms e w (on_asio (sio_async_send X (sio_packet_new Disconnect n None None 0 None)) (c, w'))))"
proof -
  obtain b where "sio_packet_into_bytes (overflow_checks X) (sio_packet_new Disconnect n None None 0 None) = Ok b"
    using disconnect_packet_bytes by blast
  from sio_async_send_returned [OF this, of "xc_socket c" w'] show ?thesis
    by (auto simp: sio_packet_new_def sio_within_ms_def on_asio_def split: prod.splits)
qed

text \<open>A disconnect run to its end with nothing in between but the end of the reader it waits for.\<close>

fun teardown_steps :: "nat \<Rightarrow> ext \<Rightarrow> fine_state \<Rightarrow> fine_state" where
  "teardown_steps 0 X fw = fw"
| "teardown_steps (Suc n) X fw = (case fc_teardown (fst fw) of
     None \<Rightarrow> fw
   | Some t \<Rightarrow> teardown_steps n X
       (if may_go_on (fst fw) t then teardown_step X t fw else (end_reader (fst fw), snd fw)))"

lemma teardown_steps_reach: "fine_reaches X R fw (teardown_steps n X fw)"
proof (induction n arbitrary: fw)
  case (Suc n)
  show ?case
  proof (cases "fc_teardown (fst fw)")
    case (Some t)
    then have "fine_step X R fw (if may_go_on (fst fw) t then teardown_step X t fw else (end_reader (fst fw), snd fw))"
      by (cases fw) (auto intro: fine_step.teardown fine_step.reader_ends simp: may_go_on_def)
    from fine_reaches_step [OF this Suc] Some show ?thesis by simp
  qed simp
qed simp

lemma disconnect_parts:
  obtains r1 c1 w1 r2 c2 w2 u v where
    "sio_within_ms 1000 (SioIncompleteIo ''Socket.IO disconnect packet timed out'') w
       (on_asio (sio_async_send X (sio_packet_new Disconnect (xc_nsp c) None None 0 None)) (c, w)) = (r1, c1, w1)"
    and "on_asio (sio_async_disconnect X) (c1, w1) = (r2, c2, w2)" and "came_back r1 = Some u" and "came_back r2 = Some v"
proof -
  obtain r1 c1 w1 where s: "sio_within_ms 1000 (SioIncompleteIo ''Socket.IO disconnect packet timed out'') w
      (on_asio (sio_async_send X (sio_packet_new Disconnect (xc_nsp c) None None 0 None)) (c, w)) = (r1, c1, w1)"
    by (metis surj_pair)
  moreover obtain r2 c2 w2 where d: "on_asio (sio_async_disconnect X) (c1, w1) = (r2, c2, w2)" by (metis surj_pair)
  moreover have "returned r1" using s disconnect_packet_returned by (metis fst_conv)
  moreover have "returned r2"
    using d sio_async_disconnect_returned [of X "xc_socket c1" w1] by (auto simp: on_asio_def split: prod.splits)
  ultimately show thesis using that came_back_returned by metis
qed

lemma disconnect_eq:
  assumes "abort_reader (c\<lparr>xc_reason := ReasonManual\<rparr>) = c0"
    and "sio_within_ms 1000 (SioIncompleteIo ''Socket.IO disconnect packet timed out'') w
       (on_asio (sio_async_send X (sio_packet_new Disconnect (xc_nsp c0) None None 0 None)) (c0, w)) = (r1, c1, w1)"
    and "on_asio (sio_async_disconnect X) (c1, w1) = (r2, c2, w2)" and "came_back r1 = Some u" and "came_back r2 = Some v"
  shows "asio_disconnect X (c, w) = (teardown_result u v, abort_dispatch True c2, w2)"
  using assms(2-5) by (cases r1; cases r2) (auto simp: asio_disconnect_def assms(1) Let_def came_back_def teardown_result_def)

lemma sio_async_disconnect_now: "now (snd (snd (sio_async_disconnect X (s, w)))) \<le> now w + 1000"
proof -
  have "now (snd (snd (async_disconnect_end X t (e, w)))) \<le> now w + 1000" for t e
    by (simp add: async_disconnect_end_def within_ms_def Let_def case_prod_beta)
  then have "now (snd (snd (async_socket_disconnect X (e, w)))) \<le> now w + 1000" for e
    by (simp add: async_socket_disconnect_def async_disconnect_begin_def split: option.split)
  then show ?thesis
    by (simp add: sio_async_disconnect_def on_async_engine_def async_client_disconnect_def on_socket_def
        case_prod_beta Let_def)
qed

text \<open>
  C21. A disconnect of the asynchronous client is over within two seconds, one for the Disconnect packet
  and one for the engine's Close packet, however long the network takes to accept either and whatever
  it answers; then no task and no reader is left, and every later \<open>emit\<close> is refused.
\<close>

theorem asio_disconnect_prompt:
  "case asio_disconnect X (c, w) of (r, c', w') \<Rightarrow>
     returned r \<and> now w' \<le> now w + 2000 \<and> xc_tasks c' = [] \<and> xc_reader c' = NoReader \<and>
     asio_emit X e d (c', w') = (Err SioIllegalActionBeforeOpen, c', w')"
proof -
  obtain c0 where c0: "abort_reader (c\<lparr>xc_reason := ReasonManual\<rparr>) = c0" by blast
  obtain r1 c1 w1 r2 c2 w2 u v where parts:
    "sio_within_ms 1000 (SioIncompleteIo ''Socket.IO disconnect packet timed out'') w
       (on_asio (sio_async_send X (sio_packet_new Disconnect (xc_nsp c0) None None 0 None)) (c0, w)) = (r1, c1, w1)"
    "on_asio (sio_async_disconnect X) (c1, w1) = (r2, c2, w2)" "came_back r1 = Some u" "came_back r2 = Some v"
    by (rule disconnect_parts)
  note eq = disconnect_eq [OF c0 parts]
  have "now w1 \<le> now w + 1000"
    using parts(1) by (auto simp: sio_within_ms_def split: prod.splits if_splits)
  moreover have "now w2 \<le> now w1 + 1000"
    using parts(2) sio_async_disconnect_now [of X "xc_socket c1" w1] by (auto simp: on_asio_def split: prod.splits)
  moreover have "retired c2"
    using parts(2) sio_async_disconnect_frame [of X "xc_socket c1" w1]
    by (auto simp: on_asio_def retired_def split: prod.splits)
  then have "asio_emit X e d (abort_dispatch True c2, w2) = (Err SioIllegalActionBeforeOpen, abort_dispatch True c2, w2)"
    by (intro retired_emits) (simp add: retired_def abort_dispatch_def)
  moreover have "xc_reader c2 = NoReader"
    using parts(1,2) c0 by (auto simp: on_asio_def sio_within_ms_def abort_reader_def Let_def split: prod.splits if_splits)
  moreover have "returned (teardown_result u v)" by (auto simp: teardown_result_def split: sum.split)
  ultimately show ?thesis by (simp add: eq abort_dispatch_def)
qed

lemma disconnect_run:
  assumes "asio_disconnect X (c, w) = (r, c', w')" and "fc_client f = c" and "fc_waiting f = Suc k"
    and "fc_teardown f = None" and "\<not> fc_aborted f" and "xc_reader c = NoReader \<longrightarrow> fc_attempt f = None"
  shows "fine_reaches X R (f, w)
    (f\<lparr>fc_client := c', fc_attempt := None, fc_waiting := k, fc_results := fc_results f @ [r]\<rparr>, w')"
proof -
  let ?f = "f\<lparr>fc_waiting := k, fc_teardown := Some SetReason\<rparr>"
  obtain r1 c1 w1 r2 c2 w2 u v where parts:
    "sio_within_ms 1000 (SioIncompleteIo ''Socket.IO disconnect packet timed out'') w
       (on_asio (sio_async_send X (sio_packet_new Disconnect (xc_nsp (abort_reader (c\<lparr>xc_reason := ReasonManual\<rparr>)))
         None None 0 None)) (abort_reader (c\<lparr>xc_reason := ReasonManual\<rparr>), w)) = (r1, c1, w1)"
    "on_asio (sio_async_disconnect X) (c1, w1) = (r2, c2, w2)" "came_back r1 = Some u" "came_back r2 = Some v"
    by (rule disconnect_parts)
  have "teardown_steps 7 X (?f, w) =
      (f\<lparr>fc_client := c', fc_attempt := None, fc_waiting := k, fc_results := fc_results f @ [r]\<rparr>, w')"
  proof (cases "xc_reader c = NoReader")
    case True
    then have "abort_reader (c\<lparr>xc_reason := ReasonManual\<rparr>) = c\<lparr>xc_reason := ReasonManual\<rparr>" by (simp add: abort_reader_def)
    with True parts assms disconnect_eq [OF refl parts] show ?thesis
      by (cases f) (simp add: eval_nat_numeral may_go_on_def)
  next
    case False
    with parts assms disconnect_eq [OF refl parts] show ?thesis
      by (cases f) (simp add: eval_nat_numeral may_go_on_def end_reader_def)
  qed
  with teardown_steps_reach [of X R "(?f, w)" 7] fine_step.lock [OF assms(4,3), of X R w] show ?thesis
    by (metis fine_reaches_step)
qed

definition demo_torn :: asio_client where
  "demo_torn = (demo_asio [] Map.empty [\<lparr>dt_work = Todo (JobClose ''x'' 1), dt_terminal = True\<rparr>])\<lparr>
     xc_reader := Reconnecting 0 0, xc_builder := (asio_builder_new ''bad'')\<lparr>ab_on_reconnect := Some 7\<rparr>\<rparr>"

text \<open>Its reader waits for the callback.\<close>

definition demo_waiting :: fine_client where
  "demo_waiting = (at_rest (put_on_reconnect None demo_torn) [])\<lparr>fc_attempt := Some (AwaitCallback 7)\<rparr>"

lemma demo_waits: "fine_reaches demo_ext R (at_rest demo_torn [], w) (demo_waiting, w)"
proof -
  have "attempt_begin demo_ext 0 0 demo_torn = (Some (AwaitCallback 7), put_on_reconnect None demo_torn)"
    by (simp add: attempt_begin_def demo_torn_def put_on_reconnect_def asio_builder_new_def)
  from fine_reaches_one [OF fine_step.attempt_begin [where f = "at_rest demo_torn []" and i = 0 and n = 0]] this
  show ?thesis by (simp add: at_rest_def demo_waiting_def demo_torn_def)
qed

subsection \<open>After a disconnect\<close>

text \<open>
  The phases of a disconnect: the reader is joined and no attempt under way; then the socket is
  closed for good; then no task is left.
\<close>

definition fenced :: "fine_client \<Rightarrow> bool" where
  "fenced f \<longleftrightarrow> xc_reader (fc_client f) = NoReader \<and> fc_attempt f = None \<and> \<not> fc_aborted f"

definition silent :: "fine_client \<Rightarrow> bool" where
  "silent f \<longleftrightarrow> xc_tasks (fc_client f) = [] \<and> retired (fc_client f) \<and> fenced f"

definition phase_ok :: "fine_client \<Rightarrow> bool" where
  "phase_ok f \<longleftrightarrow>
     (case fc_teardown f of
        Some JoinReader \<Rightarrow> fc_aborted f \<or> fenced f
      | Some SendDisconnect \<Rightarrow> fenced f
      | Some (CloseEngine s) \<Rightarrow> fenced f
      | Some (AbortTasks s t) \<Rightarrow> fenced f \<and> retired (fc_client f)
      | _ \<Rightarrow> True)"

definition teardown_invariant :: "fine_client \<Rightarrow> bool" where
  "teardown_invariant f \<longleftrightarrow> (fc_results f \<noteq> [] \<longrightarrow> silent f) \<and>
     (xc_reader (fc_client f) = NoReader \<longrightarrow> fc_attempt f = None) \<and> phase_ok f"

text \<open>Every step but those of a disconnect keeps what the disconnects rely on.\<close>

lemma fine_step_fenced:
  assumes "fine_step X R (f, w) (f', w')" and "fenced f" 
  shows "fenced f'"
  using assms(1)
proof (cases rule: fine_stepE)
  case (start i j cs c')
  with assms(2) start_job_keeps [OF start(3)] show ?thesis by (simp add: fenced_def set_work_def)
next
  case (call_user i h a cs c')
  with assms(2) asio_actions_keep [OF call_user(4)] show ?thesis
    by (simp add: fenced_def set_work_def drop_task_def)
next
  case (user u c')
  with assms(2) asio_emits_keep [OF user(3)] show ?thesis by (simp add: fenced_def)
next
  case (teardown t)
  with assms(2) show ?thesis
    by (cases t) (auto simp: fenced_def abort_reader_def abort_dispatch_def Let_def on_asio_def sio_within_ms_def split: prod.splits if_splits)
qed (use assms(2) in \<open>auto simp: fenced_def set_work_def drop_task_def\<close>)


lemma apply_settings_keeps [simp]:
  "ab_on_reconnect (xc_builder (apply_settings r c)) = ab_on_reconnect (xc_builder c)"
  "xc_reader (apply_settings r c) = xc_reader c" "xc_tasks (apply_settings r c) = xc_tasks c"
  by (auto simp: apply_settings_def Let_def split: option.split)

lemma put_on_reconnect_simps [simp]:
  "ab_on_reconnect (xc_builder (put_on_reconnect h c)) = h" "xc_reader (put_on_reconnect h c) = xc_reader c"
  by (simp_all add: put_on_reconnect_def)

lemma attempt_step_reader:
  assumes "attempt_step X R a (c, w) = (a', c', w')" and "xc_reader c \<noteq> NoReader"
  shows "xc_reader c' \<noteq> NoReader"
  using assms by (cases a) (auto simp: attempt_await_def attempt_failed_def on_asio_def Let_def
      split: prod.splits outcome.splits reader.splits if_splits)

text \<open>Only a reader that is there makes an attempt.\<close>

lemma fine_step_attempts:
  assumes "fine_step X R (f, w) (f', w')" and "xc_reader (fc_client f) = NoReader \<longrightarrow> fc_attempt f = None"
  shows "xc_reader (fc_client f') = NoReader \<longrightarrow> fc_attempt f' = None"
  using assms(1)
proof (cases rule: fine_stepE)
  case (start i j cs c')
  with assms(2) start_job_keeps [OF start(3)] show ?thesis by (simp add: set_work_def)
next
  case (call_user i h a cs c')
  with assms(2) asio_actions_keep [OF call_user(4)] show ?thesis by (simp add: set_work_def drop_task_def)
next
  case (user u c')
  with assms(2) asio_emits_keep [OF user(3)] show ?thesis by simp
next
  case (attempt_begin i n a c')
  then show ?thesis by (auto simp: attempt_begin_def put_on_reconnect_def Let_def split: if_splits option.splits)
next
  case (attempt a a' c')
  with assms(2) attempt_step_reader [OF attempt(3)] show ?thesis by auto
next
  case (teardown t)
  with assms(2) show ?thesis
    by (cases t) (auto simp: abort_dispatch_def Let_def on_asio_def sio_within_ms_def split: prod.splits if_splits)
qed (use assms(2) in \<open>auto simp: end_reader_def set_work_def drop_task_def\<close>)

lemma fine_step_aborted:
  assumes "fine_step X R (f, w) (f', w')" and "fc_teardown f = Some JoinReader" and "fc_aborted f"
  shows "fc_aborted f' \<or> fenced f'"
  using assms(1)
  by (cases rule: fine_stepE) (use assms(2,3) in \<open>auto simp: may_go_on_def fenced_def end_reader_def abort_reader_def Let_def\<close>)

lemma fine_step_retired:
  assumes "fine_step X R (f, w) (f', w')" and "fenced f" and "retired (fc_client f)"
  shows "retired (fc_client f')"
  using assms(1)
proof (cases rule: fine_stepE)
  case (start i j cs c')
  with assms(3) start_job_keeps [OF start(3)] show ?thesis by (simp add: retired_def set_work_def)
next
  case (call_user i h a cs c')
  have "retired (set_work i (Calls cs) (fc_client f))" using assms(3) by (simp add: retired_def set_work_def)
  from asio_actions_retired [OF call_user(4) _ this] call_user(1) show ?thesis
    by (simp add: retired_def drop_task_def)
next
  case (user u c')
  with assms(3) asio_emits_retired [OF user(3)] show ?thesis by simp
next
  case (teardown t)
  show ?thesis
  proof (cases t)
    case SendDisconnect
    with teardown assms(3) retired_send [OF assms(3)] show ?thesis by (auto simp: sio_within_ms_def)
  next
    case (CloseEngine s)
    with teardown sio_async_disconnect_frame [of X] show ?thesis
      by (auto simp: on_asio_def retired_def split: prod.splits)
  qed (use teardown assms(3) in \<open>auto simp: retired_def abort_reader_def reader_state_drop_def abort_dispatch_def Let_def\<close>)
qed (use assms(2,3) in \<open>auto simp: fenced_def retired_def set_work_def drop_task_def\<close>)

lemma retired_disconnect:
  assumes "retired c"
  shows "\<exists>s. on_asio (sio_async_disconnect X) (c, w) = (Ok (), c\<lparr>xc_socket := s\<rparr>, w) \<and> retired (c\<lparr>xc_socket := s\<rparr>)"
proof -
  have "\<exists>s. sio_async_disconnect X (xc_socket c, w) = (Ok (), s, w)"
    using assms by (simp add: retired_def sio_async_disconnect_def on_async_engine_def async_client_disconnect_def
        on_socket_def async_socket_disconnect_def async_disconnect_begin_def sio_generator_close_def)
  then obtain s where s: "sio_async_disconnect X (xc_socket c, w) = (Ok (), s, w)" ..
  with sio_async_disconnect_frame [OF s] show ?thesis by (auto simp: on_asio_def retired_def)
qed

lemma fine_step_silent:
  assumes "fine_step X R (f, w) (f', w')" and "silent f"
  shows "silent f' \<and> trace w' = trace w \<and> xc_epoch (fc_client f') = xc_epoch (fc_client f)"
proof -
  have f: "xc_tasks (fc_client f) = []" "retired (fc_client f)" "fenced f"
    using assms(2) by (simp_all add: silent_def fenced_def)
  have f': "fenced f'" "retired (fc_client f')"
    using fine_step_fenced [OF assms(1) f(3)] fine_step_retired [OF assms(1) f(3,2)] by auto
  have "xc_tasks (fc_client f') = [] \<and> trace w' = trace w \<and> xc_epoch (fc_client f') = xc_epoch (fc_client f)"
    using assms(1)
  proof (cases rule: fine_stepE)
    case (user u c')
    with f asio_emits_keep [OF user(3)] asio_emits_retired [OF user(3)] show ?thesis by simp
  next
    case (teardown t)
    show ?thesis
    proof (cases t)
      case SendDisconnect
      with teardown f retired_send [OF f(2)] show ?thesis by (auto simp: sio_within_ms_def)
    next
      case (CloseEngine s)
      with teardown f retired_disconnect [OF f(2), of X w] show ?thesis by (auto simp: came_back_def)
    qed (use teardown f in \<open>auto simp: abort_reader_def reader_state_drop_def abort_dispatch_def Let_def\<close>)
  qed (use f in \<open>auto simp: fenced_def\<close>)
  with f' show ?thesis by (simp add: silent_def fenced_def)
qed

lemma phase_ok_kept:
  assumes "fine_step X R (f, w) (f', w')" and "phase_ok f" and "fc_teardown f' = fc_teardown f"
  shows "phase_ok f'"
  using assms(2,3) fine_step_fenced [OF assms(1)] fine_step_retired [OF assms(1)] fine_step_aborted [OF assms(1)]
  by (cases "fc_teardown f"; cases "the (fc_teardown f)") (auto simp: phase_ok_def)

lemma phase_ok_teardown:
  assumes "fc_teardown f = Some t" and "may_go_on f t" and "phase_ok f" and "teardown_step X t (f, w) = (f', w')"
    and "xc_reader (fc_client f) = NoReader \<longrightarrow> fc_attempt f = None" and "fenced f \<longrightarrow> fenced f'"
  shows "phase_ok f' \<and> (fc_results f' \<noteq> fc_results f \<longrightarrow> silent f')"
proof (cases t)
  case SendDisconnect
  with assms show ?thesis by (auto simp: phase_ok_def split: prod.splits option.splits)
next
  case (CloseEngine s)
  with assms sio_async_disconnect_frame [of X "xc_socket (fc_client f)" w] show ?thesis
    by (auto simp: phase_ok_def on_asio_def retired_def split: prod.splits option.splits)
next
  case (AbortTasks s t')
  with assms show ?thesis by (auto simp: phase_ok_def silent_def fenced_def abort_dispatch_def retired_def)
qed (use assms in \<open>auto simp: phase_ok_def fenced_def may_go_on_def\<close>)

lemma fine_step_teardown_invariant:
  assumes "fine_step X R (f, w) (f', w')" and "teardown_invariant f"
  shows "teardown_invariant f'"
proof (cases "fc_results f = []")
  case False
  then have "silent f" using assms(2) by (simp add: teardown_invariant_def)
  then have "silent f'" using fine_step_silent [OF assms(1)] by simp
  then show ?thesis
    by (auto simp: teardown_invariant_def phase_ok_def silent_def fenced_def split: option.split teardown.split)
next
  case True
  from assms(2) have inv: "phase_ok f" "xc_reader (fc_client f) = NoReader \<longrightarrow> fc_attempt f = None"
    by (simp_all add: teardown_invariant_def)
  have attempts: "xc_reader (fc_client f') = NoReader \<longrightarrow> fc_attempt f' = None"
    by (rule fine_step_attempts [OF assms(1) inv(2)])
  have fenced: "fenced f \<longrightarrow> fenced f'" using fine_step_fenced [OF assms(1)] by blast
  have "phase_ok f' \<and> (fc_results f' \<noteq> fc_results f \<longrightarrow> silent f')"
    using assms(1)
  proof (cases rule: fine_stepE)
    case (lock k)
    then show ?thesis by (simp add: phase_ok_def)
  next
    case (teardown t)
    from phase_ok_teardown [OF teardown(2,3) inv(1) teardown(1) [symmetric] inv(2) fenced] show ?thesis .
  qed (use phase_ok_kept [OF assms(1) inv(1)] in \<open>auto simp: end_reader_def\<close>)
  with True attempts show ?thesis by (auto simp: teardown_invariant_def)
qed

lemma fine_reaches_silent:
  assumes "fine_reaches X R (f, w) (f', w')" and "silent f"
  shows "silent f' \<and> trace w' = trace w \<and> xc_epoch (fc_client f') = xc_epoch (fc_client f)"
proof -
  have "silent (fst fw) \<and> trace (snd fw) = trace w \<and> xc_epoch (fc_client (fst fw)) = xc_epoch (fc_client f)"
    if "(fine_step X R)\<^sup>*\<^sup>* (f, w) fw" for fw
    using that
  proof (induction rule: rtranclp_induct)
    case (step y z)
    then show ?case using fine_step_silent [of X R "fst y" "snd y" "fst z" "snd z"] by simp
  qed (simp add: assms(2))
  from this [OF assms(1) [unfolded fine_reaches_def]] show ?thesis by simp
qed

text \<open>
  C4. After a disconnect has returned, the client is silent for good, whatever the reader and the
  tasks were doing while it ran: no callback runs, nothing is sent, no attempt to reconnect is
  left, no task, and no session begins; an emit is refused. (A task that is aborted while its code runs
  between two awaits counts as aborted behind that piece.)
\<close>

theorem disconnect_silences:
  assumes "fine_reaches X R (at_rest c [], w) (f1, w1)" and "fc_results f1 \<noteq> []"
    and "fine_reaches X R (f1, w1) (f2, w2)"
  shows "trace w2 = trace w1 \<and> xc_tasks (fc_client f2) = [] \<and> fc_attempt f2 = None \<and>
    asio_session_epoch (fc_client f2) = asio_session_epoch (fc_client f1) \<and>
    asio_emit X e d (fc_client f2, w2) = (Err SioIllegalActionBeforeOpen, fc_client f2, w2)"
proof -
  have "teardown_invariant f1"
    by (rule fine_reaches_invariant [OF assms(1)])
      (use fine_step_teardown_invariant in \<open>auto simp: teardown_invariant_def phase_ok_def at_rest_def\<close>)
  with assms(2) have "silent f1" by (simp add: teardown_invariant_def)
  from fine_reaches_silent [OF assms(3) this] show ?thesis
    by (simp add: silent_def fenced_def retired_emits asio_session_epoch_def)
qed

theorem disconnect_silences_witness:
  "\<exists>f w f2 w2. fine_reaches demo_ext (\<lambda>n h. reconnect_settings_new) (at_rest demo_torn [], demo_world) (f, w) \<and>
     fc_results f \<noteq> [] \<and> fine_reaches demo_ext (\<lambda>n h. reconnect_settings_new) (f, w) (f2, w2) \<and> now w2 = now w + 5 \<and>
     trace w2 = trace w \<and> xc_tasks (fc_client f2) = [] \<and> fc_attempt f2 = None"
proof -
  let ?R = "\<lambda>n h. reconnect_settings_new"
  obtain r c' w' where d: "asio_disconnect demo_ext (fc_client demo_waiting, demo_world) = (r, c', w')" by (metis surj_pair)
  let ?f = "demo_waiting\<lparr>fc_client := c', fc_attempt := None, fc_waiting := 0, fc_results := [r]\<rparr>"
  have "fine_reaches demo_ext ?R (demo_waiting\<lparr>fc_waiting := Suc 0\<rparr>, demo_world) (?f, w')"
    using disconnect_run [of demo_ext "fc_client demo_waiting" demo_world r c' w' "demo_waiting\<lparr>fc_waiting := 1\<rparr>" 0] d
    by (simp add: demo_waiting_def at_rest_def demo_torn_def)
  moreover have "fine_step demo_ext ?R (demo_waiting, demo_world) (demo_waiting\<lparr>fc_waiting := Suc 0\<rparr>, demo_world)"
    using fine_step.user_disconnect [of demo_ext ?R demo_waiting demo_world] by (simp add: demo_waiting_def at_rest_def)
  ultimately have run: "fine_reaches demo_ext ?R (at_rest demo_torn [], demo_world) (?f, w')"
    using demo_waits fine_reaches_step fine_reaches_trans by metis
  have "fine_reaches demo_ext ?R (?f, w') (?f, w'\<lparr>now := now w' + 5\<rparr>)" by (rule fine_reaches_one [OF fine_step.wait])
  from disconnect_silences [OF run _ this] run this show ?thesis
    by (intro exI [of _ ?f] exI [of _ w'] exI [of _ "w'\<lparr>now := now w' + 5\<rparr>"]) simp
qed

subsection \<open>The callback of a reconnect is not lost\<close>

definition keeps_reconnect :: "callback \<Rightarrow> attempt option \<Rightarrow> asio_client \<Rightarrow> bool" where
  "keeps_reconnect h a c \<longleftrightarrow> (case a of
     Some (AwaitCallback g) \<Rightarrow> g = h
   | Some (ApplySettings g r) \<Rightarrow> g = h
   | _ \<Rightarrow> ab_on_reconnect (xc_builder c) = Some h)"

lemma asio_handle_packet_builder [simp]:
  "xc_builder (asio_handle_socketio_packet X p c) = xc_builder c"
  by (auto simp: asio_handle_socketio_packet_def spawn_dispatch_def abort_dispatch_def Let_def split: sio_packet_id.split)

lemma asio_reader_step_builder:
  assumes "asio_reader_step X R r (c, w) = (c', w')" and "\<nexists>i n. r = Reconnecting i n"
  shows "xc_builder c' = xc_builder c"
  using assms by (cases r) (auto simp: asio_stream_next_def on_asio_def end_stream_def reader_state_drop_def
      abort_dispatch_def spawn_dispatch_def asio_after_stream_def Let_def split: prod.splits outcome.splits option.splits if_splits disconnect_reason.splits)

lemma attempt_begin_keeps:
  assumes "attempt_begin X i n c = (a, c')"
  shows "keeps_reconnect h a c' \<longleftrightarrow> ab_on_reconnect (xc_builder c) = Some h"
  using assms by (auto simp: attempt_begin_def keeps_reconnect_def Let_def split: if_splits option.splits)

lemma attempt_step_keeps:
  assumes "attempt_step X R a (c, w) = (a', c', w')" and "keeps_reconnect h (Some a) c"
  shows "keeps_reconnect h a' c'"
  using assms
  by (cases a) (auto simp: keeps_reconnect_def attempt_await_def attempt_failed_def on_asio_def Let_def
      split: prod.splits outcome.splits reader.splits option.splits if_splits)

text \<open>The reader of a client, once joined, stays so; until then the callback is kept.\<close>

definition reconnect_invariant :: "callback \<Rightarrow> fine_client \<Rightarrow> bool" where
  "reconnect_invariant h f \<longleftrightarrow> (if xc_reader (fc_client f) = NoReader then fc_attempt f = None else keeps_reconnect h (fc_attempt f) (fc_client f))"

lemma reconnect_invariant_client:
  assumes "xc_reader c' = xc_reader (fc_client f)" and "xc_builder c' = xc_builder (fc_client f)"
  shows "reconnect_invariant h (f\<lparr>fc_client := c'\<rparr>) = reconnect_invariant h f"
  using assms by (simp add: reconnect_invariant_def keeps_reconnect_def split: option.split attempt.split)

lemma reconnect_invariant_teardown [simp]:
  "reconnect_invariant h (f\<lparr>fc_teardown := t\<rparr>) = reconnect_invariant h f"
  "reconnect_invariant h (f\<lparr>fc_waiting := n\<rparr>) = reconnect_invariant h f"
  "reconnect_invariant h (f\<lparr>fc_results := rs\<rparr>) = reconnect_invariant h f"
  "reconnect_invariant h (f\<lparr>fc_aborted := b\<rparr>) = reconnect_invariant h f"
  by (simp_all add: reconnect_invariant_def keeps_reconnect_def split: option.split attempt.split)

lemma fine_step_reconnect_invariant:
  assumes "fine_step X R (f, w) (f', w')" and "reconnect_invariant h f"
  shows "reconnect_invariant h f'"
  using assms(1)
proof (cases rule: fine_stepE)
  case (start i j cs c')
  with assms(2) start_job_keeps [OF start(3)] show ?thesis
    by (simp add: reconnect_invariant_client set_work_def)
next
  case (call_user i h' a cs c')
  with assms(2) asio_actions_keep [OF call_user(4)] show ?thesis
    by (simp add: reconnect_invariant_client set_work_def drop_task_def)
next
  case (user u c')
  with assms(2) asio_emits_keep [OF user(3)] show ?thesis by (simp add: reconnect_invariant_client)
next
  case (reader c')
  show ?thesis
  proof (cases "xc_reader (fc_client f) = NoReader")
    case True
    with reader assms(2) show ?thesis by (simp add: reconnect_invariant_def)
  next
    case False
    with reader(2,3) assms(2) asio_reader_step_builder [OF reader(4)] show ?thesis
      by (simp add: reader(1) reconnect_invariant_def keeps_reconnect_def)
  qed
next
  case (attempt_begin i n a c')
  with assms(2) attempt_begin_keeps [OF attempt_begin(3), of h] show ?thesis
    by (auto simp: reconnect_invariant_def keeps_reconnect_def attempt_begin_def Let_def split: if_splits option.splits)
next
  case (attempt a a' c')
  have "xc_reader (fc_client f) \<noteq> NoReader" using attempt(2) assms(2) by (auto simp: reconnect_invariant_def split: if_splits)
  with attempt assms(2) attempt_step_keeps [OF attempt(3), of h] attempt_step_reader [OF attempt(3)]
  show ?thesis by (simp add: reconnect_invariant_def)
next
  case reader_ends
  then show ?thesis by (simp add: reconnect_invariant_def end_reader_def abort_reader_def Let_def)
next
  case (teardown t)
  show ?thesis
  proof (cases t)
    case SendDisconnect
    with teardown assms(2) show ?thesis
      by (auto simp: sio_within_ms_def on_asio_def reconnect_invariant_client split: prod.splits if_splits)
  next
    case (CloseEngine s)
    with teardown assms(2) show ?thesis by (auto simp: on_asio_def reconnect_invariant_client split: prod.splits)
  qed (use teardown assms(2) in \<open>simp_all add: reconnect_invariant_client abort_dispatch_def\<close>)
qed (use assms(2) in \<open>simp_all add: reconnect_invariant_client set_work_def drop_task_def\<close>)

text \<open>
  C13. The \<open>on_reconnect\<close> callback, which an attempt to reconnect takes out of the builder to await it
  without the lock, is not lost: until a disconnect has joined the reader it is in the builder or in
  the attempt that will put it back, in every interleaving.
\<close>

theorem reconnect_callback_kept:
  assumes "fine_reaches X R (at_rest c [], w) (f, w')" and "ab_on_reconnect (xc_builder c) = Some h"
    and "xc_reader (fc_client f) \<noteq> NoReader"
  shows "keeps_reconnect h (fc_attempt f) (fc_client f)"
proof -
  have "reconnect_invariant h (at_rest c [])"
    using assms(2) by (simp add: reconnect_invariant_def keeps_reconnect_def at_rest_def)
  from fine_reaches_invariant [where I = "reconnect_invariant h", OF assms(1) this fine_step_reconnect_invariant]
  have "reconnect_invariant h f" .
  with assms(3) show ?thesis by (simp add: reconnect_invariant_def)
qed

theorem reconnect_callback_kept_witness:
  "keeps_reconnect 7 (fc_attempt demo_waiting) (fc_client demo_waiting) \<and> ab_on_reconnect (xc_builder (fc_client demo_waiting)) = None"
  using reconnect_callback_kept [OF demo_waits, of 7] by (simp add: demo_waiting_def at_rest_def demo_torn_def put_on_reconnect_def)

subsection \<open>Events before the connect packet\<close>

text \<open>
  A text packet that \<open>sio_async_send\<close> sends over a websocket is one frame.
\<close>

lemma async_ws_emit_text:
  "async_ws_emit X t d False w = (Ok (), w') \<Longrightarrow> sent w' = sent w @ [DidSend (ws_conn t) (WsText d)]"
  by (cases "snd (net_send X (send_count w) (WsText d))")
    (auto simp: async_ws_emit_def ws_general_emit_def from_utf8_def ws_send_def sent_def split: if_splits prod.splits)

lemma sio_async_send_text:
  assumes "as_transport (ac_socket (sa_engine s)) = Some (AsyncWebsocket t)" 
    and "sio_packet_into_bytes (overflow_checks X) p = Ok b" and "attachments p = None"
    and "sio_async_send X p (s, w) = (Ok (), s', w')"
  shows "s' = s \<and> sent w' = sent w @ [DidSend (ws_conn t) (WsText (CHR ''4'' # b))]"
proof -
  let ?q = "eio_packet_new Message b" and ?s = "ac_socket (sa_engine s)"
  have open_s: "sio_async_is_open s" using assms(4) sio_async_send_closed [of s X p w] by fastforce
  obtain r1 s1 w1 where e: "async_socket_emit X ?q (?s, w) = (r1, s1, w1)" by (metis surj_pair)
  have "r1 = Ok () \<and> s' = s\<lparr>sa_engine := (sa_engine s)\<lparr>ac_socket := s1\<rparr>\<rparr> \<and> w' = w1"
    using assms open_s e by (cases r1) (auto simp: sio_async_send_def sio_async_is_open_def sio_async_is_engineio_connected_def
      on_async_engine_def async_client_emit_def on_socket_def)
  moreover have "u8_byte (to_string_byte Message) = CHR ''4''" by code_simp
  ultimately show ?thesis
    using assms(1) e async_ws_emit_text [of X t "CHR ''4'' # b" w] 
    by (cases s) (auto simp: async_socket_emit_def async_emit_begin_def async_emit_finish_def eio_packet_new_def
        eio_packet_into_bytes_def Let_def split: if_splits prod.splits outcome.splits)
qed


lemma asio_emit_text:
  assumes "as_transport (ac_socket (sa_engine (xc_socket c))) = Some (AsyncWebsocket t)"
    and "new_from_payload (json X) (PText vs i) e (xc_nsp c) None = Ok p"
    and "sio_packet_into_bytes (overflow_checks X) p = Ok b"
    and "asio_emit X e (PText vs i) (c, w) = (Ok (), c', w')"
  shows "c' = c \<and> sent w' = sent w @ [DidSend (ws_conn t) (WsText (CHR ''4'' # b))]"
proof -
  obtain r s w1 where s: "sio_async_send X p (xc_socket c, w) = (r, s, w1)" by (metis surj_pair)
  have "attachments p = None" using assms(2) by (auto simp: sio_packet_new_def Let_def)
  moreover have "on_asio (sio_async_send X p) (c, w) = (Ok (), c', w')"
    using assms(4) unfolding asio_emits_eq assms(2) by simp
  ultimately show ?thesis using s sio_async_send_text [OF assms(1,3), of w s w1] by (simp add: on_asio_def)
qed

lemma attempt_connects:
  assumes "attempt_step X R SendConnect (c, w) = (None, c', w')" and "xc_epoch c' \<noteq> xc_epoch c"
  shows "\<exists>s. sio_async_send X (sio_packet_new Connect (xc_nsp c) (map_option (json_to_string (json X)) (xc_auth c)) None 0 None)
      (xc_socket c, w) = (Ok (), s, w') \<and> xc_epoch c' = xc_epoch c + 1"
proof -
  obtain r s w1 where "sio_async_send X (sio_packet_new Connect (xc_nsp c)
      (map_option (json_to_string (json X)) (xc_auth c)) None 0 None) (xc_socket c, w) = (r, s, w1)" by (metis surj_pair)
  with assms show ?thesis
    by (cases r; cases "xc_reader c") (auto simp: attempt_await_def attempt_failed_def on_asio_def Let_def)
qed

lemma attempt_opens:
  assumes "attempt_step X R OpenEngine (c, w) = (Some SendConnect, c', w')"
  shows "xc_epoch c' = xc_epoch c"
proof -
  obtain r s w1 where "sio_async_connect X (xc_socket c, w) = (r, s, w1)" by (metis surj_pair)
  with assms show ?thesis
    by (cases r; cases "xc_reader c") (auto simp: attempt_await_def attempt_failed_def on_asio_def)
qed

text \<open>
  C33. On a reconnect the engine of the new socket, which already stands in the client, is opened before
  the connect packet is sent. An event emitted in between is accepted and reaches the server first:
  in the frames of the new session the event comes before the connect packet.
\<close>

theorem emitted_before_connect:
  assumes "fc_attempt f = Some OpenEngine"
    and "attempt_step X R OpenEngine (fc_client f, w) = (Some SendConnect, c, w1)"
    and "as_transport (ac_socket (sa_engine (xc_socket c))) = Some (AsyncWebsocket t)"
    and "new_from_payload (json X) (PText vs i) e (xc_nsp c) None = Ok p"
    and "sio_packet_into_bytes (overflow_checks X) p = Ok b"
    and "asio_emit X e (PText vs i) (c, w1) = (Ok (), c2, w2)"
    and "sio_packet_into_bytes (overflow_checks X) (sio_packet_new Connect (xc_nsp c)
       (map_option (json_to_string (json X)) (xc_auth c)) None 0 None) = Ok b'"
    and "attempt_step X R SendConnect (c2, w2) = (None, c3, w3)"
    and "asio_session_epoch c3 \<noteq> asio_session_epoch (fc_client f)"
  shows "fine_reaches X R (f, w) (f\<lparr>fc_client := c3, fc_attempt := None\<rparr>, w3) \<and>
    sent w3 = sent w1 @ [DidSend (ws_conn t) (WsText (CHR ''4'' # b)), DidSend (ws_conn t) (WsText (CHR ''4'' # b'))] \<and>
    asio_session_epoch c3 = asio_session_epoch (fc_client f) + 1"
proof -
  let ?f = "f\<lparr>fc_client := c, fc_attempt := Some SendConnect\<rparr>"
  have c: "xc_epoch c = xc_epoch (fc_client f)" by (rule attempt_opens [OF assms(2)])
  have 1: "c2 = c" "sent w2 = sent w1 @ [DidSend (ws_conn t) (WsText (CHR ''4'' # b))]"
    using asio_emit_text [OF assms(3-6)] by simp_all
  obtain s where 2: "sio_async_send X (sio_packet_new Connect (xc_nsp c) (map_option (json_to_string (json X)) (xc_auth c)) None 0 None)
      (xc_socket c, w2) = (Ok (), s, w3)" "xc_epoch c3 = xc_epoch c + 1"
    using attempt_connects [OF assms(8) [unfolded 1]] assms(9) c by (auto simp: asio_session_epoch_def)
  from sio_async_send_text [OF assms(3,7) _ 2(1)]
  have 3: "sent w3 = sent w2 @ [DidSend (ws_conn t) (WsText (CHR ''4'' # b'))]" by (simp add: sio_packet_new_def)
  have "asio_actions X [UserEmit e (PText vs i)] (fc_client ?f, w1) = (c, w2)" using assms(6) 1(1) by simp
  from fine_reaches_one [OF fine_step.user [OF _ this]] have "fine_reaches X R (?f, w1) (?f, w2)" by (cases f) simp
  moreover have "fine_reaches X R (?f, w2) (f\<lparr>fc_client := c3, fc_attempt := None\<rparr>, w3)"
    using attempt_reaches [where f = ?f, OF _ _ refl fine_reaches_refl] assms(8) 1(1) by simp
  ultimately have "fine_reaches X R (?f, w1) (f\<lparr>fc_client := c3, fc_attempt := None\<rparr>, w3)" by (rule fine_reaches_trans)
  from attempt_reaches [OF assms(1,2) refl this]
  have "fine_reaches X R (f, w) (f\<lparr>fc_client := c3, fc_attempt := None\<rparr>, w3)" .
  with 1 2 3 c show ?thesis by (simp add: asio_session_epoch_def)
qed

definition demo_opening :: fine_client where
  "demo_opening = (at_rest ((demo_asio [] Map.empty [])\<lparr>xc_reader := Reconnecting 0 0\<rparr>) [])\<lparr>fc_attempt := Some OpenEngine\<rparr>"

lemma demo_text: "utf8_valid d \<Longrightarrow>
  async_ws_emit demo_ext demo_ws d False w = (Ok (), did (DidSend 0 (WsText d)) (w\<lparr>send_count := send_count w + 1\<rparr>))"
  by (simp add: demo_ws_def async_ws_emit_def ws_general_emit_def from_utf8_def ws_send_def demo_ext_def)

definition demo_opened :: sio_async_socket where
  "demo_opened = (demo_async_sio [])\<lparr>sa_engine := (demo_engine [])\<lparr>ac_socket := demo_async_ws\<lparr>as_connected := True\<rparr>\<rparr>\<rparr>"

lemma demo_sends:
  assumes "sio_packet_into_bytes (overflow_checks demo_ext) p = Ok b" and "attachments p = None" and "utf8_valid (CHR ''4'' # b)"
  shows "\<exists>w'. sio_async_send demo_ext p (demo_opened, w) = (Ok (), demo_opened, w')"
proof -
  have "u8_byte (to_string_byte Message) = CHR ''4''" by code_simp
  then show ?thesis
    using assms by (simp add: sio_async_send_def sio_async_is_engineio_connected_def async_client_is_connected_def
        async_is_connected_def demo_opened_def demo_async_sio_def on_async_engine_def async_client_emit_def on_socket_def
        async_socket_emit_def async_emit_begin_def async_emit_finish_def demo_async_ws_def eio_packet_new_def
        eio_packet_into_bytes_def demo_text Let_def)
qed

lemma demo_opens:
  "\<exists>w. attempt_step demo_ext R OpenEngine (fc_client demo_opening, demo_world) =
     (Some SendConnect, (fc_client demo_opening)\<lparr>xc_socket := demo_opened\<rparr>, w) \<and> sent w = [DidSend 0 (WsText ''3'')]"
proof -
  have "utf8_valid ''3''" by code_simp
  moreover have "packet_id (eio_packet_new Pong '''') = Pong" by (simp add: eio_packet_new_def)
  moreover have "now demo_world = 0" "sent demo_world = []" by (simp_all add: demo_world_def sent_def)
  ultimately show ?thesis
    by (simp add: demo_opening_def at_rest_def demo_asio_def attempt_await_def on_asio_def sio_async_connect_def
        on_async_engine_def async_client_connect_def on_socket_def async_socket_connect_def async_connect_begin_def
        asio_client_new_def demo_async_sio_def demo_async_ws_def async_socket_emit_def async_emit_begin_def
        async_emit_finish_def Let_def demo_text control_packet_bytes demo_opened_def sent_def did_def)
qed

theorem emitted_before_connect_witness:
  "\<exists>f w. fine_reaches demo_ext (\<lambda>n h. reconnect_settings_new) (demo_opening, demo_world) (f, w) \<and>
     sent w = map (\<lambda>s. DidSend 0 (WsText s)) [''3'', ''42['' @ quoted ''hi'' @ '']'', ''40'']"
proof -
  let ?R = "\<lambda>n h. reconnect_settings_new" and ?c = "(fc_client demo_opening)\<lparr>xc_socket := demo_opened\<rparr>"
  let ?e = "EvCustom ''hi''" and ?d = "PText [] None"
  obtain w1 where 1: "attempt_step demo_ext ?R OpenEngine (fc_client demo_opening, demo_world) = (Some SendConnect, ?c, w1)"
    "sent w1 = [DidSend 0 (WsText ''3'')]" using demo_opens by blast
  let ?t = "''['' @ quoted ''hi'' @ '']''"
  let ?p = "sio_packet_new Event ''/'' (Some ?t) None 0 None" and ?q = "sio_packet_new Connect ''/'' None None 0 None"
  have "event_display ?e = ''hi''" by code_simp
  moreover have "json demo_ext = plain_json_lib" by (simp add: demo_ext_def)
  ultimately have p: "new_from_payload (json demo_ext) ?d ?e (xc_nsp ?c) None = Ok ?p"
    by (simp add: plain_json_lib_def demo_opening_def at_rest_def demo_asio_def asio_client_new_def asio_builder_new_def)
  have b: "sio_packet_into_bytes (overflow_checks demo_ext) ?p = Ok (CHR ''2'' # ?t)"
    by (simp add: sio_packet_into_bytes_def sio_packet_body_def is_binary_type_def sio_packet_new_def)
  have b': "sio_packet_into_bytes (overflow_checks demo_ext) (sio_packet_new Connect (xc_nsp ?c)
      (map_option (json_to_string (json demo_ext)) (xc_auth ?c)) None 0 None) = Ok ''0''"
    by (simp add: sio_packet_into_bytes_def sio_packet_body_def is_binary_type_def sio_packet_new_def demo_opening_def
        at_rest_def demo_asio_def asio_client_new_def asio_builder_new_def)
  have u: "utf8_valid (CHR ''4'' # CHR ''2'' # ?t)" "utf8_valid ''40''" by code_simp+
  obtain w2 where "sio_async_send demo_ext ?p (demo_opened, w1) = (Ok (), demo_opened, w2)"
    using demo_sends [OF b _ u(1)] by (auto simp: sio_packet_new_def)
  then have 2: "asio_emit demo_ext ?e ?d (?c, w1) = (Ok (), ?c, w2)"
    unfolding asio_emits_eq p by (simp add: on_asio_def)
  obtain w3 where "sio_async_send demo_ext (sio_packet_new Connect (xc_nsp ?c)
      (map_option (json_to_string (json demo_ext)) (xc_auth ?c)) None 0 None) (demo_opened, w2) = (Ok (), demo_opened, w3)"
    using demo_sends [OF b' _ u(2)] by (auto simp: sio_packet_new_def)
  then have 3: "attempt_step demo_ext ?R SendConnect (?c, w2) =
      (None, ?c\<lparr>xc_epoch := xc_epoch ?c + 1, xc_reader := Reading\<rparr>, w3)"
    by (simp add: attempt_await_def on_asio_def)
  have t: "as_transport (ac_socket (sa_engine (xc_socket ?c))) = Some (AsyncWebsocket demo_ws)"
    by (simp add: demo_opened_def demo_async_ws_def demo_async_sio_def)
  have "fc_attempt demo_opening = Some OpenEngine" by (simp add: demo_opening_def)
  from emitted_before_connect [OF this 1(1) t p b 2 b' 3] 1(2) show ?thesis
    by (intro exI [of _ "demo_opening\<lparr>fc_client := ?c\<lparr>xc_epoch := xc_epoch ?c + 1, xc_reader := Reading\<rparr>, fc_attempt := None\<rparr>"]
        exI [of _ w3]) (simp add: asio_session_epoch_def demo_ws_def)
qed

end
