(* ===== verification/Sio_Async_Whole_Steps.thy ===== *)
theory Sio_Async_Whole_Steps
  imports Sio_Async_Teardown
begin

text \<open>
  \<open>Sio_Async_Client\<close> takes a \<open>disconnect\<close> and an attempt to reconnect as single steps,
  \<open>Sio_Async_Teardown\<close> cuts them at their awaits. Here every run of the first is a run of the second.
\<close>

lemma on_asio_tasks:
  "on_asio g (c\<lparr>xc_tasks := ts\<rparr>, w) = (case on_asio g (c, w) of (r, c', w') \<Rightarrow> (r, c'\<lparr>xc_tasks := ts\<rparr>, w'))"
  by (cases c) (simp add: on_asio_def split: prod.split)

lemma within_tasks:
  "sio_within_ms ms e w (on_asio g (c\<lparr>xc_tasks := ts\<rparr>, w')) =
     (case sio_within_ms ms e w (on_asio g (c, w')) of (r, c', w') \<Rightarrow> (r, c'\<lparr>xc_tasks := ts\<rparr>, w'))"
  unfolding on_asio_tasks by (simp add: sio_within_ms_def split: prod.split)

lemma abort_reader_tasks: "\<exists>us. abort_reader (c\<lparr>xc_tasks := ts\<rparr>) = (abort_reader c)\<lparr>xc_tasks := us\<rparr>"
  by (cases c) (auto simp: abort_reader_def reader_state_drop_def abort_dispatch_def Let_def)

lemma asio_disconnect_tasks: "asio_disconnect X (c\<lparr>xc_tasks := ts\<rparr>, w) = asio_disconnect X (c, w)"
proof -
  let ?c = "abort_reader (c\<lparr>xc_reason := ReasonManual\<rparr>)"
  have "c\<lparr>xc_tasks := ts, xc_reason := ReasonManual\<rparr> = (c\<lparr>xc_reason := ReasonManual\<rparr>)\<lparr>xc_tasks := ts\<rparr>" by (cases c) simp
  with abort_reader_tasks [where c = "c\<lparr>xc_reason := ReasonManual\<rparr>" and ts = ts]
  obtain us where us: "abort_reader (c\<lparr>xc_tasks := ts, xc_reason := ReasonManual\<rparr>) = ?c\<lparr>xc_tasks := us\<rparr>" by auto
  obtain r1 c1 w1 r2 c2 w2 u v where parts:
    "sio_within_ms 1000 (SioIncompleteIo ''Socket.IO disconnect packet timed out'') w
       (on_asio (sio_async_send X (sio_packet_new Disconnect (xc_nsp ?c) None None 0 None)) (?c, w)) = (r1, c1, w1)"
    "on_asio (sio_async_disconnect X) (c1, w1) = (r2, c2, w2)" "came_back r1 = Some u" "came_back r2 = Some v"
    by (rule disconnect_parts)
  have "sio_within_ms 1000 (SioIncompleteIo ''Socket.IO disconnect packet timed out'') w
       (on_asio (sio_async_send X (sio_packet_new Disconnect (xc_nsp (?c\<lparr>xc_tasks := us\<rparr>)) None None 0 None))
         (?c\<lparr>xc_tasks := us\<rparr>, w)) = (r1, c1\<lparr>xc_tasks := us\<rparr>, w1)"
    using parts(1) unfolding within_tasks by simp
  moreover have "on_asio (sio_async_disconnect X) (c1\<lparr>xc_tasks := us\<rparr>, w1) = (r2, c2\<lparr>xc_tasks := us\<rparr>, w2)"
    unfolding on_asio_tasks parts by simp
  ultimately have "asio_disconnect X (c\<lparr>xc_tasks := ts\<rparr>, w) = (teardown_result u v, abort_dispatch True (c2\<lparr>xc_tasks := us\<rparr>), w2)"
    by (rule disconnect_eq [OF us _ _ parts(3,4)])
  then show ?thesis unfolding disconnect_eq [OF refl parts] by (simp add: abort_dispatch_def)
qed

definition after_attempt :: "ext \<Rightarrow> u8 \<Rightarrow> nat \<Rightarrow> (sio_error, unit) outcome \<times> asio_state \<Rightarrow> asio_state" where
  "after_attempt X i n rcw = (case rcw of
     (Ok _, c, w) \<Rightarrow> (c\<lparr>xc_reader := Reading\<rparr>, w)
   | (Err e, c, w) \<Rightarrow> (c\<lparr>xc_reader := Reconnecting i (n + 1)\<rparr>,
       case next_backoff X n of Some ms \<Rightarrow> sleep_ms ms w | None \<Rightarrow> w)
   | (Panic, c, w) \<Rightarrow> (c\<lparr>xc_reader := ReaderDone\<rparr>, w)
   | (Hang, c, w) \<Rightarrow> (c, w))"

lemma failed_run:
  assumes "fc_attempt f = Some a" and "attempt_step X R a (fc_client f, w) = attempt_failed X (c1, w1)"
    and "xc_reader c1 = Reconnecting i n" and "after_attempt X i n (Err e, c1, w1) = (c', w')"
  shows "fine_reaches X R (f, w) (f\<lparr>fc_client := c', fc_attempt := None\<rparr>, w')"
proof (cases "next_backoff X n")
  case None
  with assms(2-4) have "attempt_step X R a (fc_client f, w) = (None, c', w')"
    by (simp add: attempt_failed_def after_attempt_def)
  then show ?thesis by (rule attempt_reaches [OF assms(1) _ refl fine_reaches_refl])
next
  case (Some ms)
  let ?f = "f\<lparr>fc_client := c', fc_attempt := Some (BackOff ms (now w1 + ms))\<rparr>"
  from Some assms(3,4) have w': "w' = did (DidSleep ms) (w1\<lparr>now := now w1 + ms\<rparr>)" by (simp add: after_attempt_def sleep_ms_def)
  from Some assms(2-4) have "attempt_step X R a (fc_client f, w) = (Some (BackOff ms (now w1 + ms)), c', w1)"
    by (simp add: attempt_failed_def after_attempt_def)
  from fine_reaches_one [OF fine_step.attempt [OF assms(1) this]]
  have "fine_reaches X R (f, w) (?f, w1)" .
  moreover have "fine_reaches X R (?f, w1) (?f, w1\<lparr>now := now w1 + ms\<rparr>)" by (rule fine_reaches_one [OF fine_step.wait])
  moreover have "fine_reaches X R (?f, w1\<lparr>now := now w1 + ms\<rparr>) (f\<lparr>fc_client := c', fc_attempt := None\<rparr>, w')"
    using attempt_reaches [where f = ?f and a = "BackOff ms (now w1 + ms)" and a' = None and c' = c' and w' = w', OF _ _ refl fine_reaches_refl]
    by (simp add: w')
  ultimately show ?thesis using fine_reaches_trans by blast
qed

lemma connect_run:
  assumes "fc_attempt f = Some OpenEngine" and "xc_reader (fc_client f) = Reconnecting i n"
    and "fst (asio_connect X (fc_client f, w)) \<noteq> Hang"
    and "after_attempt X i n (asio_connect X (fc_client f, w)) = (c', w')"
  shows "fine_reaches X R (f, w) (f\<lparr>fc_client := c', fc_attempt := None\<rparr>, w')"
proof -
  obtain r1 s1 w1 where o: "sio_async_connect X (xc_socket (fc_client f), w) = (r1, s1, w1)" by (metis surj_pair)
  show ?thesis
  proof (cases r1)
    case (Ok u)
    let ?c = "(fc_client f)\<lparr>xc_socket := s1\<rparr>"
    let ?p = "sio_packet_new Connect (xc_nsp ?c) (map_option (json_to_string (json X)) (xc_auth ?c)) None 0 None"
    obtain r2 s2 w2 where p: "sio_async_send X ?p (s1, w1) = (r2, s2, w2)" by (metis surj_pair)
    let ?f = "f\<lparr>fc_client := ?c, fc_attempt := Some SendConnect\<rparr>"
    have "fine_reaches X R (?f, w1) (?f\<lparr>fc_client := c', fc_attempt := None\<rparr>, w')"
    proof (cases "\<exists>e. r2 = Err e")
      case True
      then obtain e where e: "r2 = Err e" ..
      show ?thesis
        by (rule failed_run [where a = SendConnect and i = i and n = n and ?c1.0 = "?c\<lparr>xc_socket := s2\<rparr>" and ?w1.0 = w2 and e = e])
          (use assms(2,4) o p Ok e in \<open>simp_all add: asio_connect_def on_asio_def attempt_await_def Let_def\<close>)
    next
      case False
      with assms(2-4) o p Ok have "attempt_step X R SendConnect (fc_client ?f, w1) = (None, c', w')"
        by (cases r2; cases "fc_client f") (auto simp: asio_connect_def on_asio_def attempt_await_def after_attempt_def Let_def)
      from attempt_reaches [OF _ this refl fine_reaches_refl] show ?thesis by simp
    qed
    moreover have "attempt_step X R OpenEngine (fc_client f, w) = (Some SendConnect, ?c, w1)"
      using o Ok by (simp add: attempt_await_def on_asio_def)
    ultimately show ?thesis using attempt_reaches [OF assms(1) _ refl] by simp
  next
    case (Err e)
    show ?thesis
      by (rule failed_run [OF assms(1), where i = i and n = n and ?c1.0 = "(fc_client f)\<lparr>xc_socket := s1\<rparr>" and ?w1.0 = w1 and e = e])
        (use assms(2,4) o Err in \<open>simp_all add: asio_connect_def on_asio_def attempt_await_def\<close>)
  next
    case Panic
    with o assms(2,4) have "attempt_step X R OpenEngine (fc_client f, w) = (None, c', w')"
      by (auto simp: asio_connect_def on_asio_def attempt_await_def after_attempt_def)
    then show ?thesis by (rule attempt_reaches [OF assms(1) _ refl fine_reaches_refl])
  next
    case Hang
    with o assms(3) show ?thesis by (simp add: asio_connect_def on_asio_def)
  qed
qed

lemma create_run:
  assumes "fc_attempt f = Some CreateSocket" and "xc_reader (fc_client f) = Reconnecting i n"
    and "(case asio_inner_create X (xc_builder (fc_client f)) w of (r, w) \<Rightarrow>
      ques (r, fc_client f, w) (\<lambda>s (c, w). asio_connect X (c\<lparr>xc_socket := s\<rparr>, w))) = (r, cw)"
    and "r \<noteq> Hang" and "after_attempt X i n (r, cw) = (c', w')"
  shows "fine_reaches X R (f, w) (f\<lparr>fc_client := c', fc_attempt := None\<rparr>, w')"
proof -
  obtain r1 w1 where o: "asio_inner_create X (xc_builder (fc_client f)) w = (r1, w1)" by (metis surj_pair)
  show ?thesis
  proof (cases r1)
    case (Ok s)
    let ?c = "(fc_client f)\<lparr>xc_socket := s\<rparr>"
    from connect_run [of "f\<lparr>fc_client := ?c, fc_attempt := Some OpenEngine\<rparr>" i n X w1 c' w'] assms(2-5) o Ok
    have "fine_reaches X R (f\<lparr>fc_client := ?c, fc_attempt := Some OpenEngine\<rparr>, w1) (f\<lparr>fc_client := c', fc_attempt := None\<rparr>, w')"
      by simp
    then have "fine_reaches X R (f\<lparr>fc_attempt := Some (InstallSocket s)\<rparr>, w1) (f\<lparr>fc_client := c', fc_attempt := None\<rparr>, w')"
      by (rule attempt_reaches [where a = "InstallSocket s", rotated 3]) simp_all
    moreover have "attempt_step X R CreateSocket (fc_client f, w) = (Some (InstallSocket s), fc_client f, w1)"
      using o Ok by (simp add: attempt_await_def)
    ultimately show ?thesis using attempt_reaches [OF assms(1) _ refl] by simp
  next
    case (Err e)
    show ?thesis
      by (rule failed_run [OF assms(1), where i = i and n = n and ?c1.0 = "fc_client f" and ?w1.0 = w1 and e = e])
        (use assms(2,3,5) o Err in \<open>auto simp: attempt_await_def\<close>)
  next
    case Panic
    with o assms(2,3,5) have "attempt_step X R CreateSocket (fc_client f, w) = (None, c', w')"
      by (auto simp: attempt_await_def after_attempt_def)
    then show ?thesis by (rule attempt_reaches [OF assms(1) _ refl fine_reaches_refl])
  next
    case Hang
    with o assms(3,4) show ?thesis by simp
  qed
qed

lemma apply_settings_put:
  "ab_on_reconnect (xc_builder c) = Some h \<Longrightarrow>
   put_on_reconnect (Some h) (apply_settings r (put_on_reconnect None c)) = apply_settings r c"
  by (cases c; cases "xc_builder c")
    (auto simp: put_on_reconnect_def apply_settings_def Let_def split: option.split)

lemma reconnect_run:
  assumes "asio_reconnect X R (c, w) = (r, cw)" and "r \<noteq> Hang" and "xc_reader c = Reconnecting i n"
    and "fc_client f = (case ab_on_reconnect (xc_builder c) of Some h \<Rightarrow> put_on_reconnect None c | None \<Rightarrow> c)"
    and "fc_attempt f = Some (case ab_on_reconnect (xc_builder c) of Some h \<Rightarrow> AwaitCallback h | None \<Rightarrow> CreateSocket)"
    and "after_attempt X i n (r, cw) = (c', w')"
  shows "fine_reaches X R (f, w) (f\<lparr>fc_client := c', fc_attempt := None\<rparr>, w')"
proof (cases "ab_on_reconnect (xc_builder c)")
  case None
  with assms(1) have "(case asio_inner_create X (xc_builder (fc_client f)) w of (r, w) \<Rightarrow>
      ques (r, fc_client f, w) (\<lambda>s (c, w). asio_connect X (c\<lparr>xc_socket := s\<rparr>, w))) = (r, cw)"
    by (simp add: asio_reconnect_def assms(4))
  from create_run [OF _ _ this assms(2,6)] None assms(3-5) show ?thesis by simp
next
  case (Some h)
  let ?r = "R (length (trace w)) h" and ?w = "did (DidCall h ArgUnit) w"
  let ?f = "f\<lparr>fc_client := apply_settings ?r c, fc_attempt := Some CreateSocket\<rparr>"
  have "(case asio_inner_create X (xc_builder (fc_client ?f)) ?w of (r, w) \<Rightarrow>
      ques (r, fc_client ?f, w) (\<lambda>s (c, w). asio_connect X (c\<lparr>xc_socket := s\<rparr>, w))) = (r, cw)"
    using assms(1) Some by (simp add: asio_reconnect_def)
  from create_run [OF _ _ this assms(2,6)] assms(3)
  have "fine_reaches X R (?f, ?w) (f\<lparr>fc_client := c', fc_attempt := None\<rparr>, w')" by simp
  then have "fine_reaches X R (f\<lparr>fc_attempt := Some (ApplySettings h ?r)\<rparr>, ?w) (f\<lparr>fc_client := c', fc_attempt := None\<rparr>, w')"
    by (rule attempt_reaches [where a = "ApplySettings h ?r", rotated 3])
      (use assms(4) Some in \<open>simp_all add: apply_settings_put\<close>)
  then show ?thesis
    by (rule attempt_reaches [where a = "AwaitCallback h", rotated 3]) (use assms(4,5) Some in \<open>cases f; simp\<close>)+
qed

lemma on_asio_reader:
  "on_asio g (c\<lparr>xc_reader := r\<rparr>, w) = (case on_asio g (c, w) of (q, c', w') \<Rightarrow> (q, c'\<lparr>xc_reader := r\<rparr>, w'))"
  by (cases c) (simp add: on_asio_def split: prod.split)

lemma asio_connect_reader:
  "asio_connect X (c\<lparr>xc_reader := r\<rparr>, w) = (case asio_connect X (c, w) of (q, c', w') \<Rightarrow> (q, c'\<lparr>xc_reader := r\<rparr>, w'))"
proof -
  obtain r1 c1 w1 where o: "on_asio (sio_async_connect X) (c, w) = (r1, c1, w1)" by (metis surj_pair)
  obtain r2 c2 w2 where p: "on_asio (sio_async_send X (sio_packet_new Connect (xc_nsp c1)
      (map_option (json_to_string (json X)) (xc_auth c1)) None 0 None)) (c1, w1) = (r2, c2, w2)" by (metis surj_pair)
  from o p show ?thesis
    by (cases r1; cases r2; cases c2) (simp_all add: asio_connect_def on_asio_reader Let_def)
qed

lemma asio_reconnect_reader:
  "asio_reconnect X R (c\<lparr>xc_reader := r\<rparr>, w) = (case asio_reconnect X R (c, w) of (q, c', w') \<Rightarrow> (q, c'\<lparr>xc_reader := r\<rparr>, w'))"
proof -
  have *: "(case asio_inner_create X (xc_builder (c\<lparr>xc_reader := r\<rparr>)) w of (q, w) \<Rightarrow>
        ques (q, c\<lparr>xc_reader := r\<rparr>, w) (\<lambda>s (c, w). asio_connect X (c\<lparr>xc_socket := s\<rparr>, w))) =
      (case (case asio_inner_create X (xc_builder c) w of (q, w) \<Rightarrow>
        ques (q, c, w) (\<lambda>s (c, w). asio_connect X (c\<lparr>xc_socket := s\<rparr>, w))) of
       (q, c', w') \<Rightarrow> (q, c'\<lparr>xc_reader := r\<rparr>, w'))" for c w
  proof -
    obtain q w1 where q: "asio_inner_create X (xc_builder c) w = (q, w1)" by (metis surj_pair)
    have "xc_builder (c\<lparr>xc_reader := r\<rparr>) = xc_builder c" by simp
    moreover have "c\<lparr>xc_reader := r, xc_socket := s\<rparr> = c\<lparr>xc_socket := s, xc_reader := r\<rparr>" for s by (cases c) simp
    ultimately show ?thesis using q by (cases q) (simp_all only: asio_connect_reader ques.simps prod.case)
  qed
  have "apply_settings s (c\<lparr>xc_reader := r\<rparr>) = (apply_settings s c)\<lparr>xc_reader := r\<rparr>" for s
    by (cases c) (simp add: apply_settings_def Let_def split: option.split)
  then show ?thesis using * [of c w] * [where w = "did (DidCall _ ArgUnit) w"]
    by (simp add: asio_reconnect_def split: option.split)
qed


definition never_hangs :: "ext \<Rightarrow> (nat \<Rightarrow> callback \<Rightarrow> reconnect_settings) \<Rightarrow> bool" where
  "never_hangs X R \<longleftrightarrow> (\<forall>c w. fst (asio_reconnect X R (c, w)) \<noteq> Hang)"

lemma reconnect_turn_run:
  assumes "asio_reconnect_turn X R j n (c, w) = (c', w')" and "xc_reader c = Reconnecting j n"
    and "never_hangs X R" and "fc_client f = c" and "fc_attempt f = None"
  shows "fine_reaches X R (f, w) (f\<lparr>fc_client := c'\<rparr>, w')"
proof -
  obtain a c0 where b: "attempt_begin X j n c = (a, c0)" by (metis surj_pair)
  have start: "fine_step X R (f, w) (f\<lparr>fc_client := c0, fc_attempt := a\<rparr>, w)"
    using assms(2,4,5) b by (intro fine_step.attempt_begin) simp_all
  show ?thesis
  proof (cases a)
    case None
    then have "c' = c0 \<and> w' = w"
      using assms(1) b by (auto simp: attempt_begin_def asio_reconnect_turn_def Let_def split: if_splits option.splits)
    with None fine_reaches_one [OF start] assms(5) show ?thesis by (cases f) simp
  next
    case (Some a1)
    define i where "i = (if ab_max_attempts (xc_builder c) \<noteq> None then j + 1 else j)"
    let ?c = "c\<lparr>xc_reader := Reconnecting i n\<rparr>"
    have c0: "c0 = (case ab_on_reconnect (xc_builder ?c) of Some h \<Rightarrow> put_on_reconnect None ?c | None \<Rightarrow> ?c)"
      and a1: "a1 = (case ab_on_reconnect (xc_builder ?c) of Some h \<Rightarrow> AwaitCallback h | None \<Rightarrow> CreateSocket)"
      using b Some by (auto simp: attempt_begin_def i_def Let_def split: if_splits option.splits)
    obtain r c1 w1 where r: "asio_reconnect X R (c, w) = (r, c1, w1)" by (metis surj_pair)
    then have r': "asio_reconnect X R (?c, w) = (r, c1\<lparr>xc_reader := Reconnecting i n\<rparr>, w1)"
      by (simp add: asio_reconnect_reader)
    have "r \<noteq> Hang" using assms(3) r unfolding never_hangs_def by (metis fst_conv)
    moreover from this have "after_attempt X i n (r, c1\<lparr>xc_reader := Reconnecting i n\<rparr>, w1) = (c', w')"
      using assms(1) b Some r by (cases r) (auto simp: after_attempt_def asio_reconnect_turn_def attempt_begin_def i_def Let_def
          split: if_splits option.splits)
    ultimately have "fine_reaches X R (f\<lparr>fc_client := c0, fc_attempt := Some a1\<rparr>, w)
        (f\<lparr>fc_client := c0, fc_attempt := Some a1, fc_client := c', fc_attempt := None\<rparr>, w')"
      by (intro reconnect_run [OF r']) (simp_all add: c0 a1)
    with fine_reaches_step [OF start] Some assms(5) show ?thesis by (cases f) simp
  qed
qed


lemma asio_actions_disconnect:
  assumes "UserDisconnect \<in> set us" and "asio_actions X (before_disconnect us) (c, w) = (c1, w1)"
  shows "asio_actions X us (c, w) = snd (asio_disconnect X (c1, w1))"
  using assms
proof (induction us arbitrary: c w)
  case (Cons u us)
  show ?case
  proof (cases "u = UserDisconnect")
    case False
    obtain c2 w2 where u: "asio_actions X [u] (c, w) = (c2, w2)" by (cases "asio_actions X [u] (c, w)")
    have "asio_actions X (before_disconnect us) (c2, w2) = (c1, w1)"
      using Cons.prems(2) False asio_actions_Cons [OF False, of X "before_disconnect us" "(c, w)"] u
      by (simp add: before_disconnect_def)
    with Cons.IH Cons.prems(1) False u asio_actions_Cons [OF False, of X us "(c, w)"] show ?thesis by simp
  qed (use Cons.prems in \<open>simp add: before_disconnect_def\<close>)
qed simp

lemma disconnect_at_rest:
  assumes "asio_disconnect X (c, w) = (r, c', w')" and "drop_task i c = d \<or> c = d"
  shows "fine_reaches X R (at_rest d rs\<lparr>fc_waiting := 1\<rparr>, w) (at_rest c' (rs @ [r]), w')"
proof -
  have "asio_disconnect X (d, w) = (r, c', w')"
    using assms asio_disconnect_tasks [where c = c] by (auto simp: drop_task_def)
  from disconnect_run [OF this, of "at_rest d rs\<lparr>fc_waiting := 1\<rparr>" 0 R] show ?thesis by (simp add: at_rest_def)
qed

lemma coarse_step_is_fine:
  assumes "asio_step X R (c, w) (c', w')" and "never_hangs X R"
  shows "\<exists>rs'. fine_reaches X R (at_rest c rs, w) (at_rest c' rs', w')"
  using assms(1)
proof (cases rule: asio_stepE)
  case (start i j cs c1)
  have "fine_step X R (at_rest c rs, w) ((at_rest c rs)\<lparr>fc_client := set_work i (Calls cs) c1\<rparr>, w)"
    by (rule fine_step.start [where f = "at_rest c rs" and c = c]) (use start in \<open>simp_all add: at_rest_def\<close>)
  from fine_reaches_one [OF this] start show ?thesis by (auto simp: at_rest_def intro!: exI [of _ rs])
next
  case (call_user i h a cs)
  define us where "us = user_code X (length (trace w)) h a"
  obtain c1 w1 where us: "asio_actions X (before_disconnect us) (set_work i (Calls cs) c, did (DidCall h a) w) = (c1, w1)"
    by (metis surj_pair)
  have step: "fine_step X R (at_rest c rs, w) (if UserDisconnect \<in> set us
      then (at_rest c rs)\<lparr>fc_client := drop_task i c1, fc_waiting := fc_waiting (at_rest c rs) + 1\<rparr>
      else (at_rest c rs)\<lparr>fc_client := c1\<rparr>, w1)"
    by (rule fine_step.call_user [where f = "at_rest c rs" and c = c, OF _ _ _ us_def us]) (use call_user in \<open>simp_all add: at_rest_def\<close>)
  show ?thesis
  proof (cases "UserDisconnect \<in> set us")
    case True
    obtain r c2 w2 where d: "asio_disconnect X (c1, w1) = (r, c2, w2)" by (metis surj_pair)
    with asio_actions_disconnect [OF True us] call_user(1) have "(c', w') = (c2, w2)"
      by (simp add: asio_call_user_def us_def)
    with disconnect_at_rest [OF d, of i "drop_task i c1" R rs] fine_reaches_step [OF step] True show ?thesis
      by (auto simp: at_rest_def)
  next
    case False
    with us call_user(1) before_disconnect_id [OF False] have "(c', w') = (c1, w1)"
      by (simp add: asio_call_user_def us_def)
    with fine_reaches_one [OF step] False show ?thesis by (auto simp: at_rest_def intro!: exI [of _ rs])
  qed
next
  case (call_ack i k p cs)
  have "fine_step X R (at_rest c rs, w) ((at_rest c rs)\<lparr>fc_client := set_work i (Calls (ack_calls X k p w @ cs)) c\<rparr>, w)"
    by (rule fine_step.call_ack [where f = "at_rest c rs" and c = c]) (use call_ack in \<open>simp_all add: at_rest_def\<close>)
  from fine_reaches_one [OF this] call_ack show ?thesis by (auto simp: at_rest_def intro!: exI [of _ rs])
next
  case (finish i)
  have "fine_step X R (at_rest c rs, w) ((at_rest c rs)\<lparr>fc_client := drop_task i c\<rparr>, w)"
    by (rule fine_step.finish [where f = "at_rest c rs" and c = c]) (use finish in \<open>simp_all add: at_rest_def\<close>)
  from fine_reaches_one [OF this] finish show ?thesis by (auto simp: at_rest_def intro!: exI [of _ rs])
next
  case reader
  show ?thesis
  proof (cases "\<exists>j n. xc_reader c = Reconnecting j n")
    case True
    then obtain j n where c: "xc_reader c = Reconnecting j n" by blast
    with reader have "asio_reconnect_turn X R j n (c, w) = (c', w')" by simp
    from reconnect_turn_run [OF this c assms(2), of "at_rest c rs"] show ?thesis
      by (auto simp: at_rest_def intro!: exI [of _ rs])
  next
    case False
    have "fine_step X R (at_rest c rs, w) ((at_rest c rs)\<lparr>fc_client := c'\<rparr>, w')"
      by (rule fine_step.reader) (use reader False in \<open>simp_all add: at_rest_def\<close>)
    from fine_reaches_one [OF this] show ?thesis by (auto simp: at_rest_def intro!: exI [of _ rs])
  qed
next
  case (user u)
  show ?thesis
  proof (cases "u = UserDisconnect")
    case True
    obtain r c2 w2 where d: "asio_disconnect X (c, w) = (r, c2, w2)" by (metis surj_pair)
    with user True have "c' = c2 \<and> w' = w2" by simp
    with disconnect_at_rest [OF d, of undefined c R rs] fine_reaches_step [OF fine_step.user_disconnect, of X R "at_rest c rs" w]
    show ?thesis by (auto simp: at_rest_def)
  next
    case False
    have "fine_step X R (at_rest c rs, w) ((at_rest c rs)\<lparr>fc_client := c'\<rparr>, w')"
      by (rule fine_step.user [OF False]) (use user in \<open>simp add: at_rest_def\<close>)
    from fine_reaches_one [OF this] show ?thesis by (auto simp: at_rest_def intro!: exI [of _ rs])
  qed
next
  case (wait d)
  with fine_reaches_one [OF fine_step.wait] show ?thesis by blast
qed

text \<open>
  The two models of the same code do not contradict each other: every run of whole steps is a run of
  their parts, if no call that reconnects runs out of fuel (\<open>never_hangs\<close>).
\<close>

lemma whole_runs_are_fine:
  assumes "asio_reaches X R (c, w) (c', w')" and "never_hangs X R"
  shows "\<exists>rs'. fine_reaches X R (at_rest c rs, w) (at_rest c' rs', w')"
proof -
  have "\<exists>rs'. fine_reaches X R (at_rest c rs, w) (at_rest (fst cw) rs', snd cw)"
    if "(asio_step X R)\<^sup>*\<^sup>* (c, w) cw" for cw
    using that
  proof (induction rule: rtranclp_induct)
    case base
    show ?case by (auto intro: exI [of _ rs])
  next
    case (step y z)
    then obtain rs1 where "fine_reaches X R (at_rest c rs, w) (at_rest (fst y) rs1, snd y)" by blast
    moreover obtain rs2 where "fine_reaches X R (at_rest (fst y) rs1, snd y) (at_rest (fst z) rs2, snd z)"
      using coarse_step_is_fine [OF _ assms(2), of "fst y" "snd y" "fst z" "snd z"] step(2) by (metis prod.collapse)
    ultimately show ?case using fine_reaches_trans by blast
  qed
  from this [OF assms(1) [unfolded asio_reaches_def]] show ?thesis by simp
qed

end
