(* ===== verification/Eio_Agreement.thy ===== *)
theory Eio_Agreement
  imports Eio_Async_Client
begin

text \<open>
  The blocking engine and the asynchronous one, compared: two clients set up alike over the same
  websocket give the same packets, and leave the same world behind, but that the asynchronous engine
  spawns each of its callbacks where the blocking one calls it. So worlds are compared after a
  relabelling of their effects. The relation \<open>engines_alike\<close> holds between a blocking socket with its
  buffer and an asynchronous socket with its packet stream; each poll preserves it
  (\<open>clients_poll_alike\<close>), and \<open>engines_agree\<close> runs it over any number of polls.
\<close>

subsection \<open>Worlds up to a relabelling\<close>

text \<open>
  \<open>settle\<close> forgets that a callback was spawned. \<open>alike_under f w v\<close>: the worlds are equal once \<open>f\<close> has
  relabelled their effects; under \<open>id\<close> they are equal. \<open>told f cb\<close>: the spawn of the callback, if there is
  one, is relabelled as its call.
\<close>

fun settle :: "effect \<Rightarrow> effect" where
  "settle (DidSpawn h a) = DidCall h a"
| "settle e = e"

definition settled :: "world \<Rightarrow> world" where
  "settled w = w\<lparr>trace := map settle (trace w)\<rparr>"

definition alike_under :: "(effect \<Rightarrow> effect) \<Rightarrow> world \<Rightarrow> world \<Rightarrow> bool" where
  "alike_under f w v \<longleftrightarrow> now v = now w \<and> http_count v = http_count w \<and> connect_count v = connect_count w \<and>
     send_count v = send_count w \<and> received v = received w \<and> map f (trace v) = map f (trace w)"

definition told :: "(effect \<Rightarrow> effect) \<Rightarrow> callback option \<Rightarrow> bool" where
  "told f cb \<longleftrightarrow> (\<forall>h a. cb = Some h \<longrightarrow> f (DidSpawn h a) = f (DidCall h a))"

lemma told_simps [simp]: "told settle cb" "told f None"
  by (simp_all add: told_def)

lemma alike_settled: "alike_under settle w v \<longleftrightarrow> settled v = settled w"
  by (cases v; cases w) (auto simp: alike_under_def settled_def)

lemma alike_id: "alike_under id w v \<longleftrightarrow> v = w"
  by (cases v; cases w) (auto simp: alike_under_def)

lemma alike_under_refl [simp]: "alike_under f w w"
  by (simp add: alike_under_def)

lemma alike_under_now: "alike_under f w v \<Longrightarrow> now v = now w"
  by (auto simp: alike_under_def)

lemma alike_under_call:
  "alike_under f w v \<Longrightarrow> told f cb \<Longrightarrow> alike_under f (call_opt cb a w) (spawn_opt cb a v)"
  by (auto simp: alike_under_def told_def call_opt_def spawn_opt_def did_def split: option.split)

lemma ws_recv_alike:
  assumes "alike_under f w v" and "ws_recv X dl c w = (r, w1)"
  shows "\<exists>v1. ws_recv X dl c v = (r, v1) \<and> alike_under f w1 v1"
  using assms by (auto simp: alike_under_def ws_recv_def Let_def split: prod.splits if_splits)

lemma ws_poll_loop_alike:
  assumes "alike_under f w v" and "ws_poll_loop n X dl c w = (r, w1)"
  shows "\<exists>v1. ws_poll_loop n X dl c v = (r, v1) \<and> alike_under f w1 v1"
  using assms
proof (induction n arbitrary: w v)
  case (Suc n)
  obtain i w2 where i: "ws_recv X dl c w = (i, w2)" by fastforce
  from ws_recv_alike [OF Suc.prems(1) i] obtain v2 where
    v2: "ws_recv X dl c v = (i, v2)" "alike_under f w2 v2" by blast
  from Suc.IH [OF v2(2)] Suc.prems(2) i v2 show ?case
    by (fastforce simp: ws_poll_loop_Suc in_time_def split: timed.splits option.splits)
qed auto

lemma ws_send_alike:
  assumes "alike_under f w v" and "ws_send X c m w = (r, w1)"
  shows "\<exists>v1. ws_send X c m v = (r, v1) \<and> alike_under f w1 v1"
  using assms by (auto simp: alike_under_def ws_send_def did_def Let_def split: prod.splits)

lemma ws_general_emit_alike:
  assumes "alike_under f w v" and "ws_general_emit X c d bin w = (r, w1)"
  shows "\<exists>v1. ws_general_emit X c d bin v = (r, v1) \<and> alike_under f w1 v1"
proof -
  let ?m = "if bin then Ok (WsBinary d) else and_then (from_utf8 d) (\<lambda>s. Ok (WsText s))"
  show ?thesis
  proof (cases ?m)
    case (Ok m)
    obtain q w2 where q: "ws_send X c m w = (q, w2)" by fastforce
    from ws_send_alike [OF assms(1) q] obtain v2 where "ws_send X c m v = (q, v2)" "alike_under f w2 v2" by blast
    with assms(2) q show ?thesis unfolding ws_general_emit_def Ok by (cases q) auto
  qed (use assms in \<open>auto simp: ws_general_emit_def split del: if_split\<close>)
qed

subsection \<open>Sockets that are alike\<close>

text \<open>The same connection below both, plain or over TLS.\<close>

fun same_wire :: "transport \<Rightarrow> async_transport \<Rightarrow> bool" where
  "same_wire (Websocket t) (AsyncWebsocket u) = (t = u)"
| "same_wire (WebsocketSecure t) (AsyncWebsocketSecure u) = (t = u)"
| "same_wire t u = False"

text \<open>
  Both connected, with the same transport, heartbeat and callbacks, which \<open>f\<close> tells alike; what the
  blocking socket has buffered is what the stream has still to give out.
\<close>

definition engines_alike :: "(effect \<Rightarrow> effect) \<Rightarrow> eio_socket \<Rightarrow> async_socket \<Rightarrow> packet_stream \<Rightarrow> bool" where
  "engines_alike f e s st \<longleftrightarrow>
     told f (es_on_close e) \<and> told f (es_on_data e) \<and> told f (es_on_error e) \<and> told f (es_on_packet e) \<and>
     es_connected e \<and> as_connected s \<and> \<not> as_closing s \<and> \<not> st_over st \<and>
     as_transport s = Some (st_transport st) \<and> same_wire (es_transport e) (st_transport st) \<and>
     (es_remaining e = Some (st_packets st) \<or> es_remaining e = None \<and> st_packets st = []) \<and>
     es_last_ping e = as_last_ping s \<and> es_max_ping_timeout e = as_max_ping_timeout s \<and>
     es_on_close e = as_on_close s \<and> es_on_data e = as_on_data s \<and> es_on_error e = as_on_error s \<and>
     es_on_packet e = as_on_packet s"

text \<open>
  No frame is empty: the blocking socket asks again after one, the asynchronous one reads it as a
  payload that is incomplete.
\<close>

definition frames_full :: "ext \<Rightarrow> bool" where
  "frames_full X \<longleftrightarrow> (\<forall>c k. snd (net_recv X c k) \<noteq> WsMsg (WsText []))"

lemma same_wire_read:
  assumes "same_wire t u"
  shows "transport_poll X ms t w = ques (ws_general_poll_next X (Some (now w + unat ms)) (wire_conn t) w) (\<lambda>r w.
       case r of Elapsed \<Rightarrow> (Err PingTimeout, w) | InTime b \<Rightarrow> (ok_or b IncompletePacket, w))"
    and "async_transport_next X dl u w =
      (let (r, w) = ws_general_poll_next X dl (wire_conn t) w in (r, u, w))"
    and same_wire_emit: "transport_emit X t d bin w = ws_general_emit X (wire_conn t) d bin w"
      "async_transport_emit X u d bin w = ws_general_emit X (wire_conn t) d bin w"
  using assms
  by (cases t; cases u; simp add: ws_poll_def wss_poll_def async_ws_poll_next_def async_wss_poll_next_def
      async_ws_stream_next_def async_wss_stream_next_def ws_emit_def wss_emit_def async_ws_emit_def async_wss_emit_def)+

lemma same_time_left:
  assumes "engines_alike f e s st" and "now v = now w"
  shows "eio_time_to_next_ping (e, w) = Ok (async_time_to_next_ping (s, v))"
  using assms by (auto simp: engines_alike_def eio_time_to_next_ping_def async_time_to_next_ping_def Let_def)

lemma frames_not_empty:
  assumes "frames_full X" and "ws_poll_loop n X dl c w = (Ok (InTime (Some d)), w')"
  shows "d \<noteq> []"
  using assms(2)
proof (induction n arbitrary: w)
  case (Suc n)
  obtain i w1 where r: "ws_recv X dl c w = (i, w1)" by fastforce
  have "ws_item \<noteq> WsMsg (WsText [])" if "i = InTime ws_item" for ws_item
    using assms(1) r that by (auto simp: ws_recv_def frames_full_def case_prod_beta Let_def split: if_splits)
  with Suc r show ?case
    by (auto simp: ws_poll_loop_Suc in_time_def ws_binary_packet_def outcome_simps split: timed.splits option.splits
        elim!: ws_read.elims)
qed simp

text \<open>
  The answers of a poll. They are equal, but at the end of the connection, which is an error for the
  blocking client; on a late ping, where the asynchronous client tells the error of the disconnect
  if there is one; and on an open or pong packet, where the blocking client panics.
\<close>

fun answers_alike :: "(eio_error, eio_packet option) outcome \<Rightarrow> (eio_error, eio_packet option) outcome \<Rightarrow> bool" where
  "answers_alike (Ok (Some p)) r = (r = Ok (Some p))"
| "answers_alike (Ok None) r = False"
| "answers_alike (Err x) r = (r = Err x \<or> x = IncompletePacket \<and> r = Ok None \<or> x = PingTimeout \<and> (\<exists>y. r = Err y))"
| "answers_alike Panic r = (r = Err InvalidPacket)"
| "answers_alike Hang r = (r = Hang)"

subsection \<open>One poll\<close>

lemma payload_not_Nil:
  assumes "eio_payload_try_from B d = Ok ps"
  shows "ps \<noteq> []"
proof
  assume "ps = []"
  with assms show False
    by (cases "split_on SEPARATOR d")
       (auto simp: eio_payload_try_from_def and_then_Ok_iff simp del: collect_results_map_Ok)
qed

lemma payload_returned: "returned (eio_payload_try_from B d)"
  unfolding eio_payload_try_from_def by (rule collect_results_returned) auto

lemma ws_read_returned: "ws_poll_loop n X dl c w = (Panic, w') \<Longrightarrow> False"
proof (induction n arbitrary: w)
  case (Suc n)
  then show ?case
    by (auto simp: ws_poll_loop_Suc in_time_def split: prod.splits timed.splits option.splits elim!: ws_read.elims)
qed simp

lemma async_socket_disconnect_returned: "returned (fst (async_socket_disconnect X (s, w)))"
proof -
  have "returned (fst (async_disconnect_end X t (s, w)))" for t s
    using async_transport.send_returned
    by (auto simp: async_disconnect_end_def within_ms_def Let_def case_prod_beta)
  then show ?thesis
    by (simp add: async_socket_disconnect_def async_disconnect_begin_def split: option.split)
qed

lemma engines_poll_alike:
  assumes alike: "engines_alike f e s st" and full: "frames_full X" and fuel: "2 \<le> loop_fuel X"
    and same: "alike_under f w v"
    and poll: "eio_socket_poll X (e, w) = (r, e1, w1)"
    and stream: "as_stream_next X (Some st) (s, v) = (ra, st1, s1, v1)"
  shows "r \<noteq> Panic \<and> answers_alike r ra \<and>
    (is_ok r \<longrightarrow> alike_under f w1 v1 \<and> (\<exists>st2. st1 = Some st2 \<and> engines_alike f e1 s1 st2))"
proof -
  obtain n where n: "loop_fuel X = Suc (Suc n)" using fuel by (metis Suc_le_D numeral_2_eq_2 Suc_le_mono)
  show ?thesis
  proof (cases "st_packets st")
    case (Cons p ps)
    with alike have "es_connected e" "es_remaining e = Some (p # ps)" "\<not> st_over st"
      by (auto simp: engines_alike_def)
    with Cons poll stream n alike same show ?thesis
      by (auto simp: eio_socket_poll_def as_stream_next_def packet_stream_next_def engines_alike_def)
  next
    case Nil
    let ?ms = "async_time_to_next_ping (s, v)"
    have time: "now v = now w" using same by (rule alike_under_now)
    obtain i w2 where i: "ws_poll_loop (loop_fuel X) X (Some (now w + unat ?ms)) (wire_conn (es_transport e)) w = (i, w2)"
      by fastforce
    from ws_poll_loop_alike [OF same i] obtain v2 where
      v2: "ws_poll_loop (loop_fuel X) X (Some (now w + unat ?ms)) (wire_conn (es_transport e)) v = (i, v2)"
        "alike_under f w2 v2" by blast
    have wire: "same_wire (es_transport e) (st_transport st)" using alike by (simp add: engines_alike_def)
    have rem: "map_option eio_iter_next (es_remaining e) \<in> {None, Some (None, [])}"
      using alike Nil by (auto simp: engines_alike_def)
    have conn: "es_connected e" "\<not> st_over st" using alike by (simp_all add: engines_alike_def)
    have blocking: "eio_socket_poll X (e, w) = (case (ques (i, w2) (\<lambda>r w.
         case r of Elapsed \<Rightarrow> (Err PingTimeout, w) | InTime b \<Rightarrow> (ok_or b IncompletePacket, w))) of
           (Ok d, w) \<Rightarrow>
             if d = [] then eio_poll_loop (Suc n) X (e, w)
             else ques (eio_payload_try_from (b64 X) d, e, w) (\<lambda>ps (e, w).
                 case eio_iter_next ps of
                   (Some p, rest) \<Rightarrow> (Ok (Some p), e\<lparr>es_remaining := Some rest\<rparr>, w)
                 | (None, rest) \<Rightarrow> eio_poll_loop (Suc n) X (e, w))
         | (Err x, w) \<Rightarrow> (Err x, e, w) | (Panic, w) \<Rightarrow> (Panic, e, w) | (Hang, w) \<Rightarrow> (Hang, e, w))"
      using rem conn(1) i same_time_left [OF alike time] n
      by (auto simp: eio_socket_poll_def same_wire_read(1) [OF wire] ws_general_poll_next_def
          split del: if_split)
    have next_read: "async_transport_next X (Some (now v + unat ?ms)) (st_transport st) v = (i, st_transport st, v2)"
      using v2(1) by (simp add: same_wire_read(2) [OF wire] ws_general_poll_next_def time)
    consider (elapsed) "i = Ok Elapsed" | (ended) "i = Ok (InTime None)" | (frame) d where "i = Ok (InTime (Some d))"
      | (error) x where "i = Err x" | (hang) "i = Hang"
      using ws_read_returned i by (cases i; metis timed.exhaust option.exhaust)
    then show ?thesis
    proof cases
      case elapsed
      obtain rd sd wd where d: "async_socket_disconnect X (s, v2) = (rd, sd, wd)"
        by (cases "async_socket_disconnect X (s, v2)") auto
      then have "returned rd" using async_socket_disconnect_returned [of X s v2] by simp
      with d show ?thesis using elapsed poll stream blocking next_read conn Nil n
        by (cases rd) (auto simp: as_stream_next_def packet_stream_next_def)
    next
      case (frame d)
      with i frames_not_empty [OF full] have "d \<noteq> []" by blast
      have "returned (eio_payload_try_from (b64 X) d)" by (rule payload_returned)
      then consider (ok) p ps where "eio_payload_try_from (b64 X) d = Ok (p # ps)"
        | (bad) x where "eio_payload_try_from (b64 X) d = Err x"
        using payload_not_Nil [of "b64 X" d] by (cases "eio_payload_try_from (b64 X) d") (auto simp: neq_Nil_conv)
      then show ?thesis using frame poll stream blocking next_read conn Nil n alike \<open>d \<noteq> []\<close> v2(2)
        by cases (auto simp: as_stream_next_def packet_stream_next_def parse_payload_def engines_alike_def)
    qed (use poll stream blocking next_read conn Nil n in
        \<open>auto simp: as_stream_next_def packet_stream_next_def\<close>)
  qed
qed

subsection \<open>The two clients\<close>

text \<open>The generator of the asynchronous client is in the stream, or has not been polled and will start it.\<close>

definition clients_alike :: "(effect \<Rightarrow> effect) \<Rightarrow> eio_socket \<Rightarrow> async_client \<Rightarrow> bool" where
  "clients_alike f e c \<longleftrightarrow> (\<exists>st. engines_alike f e (ac_socket c) st \<and>
     (ac_gen c = GenRunning (Some st) \<or> ac_gen c = GenNew \<and> as_stream (ac_socket c) = Some st))"

lemma engines_emit_alike:
  assumes "engines_alike f e s st"
    and "alike_under f w v" and "eio_socket_emit X p (e, w) = (r, e1, w1)"
  shows "\<exists>v1. async_socket_emit X p (s, v) = (r, s, v1) \<and> alike_under f w1 v1"
proof -
  let ?bin = "packet_id p = MessageBinary"
  let ?d = "if ?bin then data p else eio_packet_into_bytes (b64 X) p"
  have wire: "same_wire (es_transport e) (st_transport st)" and on: "told f (es_on_error e)"
    using assms(1) unfolding engines_alike_def by blast+
  obtain q w2 where q: "ws_general_emit X (wire_conn (es_transport e)) ?d ?bin w = (q, w2)" by fastforce
  from ws_general_emit_alike [OF assms(2) q] obtain v2 where
    v2: "ws_general_emit X (wire_conn (es_transport e)) ?d ?bin v = (q, v2)" "alike_under f w2 v2" by blast
  have sends: "transport_emit X (es_transport e) ?d ?bin w = (q, w2)"
    "async_transport_emit X (st_transport st) ?d ?bin v = (q, v2)"
    using q v2(1) by (simp_all only: same_wire_emit [OF wire])
  with assms(1,3) alike_under_call [OF v2(2) on] v2(2) show ?thesis
    by (cases q) (auto simp: engines_alike_def eio_socket_emit_def async_socket_emit_def async_emit_begin_def
        async_emit_finish_def eio_call_error_callback_def async_call_error_callback_def Let_def)
qed

lemma clients_poll_alike:
  assumes alike: "clients_alike f e c" and full: "frames_full X" and fuel: "2 \<le> loop_fuel X"
    and same: "alike_under f w v"
    and poll: "eio_client_poll X (e, w) = (r, e1, w1)" and strm: "async_client_next X (c, v) = (ra, c1, v1)"
  shows "answers_alike r ra \<and>
    (\<forall>p. r = Ok (Some p) \<longrightarrow> alike_under f w1 v1 \<and> (packet_id p \<noteq> Close \<longrightarrow> clients_alike f e1 c1))"
proof -
  from alike obtain st where st: "engines_alike f e (ac_socket c) st"
    "async_client_next X (c, v) = async_client_step X (Some st) (c, v)"
    by (auto simp: clients_alike_def async_client_next_def)
  obtain q e2 w2 where q: "eio_socket_poll X (e, w) = (q, e2, w2)" by (cases "eio_socket_poll X (e, w)") auto
  obtain qa st2 s2 v2 where qa: "as_stream_next X (Some st) (ac_socket c, v) = (qa, st2, s2, v2)"
    by (cases "as_stream_next X (Some st) (ac_socket c, v)") auto
  note step = engines_poll_alike [OF st(1) full fuel same q qa]
  note strm' = strm [unfolded st(2) async_client_step_def]
  show ?thesis
  proof (cases q)
    case (Ok a)
    with step obtain p where a: "a = Some p" "qa = Ok (Some p)" by (cases a) auto
    with step Ok obtain st3 where st3: "alike_under f w2 v2" "st2 = Some st3" "engines_alike f e2 s2 st3" by auto
    let ?w = "call_opt (es_on_packet e2) (ArgPacket p) w2" and ?v = "spawn_opt (es_on_packet e2) (ArgPacket p) v2"
    let ?e = "e2\<lparr>es_last_ping := now ?w\<rparr>" and ?s = "s2\<lparr>as_last_ping := now ?v\<rparr>"
    have on: "as_on_packet s2 = es_on_packet e2" "as_on_data s2 = es_on_data e2" "as_on_close s2 = es_on_close e2"
      and told: "told f (es_on_packet e2)" "told f (es_on_data e2)" "told f (es_on_close e2)"
      using st3(3) unfolding engines_alike_def by auto
    have wv: "alike_under f ?w ?v" by (rule alike_under_call [OF st3(1) told(1)])
    then have "now ?v = now ?w" by (rule alike_under_now)
    with st3(3) have pinged: "engines_alike f ?e ?s st3" by (auto simp: engines_alike_def)
    have kept: "clients_alike f g (c\<lparr>ac_socket := u, ac_gen := GenRunning (Some st3)\<rparr>)" if "engines_alike f g u st3" for g u
      using that by (auto simp: clients_alike_def)
    show ?thesis
    proof (cases "packet_id p = Ping")
      case True
      obtain re e4 w4 where em: "eio_socket_emit X (eio_packet_new Pong '''') (?e, ?w) = (re, e4, w4)"
        by (cases "eio_socket_emit X (eio_packet_new Pong '''') (?e, ?w)") auto
      then have e4: "e4 = ?e" "returned re"
        using eio_socket_emit_frame(1,3) [of X "eio_packet_new Pong ''''" ?e ?w] by simp_all
      from engines_emit_alike [OF pinged wv em] obtain v4 where
        "async_socket_emit X (eio_packet_new Pong '''') (?s, ?v) = (re, ?s, v4)" "alike_under f w4 v4" by blast
      with True poll strm' qa q a st3(2) on em e4 kept [OF pinged] show ?thesis
        by (cases re) (auto simp: eio_client_poll_packet async_handle_incoming_def async_handle_packet_def async_pinged_def
            eio_client_emit_def Ok)
    next
      case False
      then show ?thesis
        using poll strm' qa q a st3(2) on kept [OF st3(3)] wv
          alike_under_call [OF wv told(2), of "ArgBytes (data p)"] alike_under_call [OF wv told(3), of ArgUnit]
        by (cases "packet_id p") (auto simp: eio_client_poll_packet async_handle_incoming_def async_handle_packet_def
            async_handle_data_def async_handle_close_def Ok Let_def)
    qed
  qed (use step poll q qa strm' in \<open>auto simp: eio_client_poll_def split: outcome.splits\<close>)
qed

text \<open>A client asked for its next packet several times in a row.\<close>

fun asked :: "nat \<Rightarrow> ('s \<Rightarrow> 'r \<times> 's) \<Rightarrow> 's \<Rightarrow> 'r list \<times> 's" where
  "asked 0 f s = ([], s)"
| "asked (Suc n) f s = (let (r, s) = f s; (rs, s) = asked n f s in (r # rs, s))"

abbreviation delivered :: "eio_packet list \<Rightarrow> (eio_error, eio_packet option) outcome list" where
  "delivered ps \<equiv> map (\<lambda>p. Ok (Some p)) ps"

lemma answers_alike_packet: "answers_alike r ra \<Longrightarrow> r = Ok (Some p) \<longleftrightarrow> ra = Ok (Some p)"
  by (cases "(r, ra)" rule: answers_alike.cases) auto

text \<open>
  C5. The two engines are one protocol. Over a websocket with the same answers, set up alike, the
  asynchronous client gives exactly the packets the blocking one gives, at the same instants and after
  the same frames sent (its pongs), and it spawns its callbacks in the order and at the points at which
  the blocking client calls them: with spawns read as calls, the worlds are equal. (When a spawned
  callback runs is up to the runtime, and not claimed.) This is for runs of packets none of which is
  a close of the engine, with both sockets connected. What comes after those packets agrees as
  well, but for three differences in the code: the end of the connection, a late ping, and a packet only a
  client may send. There is a fourth, which \<open>frames_full\<close> excludes: after a text frame that is empty the
  blocking client asks again, and the asynchronous one ends with an error.
\<close>

theorem engines_agree:
  assumes "clients_alike settle e c" and "frames_full X" and "2 \<le> loop_fuel X" and "Close \<notin> packet_id ` set ps"
    and "settled v = settled w"
  shows "let (rs, ew) = asked (length ps) (eio_client_poll X) (e, w);
             (ras, cv) = asked (length ps) (async_client_next X) (c, v)
    in (rs = delivered ps \<longleftrightarrow> ras = delivered ps) \<and>
       (rs = delivered ps \<longrightarrow> settled (snd cv) = settled (snd ew) \<and>
          answers_alike (fst (eio_client_poll X ew)) (fst (async_client_next X cv)))"
  using assms(1,4,5)
proof (induction ps arbitrary: e c w v)
  case Nil
  obtain r e1 w1 where r: "eio_client_poll X (e, w) = (r, e1, w1)" by (cases "eio_client_poll X (e, w)") auto
  obtain ra c1 v1 where ra: "async_client_next X (c, v) = (ra, c1, v1)" by (cases "async_client_next X (c, v)") auto
  from clients_poll_alike [OF Nil(1) assms(2,3) _ r ra] r ra Nil(3) show ?case by (simp add: alike_settled)
next
  case (Cons p ps)
  obtain r e1 w1 where r: "eio_client_poll X (e, w) = (r, e1, w1)" by (cases "eio_client_poll X (e, w)") auto
  obtain ra c1 v1 where ra: "async_client_next X (c, v) = (ra, c1, v1)" by (cases "async_client_next X (c, v)") auto
  have "alike_under settle w v" using Cons.prems(3) by (simp add: alike_settled)
  note step = clients_poll_alike [OF Cons.prems(1) assms(2,3) this r ra]
  then have same: "r = Ok (Some p) \<longleftrightarrow> ra = Ok (Some p)" using answers_alike_packet by blast
  show ?case
  proof (cases "r = Ok (Some p)")
    case True
    with step Cons.prems(2) have "settled v1 = settled w1" "clients_alike settle e1 c1" by (auto simp: alike_settled)
    with Cons.IH [of e1 c1 v1 w1] Cons.prems(2) True same r ra show ?thesis
      by (simp add: case_prod_beta Let_def)
  next
    case False
    with same r ra show ?thesis by (auto simp: case_prod_beta Let_def)
  qed
qed


subsection \<open>A short talk\<close>

text \<open>A server that sends a message and a ping, and then goes away.\<close>

definition demo_talk :: ext where
  "demo_talk = demo_items [(1, WsMsg (WsText ''4hi'')), (2, WsMsg (WsText ''2''))]"

definition demo_twin :: "callback option \<Rightarrow> callback option \<Rightarrow> async_client" where
  "demo_twin er pa = async_client_new (demo_async_ws\<lparr>as_on_error := er, as_on_packet := pa, as_connected := True\<rparr>)"

definition demo_first :: "callback option \<Rightarrow> callback option \<Rightarrow> eio_socket" where
  "demo_first er pa = (demo_socket (Websocket demo_ws))\<lparr>es_on_error := er, es_on_packet := pa\<rparr>"

lemma demo_twin_alike: "told f er \<Longrightarrow> told f pa \<Longrightarrow> clients_alike f (demo_first er pa) (demo_twin er pa)"
  by (simp add: clients_alike_def engines_alike_def demo_twin_def demo_first_def async_client_new_def generator_new_def
      as_stream_def packet_stream_new_def demo_async_ws_def demo_socket_def)

lemma demo_talk_full: "frames_full demo_talk"
  by (auto simp: frames_full_def demo_talk_def nth_Cons split: nat.splits)

lemma demo_talk_polls:
  "fst (asked 2 (eio_client_poll demo_talk) (demo_first (Some 1) (Some 2), demo_world)) =
     delivered [eio_packet_new Message ''hi'', eio_packet_new Ping '''']"
  "trace (snd (snd (asked 2 (eio_client_poll demo_talk) (demo_first (Some 1) (Some 2), demo_world)))) =
     [DidCall 2 (ArgPacket (eio_packet_new Message ''hi'')), DidCall 2 (ArgPacket (eio_packet_new Ping '''')),
      DidSend 0 (WsText ''3'')]"
  by code_simp+

text \<open>The pong is sent behind the spawn of the callback for the ping, as it is behind the call.\<close>

theorem engines_agree_witness:
  "fst (asked 2 (async_client_next demo_talk) (demo_twin (Some 1) (Some 2), demo_world)) =
     delivered [eio_packet_new Message ''hi'', eio_packet_new Ping ''''] \<and>
   map settle (trace (snd (snd (asked 2 (async_client_next demo_talk) (demo_twin (Some 1) (Some 2), demo_world))))) =
     [DidCall 2 (ArgPacket (eio_packet_new Message ''hi'')), DidCall 2 (ArgPacket (eio_packet_new Ping '''')),
      DidSend 0 (WsText ''3'')]"
proof -
  let ?ps = "[eio_packet_new Message ''hi'', eio_packet_new Ping '''']"
  let ?ew = "snd (asked 2 (eio_client_poll demo_talk) (demo_first (Some 1) (Some 2), demo_world))"
  let ?cv = "snd (asked 2 (async_client_next demo_talk) (demo_twin (Some 1) (Some 2), demo_world))"
  have fuel: "2 \<le> loop_fuel demo_talk" by (simp add: demo_talk_def)
  have close: "Close \<notin> packet_id ` set ?ps" by (simp add: eio_packet_new_def)
  have two: "length ?ps = 2" by simp
  have alike: "clients_alike settle (demo_first (Some 1) (Some 2)) (demo_twin (Some 1) (Some 2))"
    by (rule demo_twin_alike) simp_all
  from engines_agree [OF alike demo_talk_full fuel close refl, unfolded two, of demo_world] demo_talk_polls(1)
  have "fst (asked 2 (async_client_next demo_talk) (demo_twin (Some 1) (Some 2), demo_world)) = delivered ?ps"
    "settled (snd ?cv) = settled (snd ?ew)"
    by (simp_all only: Let_def case_prod_beta) simp_all
  moreover have "map settle (trace (snd ?cv)) = map settle (trace (snd ?ew))"
    using arg_cong [OF calculation(2), of trace] by (simp add: settled_def)
  ultimately show ?thesis using demo_talk_polls(2) by simp
qed

end
