(* ===== verification/Sio_Agreement.thy ===== *)
theory Sio_Agreement
  imports Eio_Agreement Sio_Async_Client
begin

text \<open>
  The two socket.io clients side by side: the blocking one of \<^verbatim>\<open>socketio/src/client/raw_client.rs\<close>
  and the asynchronous one of \<^verbatim>\<open>socketio/src/asynchronous/client/client.rs\<close>, each on its own engine.
  A blocking client runs the callbacks of a packet before it asks for the next one; the asynchronous
  one spawns them as tasks, which its scheduler may run later. The theories below both say what they
  do; here the asynchronous client is shown to have, among its schedules, every run of the blocking
  one: the layers are related one after the other (engine, socket, client) and the runs composed.
\<close>


subsection \<open>The two sockets\<close>

text \<open>
  The same engine below, without callbacks of its own (the builders of the socket.io clients register
  none), the same state of the session, and a stream that has not ended.
\<close>

definition sio_sockets_alike :: "sio_socket \<Rightarrow> sio_async_socket \<Rightarrow> bool" where
  "sio_sockets_alike s a \<longleftrightarrow> clients_alike id (ss_engine s) (sa_engine a) \<and> ss_connected s = sa_connected a \<and>
     \<not> sa_over a \<and> \<not> sa_panicked a"

text \<open>
  One packet of the engine. The blocking socket asks \<^verbatim>\<open>InnerClient::poll\<close>, the asynchronous one the stream
  of its engine; a packet the first gets is the packet the second gets.
\<close>

lemma on_engine_next_alike:
  assumes "sio_sockets_alike s a" and "frames_full X" and "2 \<le> loop_fuel X"
    and "on_engine (eio_client_poll X) (s, w) = (Ok (Some p), s1, w1)"
  shows "\<exists>a1. on_async_engine (async_client_next X) (a, w) = (Ok (Some p), a1, w1) \<and>
    (packet_id p \<noteq> Close \<longrightarrow> sio_sockets_alike s1 a1)"
proof -
  obtain r e w2 where r: "eio_client_poll X (ss_engine s, w) = (r, e, w2)"
    by (cases "eio_client_poll X (ss_engine s, w)") auto
  obtain ra c wa where ra: "async_client_next X (sa_engine a, w) = (ra, c, wa)"
    by (cases "async_client_next X (sa_engine a, w)") auto
  have "clients_alike id (ss_engine s) (sa_engine a)" using assms(1) by (simp add: sio_sockets_alike_def)
  from clients_poll_alike [OF this assms(2,3) alike_under_refl r ra] r ra assms(1,4) show ?thesis
    by (cases r) (auto simp: alike_id on_engine_def on_async_engine_def sio_sockets_alike_def)
qed

lemma closed_engine_poll:
  assumes "\<not> es_connected (ss_engine s)"
  shows "on_engine (eio_client_poll X) (s, w) \<noteq> (Ok (Some p), s1, w1)"
  using assms by (cases "loop_fuel X") (auto simp: on_engine_def eio_client_poll_def eio_socket_poll_def)

text \<open>Past a close of the engine the blocking socket gets no further packet.\<close>

lemma close_closes_engine:
  assumes "on_engine (eio_client_poll X) (s, w) = (Ok (Some p), s1, w1)" and "packet_id p = Close"
  shows "\<not> es_connected (ss_engine s1)"
proof -
  obtain q e w2 where q: "eio_socket_poll X (ss_engine s, w) = (q, e, w2)"
    by (cases "eio_socket_poll X (ss_engine s, w)") auto
  with assms(1) obtain p' where p': "q = Ok (Some p')"
    by (cases q) (auto simp: on_engine_def eio_client_poll_def split: option.splits)
  with q assms show ?thesis
    by (cases "packet_id p'") (auto simp: on_engine_def eio_client_poll_packet Let_def elim!: ques.elims split: prod.splits)
qed

text \<open>A socket.io packet: its text frame, and the binary frames it announces.\<close>

lemma read_attachments_alike:
  assumes "frames_full X" and "2 \<le> loop_fuel X" and "sio_sockets_alike s a"
    and "sio_read_attachments k X as (s, w) = (Ok bs, s1, w1)"
  shows "\<exists>a1. sio_async_read_attachments k X as (a, w) = (Ok bs, a1, w1) \<and> sio_sockets_alike s1 a1"
  using assms(3,4)
proof (induction k arbitrary: as s a w)
  case (Suc k)
  obtain r s2 w2 where r: "on_engine (eio_client_poll X) (s, w) = (r, s2, w2)"
    by (cases "on_engine (eio_client_poll X) (s, w)") auto
  with Suc.prems obtain p where p: "r = Ok (Some p)" "packet_id p \<in> {MessageBinary, Message}"
    "sio_read_attachments k X (as @ [data p]) (s2, w2) = (Ok bs, s1, w1)"
    by (cases r) (auto split: option.splits if_splits)
  from on_engine_next_alike [OF Suc.prems(1) assms(1,2) r [unfolded p(1)]] p(2) obtain a2 where
    "on_async_engine (async_client_next X) (a, w) = (Ok (Some p), a2, w2)" "sio_sockets_alike s2 a2" by auto
  with Suc.IH p show ?case by auto
qed auto

lemma handle_packet_alike:
  assumes "frames_full X" and "2 \<le> loop_fuel X" and "sio_sockets_alike s a"
    and "sio_handle_engineio_packet X ep (s, w) = (Ok p, s1, w1)"
  shows "\<exists>a1. sio_async_handle_engineio_packet X ep (a, w) = (Ok p, a1, w1) \<and> sio_sockets_alike s1 a1"
proof -
  from assms(4) obtain q where q: "sio_packet_try_from (json X) (data ep) = Ok q"
    by (cases "sio_packet_try_from (json X) (data ep)") (auto simp: sio_handle_engineio_packet_def)
  show ?thesis
  proof (cases "0 < attachment_count q")
    case True
    obtain r s2 w2 where r: "sio_read_attachments (unat (attachment_count q)) X [] (s, w) = (r, s2, w2)"
      by (cases "sio_read_attachments (unat (attachment_count q)) X [] (s, w)") auto
    with True q assms(4) obtain as where "r = Ok as" "p = q\<lparr>attachments := Some as\<rparr>" "s1 = s2" "w1 = w2"
      by (cases r) (auto simp: sio_handle_engineio_packet_def)
    with read_attachments_alike [OF assms(1-3)] r q True show ?thesis
      by (fastforce simp: sio_async_handle_engineio_packet_def)
  next
    case False
    with q assms(3,4) show ?thesis by (auto simp: sio_handle_engineio_packet_def sio_async_handle_engineio_packet_def)
  qed
qed

lemma poll_loop_alike:
  assumes "frames_full X" and "2 \<le> loop_fuel X" and "sio_sockets_alike s a"
    and "sio_poll_loop n X (s, w) = (Ok (Some p), s1, w1)"
  shows "\<exists>a1. sio_async_stream_loop n X (a, w) = (Ok (Some p), a1, w1) \<and> sio_sockets_alike s1 a1"
  using assms(3,4)
proof (induction n arbitrary: s a w)
  case (Suc n)
  obtain r s2 w2 where r: "on_engine (eio_client_poll X) (s, w) = (r, s2, w2)"
    by (cases "on_engine (eio_client_poll X) (s, w)") auto
  with Suc.prems obtain ep where ep: "r = Ok (Some ep)" by (cases r) (auto split: option.splits)
  from on_engine_next_alike [OF Suc.prems(1) assms(1,2) r [unfolded ep]] obtain a2 where
    a2: "on_async_engine (async_client_next X) (a, w) = (Ok (Some ep), a2, w2)"
      "packet_id ep \<noteq> Close \<longrightarrow> sio_sockets_alike s2 a2" by auto
  show ?case
  proof (cases "packet_id ep \<in> {Message, MessageBinary}")
    case True
    obtain q s3 w3 where q: "sio_handle_engineio_packet X ep (s2, w2) = (q, s3, w3)"
      by (cases "sio_handle_engineio_packet X ep (s2, w2)") auto
    with True r ep Suc.prems(2) have "q = Ok p" "s1 = sio_handle_socketio_packet p s3" "w1 = w3"
      by (cases q; auto)+
    with q True a2 handle_packet_alike [OF assms(1,2)] obtain a3 where
      "sio_async_handle_engineio_packet X ep (a2, w2) = (Ok p, a3, w3)" "sio_sockets_alike s3 a3" by fastforce
    with True a2 \<open>s1 = _\<close> \<open>w1 = w3\<close> show ?thesis
      by (cases "packet_type p") (auto simp: sio_handle_socketio_packet_def sio_async_handle_socketio_packet_def sio_sockets_alike_def)
  next
    case False
    with r ep Suc.prems(2) have rest: "sio_poll_loop n X (s2, w2) = (Ok (Some p), s1, w1)" by auto
    have "packet_id ep \<noteq> Close"
    proof
      assume "packet_id ep = Close"
      with close_closes_engine r ep have "\<not> es_connected (ss_engine s2)" by blast
      with rest show False
        using closed_engine_poll [of s2 X w2] by (cases n) (auto elim!: ques.elims split: option.splits, blast)
    qed
    with a2 Suc.IH rest False show ?thesis by auto
  qed
qed simp

lemma sio_next_alike:
  assumes "frames_full X" and "2 \<le> loop_fuel X" and "sio_sockets_alike s a"
    and "sio_socket_poll X (s, w) = (Ok (Some p), s1, w1)"
  shows "\<exists>a1. sio_async_next X (a, w) = (Ok (Some p), a1, w1) \<and> sio_sockets_alike s1 a1"
  using poll_loop_alike [OF assms(1-3), of "loop_fuel X" w p s1 w1] assms(3,4)
  by (auto simp: sio_socket_poll_def sio_async_next_def sio_sockets_alike_def)

subsection \<open>The two clients\<close>

text \<open>
  The builders carry the same callbacks, no task of the asynchronous client is waiting, its reader is
  at work, and no two pending acknowledgements have one id.
\<close>

definition raw_asio_alike :: "raw_client \<Rightarrow> asio_client \<Rightarrow> bool" where
  "raw_asio_alike c a \<longleftrightarrow> same_setup c a \<and> sio_sockets_alike (rc_socket c) (xc_socket a) \<and>
     xc_tasks a = [] \<and> xc_reader a = Reading \<and> xc_reason a \<noteq> ReasonManual \<and> distinct (map ak_id (rc_acks c))"

lemma asio_reaches_trans: "asio_reaches X R a b \<Longrightarrow> asio_reaches X R b c \<Longrightarrow> asio_reaches X R a c"
  by (auto simp: asio_reaches_def)

text \<open>Receiving one packet: the reader's step, and the state it is dispatched in.\<close>

lemma reader_receives:
  assumes "frames_full X" and "2 \<le> loop_fuel X" and "raw_asio_alike c a"
    and "on_sio (sio_socket_poll X) (c, w) = (Ok (Some p), c1, w1)"
  shows "\<exists>a1. asio_step X R (a, w) (asio_handle_socketio_packet X p a1, w1) \<and> raw_asio_alike c1 a1 \<and>
    rc_nsp c1 = rc_nsp c"
proof -
  from assms(4) obtain s1 where s1: "sio_socket_poll X (rc_socket c, w) = (Ok (Some p), s1, w1)"
    "c1 = c\<lparr>rc_socket := s1\<rparr>" by (auto simp: on_sio_def split: prod.splits)
  have "sio_sockets_alike (rc_socket c) (xc_socket a)" using assms(3) by (simp add: raw_asio_alike_def)
  from sio_next_alike [OF assms(1,2) this s1(1)] obtain b where
    b: "sio_async_next X (xc_socket a, w) = (Ok (Some p), b, w1)" "sio_sockets_alike s1 b" by blast
  have "asio_step X R (a, w) (asio_handle_socketio_packet X p (a\<lparr>xc_socket := b\<rparr>), w1)"
    using asio_step.reader [of X R a w] b(1) assms(3)
    by (simp add: raw_asio_alike_def asio_stream_next_def on_asio_def)
  moreover have "raw_asio_alike c1 (a\<lparr>xc_socket := b\<rparr>)"
    using assms(3) b(2) s1(2) by (auto simp: raw_asio_alike_def same_setup_def)
  ultimately show ?thesis using s1(2) by auto
qed

text \<open>
  A poll of the blocking client skips the packets of other namespaces; the asynchronous client drops
  them too, and runs the tasks of the packet that is its own before it reads on.
\<close>

lemma raw_poll_loop_alike:
  assumes "quiet_users X" and "frames_full X" and "2 \<le> loop_fuel X" and "raw_asio_alike c a"
    and "raw_poll_loop n X (c, w) = (Ok (Some p), c1, w1)"
  shows "\<exists>a1. asio_reaches X R (a, w) (a1, w1) \<and> raw_asio_alike c1 a1"
  using assms(4,5)
proof (induction n arbitrary: c a w)
  case (Suc n)
  obtain r c2 w2 where r: "on_sio (sio_socket_poll X) (c, w) = (r, c2, w2)"
    by (cases "on_sio (sio_socket_poll X) (c, w)") auto
  with Suc.prems(2) obtain q where q: "r = Ok (Some q)"
    by (cases r) (auto elim!: ques.elims split: option.splits)
  from reader_receives [OF assms(2,3) Suc.prems(1) r [unfolded q]] obtain a2 where
    a2: "asio_step X R (a, w) (asio_handle_socketio_packet X q a2, w2)" "raw_asio_alike c2 a2" by blast
  then have set: "same_setup c2 a2" "xc_tasks a2 = []" "distinct (map ak_id (rc_acks c2))"
    by (simp_all add: raw_asio_alike_def)
  show ?case
  proof (cases "pkt_nsp q = rc_nsp c2")
    case True
    from async_dispatch_agrees [OF assms(1) set, of q w2 R] obtain c3 w3 a3 where
      d: "raw_handle_socketio_packet X q (c2, w2) = (Ok (), c3, w3)"
        "asio_reaches X R (asio_handle_socketio_packet X q a2, w2) (a3, w3)" "dispatched_alike c2 a2 c3 a3" by blast
    with True r q Suc.prems(2) have "c1 = c3" "w1 = w3" by auto
    moreover have "raw_asio_alike c3 a3" using d(3) a2(2) by (simp add: raw_asio_alike_def dispatched_alike_def)
    ultimately show ?thesis using asio_reaches_step [OF a2(1) d(2)] by blast
  next
    case False
    with set(1) have "asio_handle_socketio_packet X q a2 = a2"
      by (simp add: asio_handle_socketio_packet_def same_setup_def)
    moreover from False r q Suc.prems(2) have "raw_poll_loop n X (c2, w2) = (Ok (Some p), c1, w1)" by auto
    from Suc.IH [OF a2(2) this] obtain a1 where "asio_reaches X R (a2, w2) (a1, w1)" "raw_asio_alike c1 a1" by blast
    ultimately show ?thesis using asio_reaches_step [OF a2(1)] by auto
  qed
qed simp

text \<open>
  C2. The asynchronous client refines the blocking one, through all three layers, on runs without the
  inputs on which the two differ. If a sequence of polls of the blocking client delivers packets, some
  schedule of the asynchronous client with the same callbacks over the same websocket reads the same
  frames, calls the same callbacks with the same arguments in the same order and sends the same
  answers: it ends in the same world, with the two clients again alike.
  Conditions: no text frame on the wire is empty (\<open>frames_full\<close>; there the asynchronous stream ends and
  the blocking client reads on); the ids of the outstanding acknowledgements are pairwise distinct (of
  two with one id the blocking client takes the first and the asynchronous one both); the callbacks do
  not use the client; the engines have no callbacks of their own, as the socket.io builders leave
  them.
\<close>

theorem clients_agree:
  assumes "quiet_users X" and "frames_full X" and "2 \<le> loop_fuel X" and "raw_asio_alike c a"
    and "asked (length ps) (raw_poll X) (c, w) = (map (\<lambda>p. Ok (Some p)) ps, c1, w1)"
  shows "\<exists>a1. asio_reaches X R (a, w) (a1, w1) \<and> raw_asio_alike c1 a1"
  using assms(4,5)
proof (induction ps arbitrary: c a w)
  case (Cons p ps)
  obtain r c2 w2 where r: "raw_poll X (c, w) = (r, c2, w2)" by (cases "raw_poll X (c, w)") auto
  with Cons.prems(2) have p: "r = Ok (Some p)" "asked (length ps) (raw_poll X) (c2, w2) = (map (\<lambda>p. Ok (Some p)) ps, c1, w1)"
    by (auto simp: case_prod_beta Let_def prod_eq_iff)
  from raw_poll_loop_alike [OF assms(1-3) Cons.prems(1) r [unfolded p(1) raw_poll_def]] obtain a2 where
    a2: "asio_reaches X R (a, w) (a2, w2)" "raw_asio_alike c2 a2" by blast
  from Cons.IH [OF a2(2) p(2)] obtain a1 where "asio_reaches X R (a2, w2) (a1, w1)" "raw_asio_alike c1 a1" by blast
  with asio_reaches_trans [OF a2(1)] show ?case by blast
qed (auto simp: asio_reaches_def)


subsection \<open>A server that takes its leave\<close>

text \<open>The disconnect packet of the namespace: both clients call their close callback and are done.\<close>

definition demo_leave :: ext where
  "demo_leave = demo_items [(1, WsMsg (WsText ''41''))]"

definition demo_raw_client :: raw_client where
  "demo_raw_client = demo_raw \<lparr>ss_engine = demo_first None None, ss_connected = True\<rparr> [EvClose \<mapsto> 3] (Some 4)"

definition demo_asio_client :: asio_client where
  "demo_asio_client = (demo_asio [] [EvClose \<mapsto> 3] [])\<lparr>
     xc_socket := \<lparr>sa_engine = demo_twin None None, sa_connected = True, sa_over = False, sa_panicked = False\<rparr>,
     xc_builder := (asio_builder_new ''bad'')\<lparr>ab_on := [EvClose \<mapsto> 3], ab_on_close := Some 4\<rparr>\<rparr>"

lemma demo_clients_alike: "raw_asio_alike demo_raw_client demo_asio_client"
  using demo_twin_alike [of id None None]
  by (simp add: raw_asio_alike_def same_setup_def sio_sockets_alike_def demo_raw_client_def demo_asio_client_def
      demo_raw_def demo_asio_def asio_client_new_def asio_builder_new_def)

lemma demo_leave_full: "frames_full demo_leave"
  by (auto simp: frames_full_def demo_leave_def)

lemma demo_leave_polls:
  "fst (asked 1 (raw_poll demo_leave) (demo_raw_client, demo_world)) =
     [Ok (Some (sio_packet_new Disconnect ''/'' None None 0 None))]"
  by code_simp


text \<open>The callback of the close event is called first, then the one of the session.\<close>

lemma demo_leave_trace:
  "trace (snd (snd (asked 1 (raw_poll demo_leave) (demo_raw_client, demo_world)))) =
     [DidCall 3 (ArgPayload (PText [JString ''io server disconnect''] None)),
      DidCall 4 (ArgClose (PText [JString ''io server disconnect''] None) 1)]"
  by code_simp

theorem clients_agree_witness:
  "\<exists>a1 w1. asio_reaches demo_leave (\<lambda>n h. reconnect_settings_new) (demo_asio_client, demo_world) (a1, w1) \<and>
     xc_tasks a1 = [] \<and>
     trace w1 = [DidCall 3 (ArgPayload (PText [JString ''io server disconnect''] None)),
      DidCall 4 (ArgClose (PText [JString ''io server disconnect''] None) 1)]"
proof -
  let ?p = "sio_packet_new Disconnect ''/'' None None 0 None"
  obtain c1 w1 where run: "asked (length [?p]) (raw_poll demo_leave) (demo_raw_client, demo_world) =
      (map (\<lambda>p. Ok (Some p)) [?p], c1, w1)"
    using demo_leave_polls by (cases "asked 1 (raw_poll demo_leave) (demo_raw_client, demo_world)") auto
  have "quiet_users demo_leave" "2 \<le> loop_fuel demo_leave"
    by (simp_all add: quiet_users_def demo_leave_def demo_items_def demo_ext_def)
  from clients_agree [OF this(1) demo_leave_full this(2) demo_clients_alike run]
  obtain a1 where "asio_reaches demo_leave (\<lambda>n h. reconnect_settings_new) (demo_asio_client, demo_world) (a1, w1)"
    "xc_tasks a1 = []" by (auto simp: raw_asio_alike_def)
  with demo_leave_trace run show ?thesis by auto
qed

end
