(* ===== verification/End_To_End.thy ===== *)
theory End_To_End
  imports Sio_Raw_Client Eio_Agreement
begin

text \<open>
  From one client to another. What a client emits is a sequence of frames on its websocket; a server
  that passes these frames on, in time, makes the other client call the callbacks of the event with
  the arguments that were emitted. The theory runs a packet through every layer of the sender and of
  the receiver: payload, packet, text, frames, and back.
\<close>


subsection \<open>Frames that are passed on\<close>

text \<open>What was sent on a websocket between two states of the world.\<close>

fun sent_frame :: "effect \<Rightarrow> ws_message list" where
  "sent_frame (DidSend c m) = [m]"
| "sent_frame e = []"

definition frames_between :: "world \<Rightarrow> world \<Rightarrow> ws_message list" where
  "frames_between w w' = concat (map sent_frame (drop (length (sent w)) (sent w')))"

text \<open>The items of connection \<open>c\<close> from the \<open>k\<close>th on are these frames, none later than \<open>dl\<close>.\<close>

fun relayed :: "ext \<Rightarrow> nat \<Rightarrow> nat \<Rightarrow> nat \<Rightarrow> ws_message list \<Rightarrow> bool" where
  "relayed Y c k dl [] = True"
| "relayed Y c k dl (m # ms) =
     (fst (net_recv Y c k) \<le> dl \<and> snd (net_recv Y c k) = WsMsg m \<and> relayed Y c (Suc k) dl ms)"

definition ping_deadline :: "eio_socket \<Rightarrow> nat" where
  "ping_deadline e = es_last_ping e + unat (es_max_ping_timeout e)"

text \<open>
  An engine that waits on its websocket, before its deadline; its packet and data callbacks are not
  set, as the socket.io builder leaves them.
\<close>

definition ws_listening :: "eio_socket \<Rightarrow> world \<Rightarrow> bool" where
  "ws_listening e v \<longleftrightarrow> es_connected e \<and> es_remaining e \<in> {None, Some []} \<and> is_websocket (es_transport e) \<and>
     es_on_packet e = None \<and> es_on_data e = None \<and> es_last_ping e \<le> now v \<and> now v \<le> ping_deadline e"

abbreviation conn_of :: "sio_socket \<Rightarrow> nat" where
  "conn_of s \<equiv> wire_conn (es_transport (ss_engine s))"

text \<open>The world after the next frame of connection \<open>c\<close> was read.\<close>

definition frame_read :: "ext \<Rightarrow> nat \<Rightarrow> world \<Rightarrow> world" where
  "frame_read Y c v = v\<lparr>now := max (now v) (fst (net_recv Y c (received v c))),
     received := (received v)(c := Suc (received v c))\<rparr>"

lemma frame_read_simps [simp, world_frames]:
  "now (frame_read Y c v) = max (now v) (fst (net_recv Y c (received v c)))"
  "received (frame_read Y c v) = (received v)(c := Suc (received v c))"
  "trace (frame_read Y c v) = trace v" "sent (frame_read Y c v) = sent v"
  by (simp_all add: frame_read_def sent_def)

lemma listening_time:
  assumes "ws_listening e v"
  shows "\<exists>ms. eio_time_to_next_ping (e, v) = Ok ms \<and> now v + unat ms = ping_deadline e"
proof -
  have "unat (es_max_ping_timeout e) < 2 ^ 64"
    using unsigned_less [of "es_max_ping_timeout e", where ?'a = nat] by simp
  with assms have "now v - es_last_ping e < 2 ^ 64" by (auto simp: ws_listening_def ping_deadline_def)
  from eio_time_to_next_ping_value [OF this] assms show ?thesis
    by (auto simp: ws_listening_def ping_deadline_def)
qed


subsection \<open>One frame\<close>

text \<open>The bytes the socket is given for a frame, and the packet they are.\<close>

lemma payload_of_message:
  assumes "SEPARATOR \<notin> set s" and "s \<noteq> []" and "b \<in> {CHR ''4'', CHR 0x04}"
  shows "eio_payload_try_from B (b # s) = Ok [eio_packet_new Message s]"
proof -
  have "b \<noteq> SEPARATOR" using assms(3) by auto
  with assms(1) have "split_on SEPARATOR (b # s) = [b # s]" by simp
  moreover have "byte_u8 b \<noteq> 98" "eio_packet_id_try_from (byte_u8 b) = Ok Message"
    using assms(3) by (auto simp: byte_u8_def eio_packet_id_try_from_def)
  ultimately show ?thesis using assms(2) by (simp add: eio_payload_try_from_def eio_packet_try_from_Cons)
qed

text \<open>A message on the wire: a text frame that begins with the digit of a message, or a binary frame.\<close>

fun message_frame :: "ws_message \<Rightarrow> bytes option" where
  "message_frame (WsText s) = (case s of c # r \<Rightarrow> if c = CHR ''4'' then Some r else None | [] \<Rightarrow> None)"
| "message_frame (WsBinary d) = Some d"
| "message_frame m = None"

lemma frame_polled:
  assumes "ws_listening e v" and "0 < loop_fuel Y" and "c = wire_conn (es_transport e)"
    and "relayed Y c (received v c) (ping_deadline e) (m # ms)"
    and "message_frame m = Some s" and "s \<noteq> []" and "SEPARATOR \<notin> set s"
  shows "eio_client_poll Y (e, v) =
      (Ok (Some (eio_packet_new Message s)), e\<lparr>es_remaining := Some []\<rparr>, frame_read Y c v)"
    and "ws_listening (e\<lparr>es_remaining := Some []\<rparr>) (frame_read Y c v)"
    and "relayed Y c (received (frame_read Y c v) c) (ping_deadline e) ms"
proof -
  obtain ms' where ms': "eio_time_to_next_ping (e, v) = Ok ms'" "now v + unat ms' = ping_deadline e"
    using listening_time [OF assms(1)] by blast
  obtain d where d: "ws_read (WsMsg m) = Some (Ok (Some d))" "d \<noteq> []"
      "eio_payload_try_from (b64 Y) d = Ok [eio_packet_new Message s]"
  proof -
    have four: "u8_byte (eio_packet_id_to_u8 Message) = CHR 0x04" by code_simp
    from assms(5) consider "m = WsText (CHR ''4'' # s)" | "m = WsBinary s"
      by (cases m) (auto split: list.splits if_splits)
    then show ?thesis
      using that payload_of_message [OF assms(7,6), of "CHR ''4''" "b64 Y"]
        payload_of_message [OF assms(7,6), of "CHR 0x04" "b64 Y"] four
      by cases (auto simp: ws_binary_packet_def)
  qed
  obtain t where t: "net_recv Y c (received v c) = (t, WsMsg m)" "t \<le> ping_deadline e"
    using assms(4) by (cases "net_recv Y c (received v c)") auto
  have v1: "ws_recv Y (Some (ping_deadline e)) c v = (InTime (WsMsg m), frame_read Y c v)"
    using t assms(1) by (auto simp: ws_recv_def past_def frame_read_def ws_listening_def Let_def)
  obtain n where n: "loop_fuel Y = Suc n" using assms(2) by (cases "loop_fuel Y") auto
  have "ws_general_poll_next Y (Some (now v + unat ms')) c v = (Ok (InTime (Some d)), frame_read Y c v)"
    using d(1) v1 by (simp add: ws_general_poll_next_def n ws_poll_loop_Suc ms'(2) in_time_def)
  moreover from assms(1) have "is_websocket (es_transport e)" by (simp add: ws_listening_def)
  ultimately have "transport_poll Y ms' (es_transport e) v = (Ok d, frame_read Y c v)"
    using assms(3) by (cases "es_transport e")
      (simp_all add: ws_poll_def wss_poll_def async_ws_poll_next_def async_wss_poll_next_def)
  then have "eio_socket_poll Y (e, v) =
      (Ok (Some (eio_packet_new Message s)), e\<lparr>es_remaining := Some []\<rparr>, frame_read Y c v)"
    using assms(1,2) ms'(1) d by (intro eio_poll_fetch) (auto simp: ws_listening_def)
  from eio_client_poll_packet [OF this] assms(1)
  show "eio_client_poll Y (e, v) =
      (Ok (Some (eio_packet_new Message s)), e\<lparr>es_remaining := Some []\<rparr>, frame_read Y c v)"
    by (simp add: ws_listening_def eio_packet_new_def call_opt_def)
  show "ws_listening (e\<lparr>es_remaining := Some []\<rparr>) (frame_read Y c v)"
    using assms(1) t by (auto simp: ws_listening_def ping_deadline_def)
  show "relayed Y c (received (frame_read Y c v) c) (ping_deadline e) ms" using assms(4) by simp
qed


subsection \<open>One packet\<close>

text \<open>A socket whose engine listens, and what a poll of it may change in the world.\<close>

definition sio_listening :: "sio_socket \<Rightarrow> world \<Rightarrow> bool" where
  "sio_listening r v \<longleftrightarrow> ws_listening (ss_engine r) v"

definition only_read :: "nat \<Rightarrow> nat \<Rightarrow> world \<Rightarrow> world \<Rightarrow> bool" where
  "only_read c k v v1 \<longleftrightarrow> trace v1 = trace v \<and> now v \<le> now v1 \<and> received v1 c = received v c + k"

definition fetched :: "sio_socket \<Rightarrow> sio_socket" where
  "fetched r = r\<lparr>ss_engine := (ss_engine r)\<lparr>es_remaining := Some []\<rparr>\<rparr>"

lemma fetched_simps [simp]:
  "fetched (fetched r) = fetched r" "conn_of (fetched r) = conn_of r" "ss_connected (fetched r) = ss_connected r"
  "ping_deadline (ss_engine (fetched r)) = ping_deadline (ss_engine r)"
  by (simp_all add: fetched_def ping_deadline_def)

lemma on_engine_frame:
  assumes "sio_listening r v" and "0 < loop_fuel Y"
    and "relayed Y (conn_of r) (received v (conn_of r)) (ping_deadline (ss_engine r)) (m # ms)"
    and "message_frame m = Some s" and "s \<noteq> []" and "SEPARATOR \<notin> set s"
  obtains v1 where "on_engine (eio_client_poll Y) (r, v) = (Ok (Some (eio_packet_new Message s)), fetched r, v1)"
    "only_read (conn_of r) 1 v v1" "sio_listening (fetched r) v1"
    "relayed Y (conn_of r) (received v1 (conn_of r)) (ping_deadline (ss_engine r)) ms"
proof -
  from frame_polled [OF assms(1) [unfolded sio_listening_def] assms(2) refl assms(3-6)] that show thesis
    by (force simp: on_engine_def fetched_def only_read_def sio_listening_def)
qed

lemma attachments_read:
  assumes "0 < loop_fuel Y" and "sio_listening r v" and "fetched r = r"
    and "relayed Y (conn_of r) (received v (conn_of r)) (ping_deadline (ss_engine r)) (map WsBinary as)"
    and "\<forall>a\<in>set as. a \<noteq> [] \<and> SEPARATOR \<notin> set a"
  shows "\<exists>v1. sio_read_attachments (length as) Y acc (r, v) = (Ok (acc @ as), r, v1) \<and>
    only_read (conn_of r) (length as) v v1 \<and> sio_listening r v1"
  using assms(2,4,5)
proof (induction as arbitrary: acc v)
  case (Cons a as)
  from Cons.prems assms(1) obtain v1 where v1:
    "on_engine (eio_client_poll Y) (r, v) = (Ok (Some (eio_packet_new Message a)), r, v1)"
    "only_read (conn_of r) 1 v v1" "sio_listening r v1"
    "relayed Y (conn_of r) (received v1 (conn_of r)) (ping_deadline (ss_engine r)) (map WsBinary as)"
    by (auto intro: on_engine_frame [of r v Y "WsBinary a" "map WsBinary as" a] simp: assms(3))
  with Cons.IH [OF v1(3,4), of "acc @ [a]"] Cons.prems(3) show ?case
    by (force simp: only_read_def eio_packet_new_def)
qed (simp add: only_read_def)

text \<open>What the format can carry over a websocket: no separator byte, no empty attachment, as many as announced.\<close>

definition attached :: "sio_packet \<Rightarrow> bytes list" where
  "attached p = (case attachments p of None \<Rightarrow> [] | Some as \<Rightarrow> as)"

definition sio_transmittable :: "json_lib \<Rightarrow> sio_packet \<Rightarrow> bool" where
  "sio_transmittable J p \<longleftrightarrow> sio_sendable J p \<and> length (attached p) = unat (attachment_count p) \<and>
     SEPARATOR \<notin> set (sio_text (p\<lparr>attachments := None\<rparr>)) \<and>
     (\<forall>a\<in>set (attached p). a \<noteq> [] \<and> SEPARATOR \<notin> set a)"

definition packet_frames :: "sio_packet \<Rightarrow> ws_message list" where
  "packet_frames p = WsText (CHR ''4'' # sio_text (p\<lparr>attachments := None\<rparr>)) # map WsBinary (attached p)"

lemma transmittable_attached:
  assumes "sio_transmittable J p"
  shows "p\<lparr>attachments := None\<rparr>\<lparr>attachments := Some (attached p)\<rparr> = p \<and> 0 < attachment_count p \<or>
     p\<lparr>attachments := None\<rparr> = p \<and> attachment_count p = 0 \<and> attached p = []"
  using assms
  by (cases p) (auto simp: sio_transmittable_def sio_sendable_def sio_packet_wf_def attached_def split: option.splits if_splits)

lemma sent_packet_frames:
  assumes "sio_sendable (json X) p" and "is_websocket (es_transport (ss_engine s))"
    and "sio_socket_send X p (s, w) = (Ok (), s', w')"
  shows "frames_between w w' = packet_frames p"
  using sio_send_Ok [OF assms(2) sio_into_bytes_text [OF assms(1)] assms(3)]
  by (simp add: frames_between_def packet_frames_def attached_def comp_def concat_map_singleton split: option.split)

lemma message_handled:
  assumes "sio_transmittable (json Y) p" and "sio_listening r v" and "fetched r = r" and "0 < loop_fuel Y"
    and "relayed Y (conn_of r) (received v (conn_of r)) (ping_deadline (ss_engine r)) (map WsBinary (attached p))"
  shows "\<exists>v1. sio_handle_engineio_packet Y (eio_packet_new Message (sio_text (p\<lparr>attachments := None\<rparr>))) (r, v) =
      (Ok p, r, v1) \<and> only_read (conn_of r) (length (attached p)) v v1 \<and> sio_listening r v1"
proof -
  have wf: "sio_packet_wf (json Y) (p\<lparr>attachments := None\<rparr>)" "length (attached p) = unat (attachment_count p)"
      "\<forall>a\<in>set (attached p). a \<noteq> [] \<and> SEPARATOR \<notin> set a"
    using assms(1) by (auto simp: sio_transmittable_def sio_sendable_def)
  note dec = sio_packet_dec_enc [OF wf(1)]
  from transmittable_attached [OF assms(1)] show ?thesis
  proof
    assume bin: "p\<lparr>attachments := None\<rparr>\<lparr>attachments := Some (attached p)\<rparr> = p \<and> 0 < attachment_count p"
    from attachments_read [OF assms(4,2,3,5) wf(3), of "[]"] obtain v1 where
      "sio_read_attachments (unat (attachment_count p)) Y [] (r, v) = (Ok (attached p), r, v1)"
      "only_read (conn_of r) (length (attached p)) v v1" "sio_listening r v1" unfolding wf(2) by auto
    with dec bin show ?thesis
      by (intro exI [of _ v1]) (simp add: sio_handle_engineio_packet_def eio_packet_new_def)
  next
    assume "p\<lparr>attachments := None\<rparr> = p \<and> attachment_count p = 0 \<and> attached p = []"
    with dec assms(2) show ?thesis
      by (intro exI [of _ v]) (simp add: sio_handle_engineio_packet_def eio_packet_new_def only_read_def)
  qed
qed

lemma packet_received:
  assumes "sio_transmittable (json Y) p" and "sio_listening r v" and "0 < loop_fuel Y"
    and "relayed Y (conn_of r) (received v (conn_of r)) (ping_deadline (ss_engine r)) (packet_frames p)"
  shows "\<exists>v1. sio_socket_poll Y (r, v) = (Ok (Some p), sio_handle_socketio_packet p (fetched r), v1) \<and>
    only_read (conn_of r) (length (packet_frames p)) v v1 \<and> sio_listening (sio_handle_socketio_packet p (fetched r)) v1"
proof -
  obtain s where s: "s = sio_text (p\<lparr>attachments := None\<rparr>)" by simp
  then have "s \<noteq> []" "SEPARATOR \<notin> set s" using assms(1) by (simp_all add: sio_text_def sio_transmittable_def)
  with on_engine_frame [OF assms(2,3) assms(4) [unfolded packet_frames_def, folded s], of s] obtain v1 where v1:
    "on_engine (eio_client_poll Y) (r, v) = (Ok (Some (eio_packet_new Message s)), fetched r, v1)"
    "only_read (conn_of r) 1 v v1" "sio_listening (fetched r) v1"
    "relayed Y (conn_of r) (received v1 (conn_of r)) (ping_deadline (ss_engine r)) (map WsBinary (attached p))" by auto
  with message_handled [OF assms(1) v1(3) _ assms(3), folded s] obtain v2 where v2:
    "sio_handle_engineio_packet Y (eio_packet_new Message s) (fetched r, v1) = (Ok p, fetched r, v2)"
    "only_read (conn_of r) (length (attached p)) v1 v2" "sio_listening (fetched r) v2" by auto
  obtain n where n: "loop_fuel Y = Suc n" using assms(3) by (cases "loop_fuel Y") auto
  have "sio_listening (sio_handle_socketio_packet p (fetched r)) v2"
    using v2(3) by (cases "packet_type p") (simp_all add: sio_handle_socketio_packet_def sio_listening_def)
  moreover have "sio_socket_poll Y (r, v) = (Ok (Some p), sio_handle_socketio_packet p (fetched r), v2)"
    using v1(1) v2(1) by (simp add: sio_socket_poll_def n) (simp add: eio_packet_new_def)
  moreover have "only_read (conn_of r) (length (packet_frames p)) v v2"
    using v1(2) v2(2) by (simp add: only_read_def packet_frames_def)
  ultimately show ?thesis by blast
qed


subsection \<open>One event\<close>

text \<open>
  What the peer makes of an emitted event: a binary payload names its event as \<open>String::from\<close> does,
  the others as \<open>Display\<close> does; a string that is JSON arrives as its value.
\<close>

fun peer_event :: "event \<Rightarrow> payload \<Rightarrow> event" where
  "peer_event e (PBinary b a) = event_from (event_into_string e)"
| "peer_event e (PText vs a) = heard_event (event_display e) vs"
| "peer_event e (PString s a) = event_from (event_display e)"

fun peer_payload :: "json_lib \<Rightarrow> event \<Rightarrow> payload \<Rightarrow> payload" where
  "peer_payload J e (PBinary b a) = PBinary b None"
| "peer_payload J e (PText vs a) = PText (heard_values (event_display e) vs) None"
| "peer_payload J e (PString s a) = PText [string_to_value J s] None"

text \<open>
  The emitted packet can be carried, and the JSON library does on its data what its documentation
  says: a string without a quote is printed between quotes, and a printed array parses to itself.
\<close>

fun json_sound :: "json_lib \<Rightarrow> event \<Rightarrow> payload \<Rightarrow> bytes option \<Rightarrow> bool" where
  "json_sound J e (PBinary b a) s \<longleftrightarrow>
     s = Some (quoted (event_into_string e)) \<and> CHR ''\"'' \<notin> set (event_into_string e)"
| "json_sound J e (PText vs a) s \<longleftrightarrow>
     map_option (json_from_str J) s = Some (Inr (JArray (JString (event_display e) # vs)))"
| "json_sound J e (PString t a) s \<longleftrightarrow>
     map_option (json_from_str J) s = Some (Inr (JArray [JString (event_display e), string_to_value J t]))"

definition emit_sound :: "json_lib \<Rightarrow> bytes \<Rightarrow> event \<times> payload \<Rightarrow> bool" where
  "emit_sound J n ed = (case new_from_payload J (snd ed) (fst ed) n None of
     Ok p \<Rightarrow> sio_transmittable J p \<and> json_sound J (fst ed) (snd ed) (pkt_data p)
   | _ \<Rightarrow> False)"

lemma filter_quotes [simp]: "CHR ''\"'' \<notin> set s \<Longrightarrow> filter (\<lambda>x. x \<noteq> CHR ''\"'') (quoted s) = s"
  by (auto simp: quoted_def filter_id_conv)

lemma packet_heard:
  assumes "quiet_users Y" and "\<not> rc_locked b" and "new_from_payload (json Y) d e (rc_nsp b) None = Ok p"
    and "json_sound (json Y) e d (pkt_data p)"
  shows "raw_handle_socketio_packet Y p (b, v) =
      (Ok (), b, heard b (peer_event e d) (peer_payload (json Y) e d) v)"
    and "pkt_nsp p = rc_nsp b" and "sio_handle_socketio_packet p r = r"
proof -
  have "raw_handle_socketio_packet Y p (b, v) =
      (Ok (), b, heard b (peer_event e d) (peer_payload (json Y) e d) v) \<and> pkt_nsp p = rc_nsp b \<and>
    packet_type p \<in> {Event, BinaryEvent}"
  proof (cases d)
    case (PBinary x a)
    with assms show ?thesis
      by (auto simp: sio_packet_new_def raw_binary_event_quiet)
  next
    case (PText vs a)
    with assms show ?thesis
      by (auto simp: sio_packet_new_def raw_event_quiet Let_def)
  next
    case (PString s a)
    from assms(3) PString have p: "packet_type p = Event" "pkt_nsp p = rc_nsp b" "pkt_id p = None"
      by (auto simp: sio_packet_new_def Let_def split: if_splits)
    from assms(4) PString obtain x where x: "pkt_data p = Some x"
      "json_from_str (json Y) x = Inr (JArray (JString (event_display e) # [string_to_value (json Y) s]))" by auto
    from raw_event_quiet [OF assms(1,2) p(1,2) x] p PString show ?thesis
      by (simp add: heard_event_def heard_values_def)
  qed
  then show "raw_handle_socketio_packet Y p (b, v) =
      (Ok (), b, heard b (peer_event e d) (peer_payload (json Y) e d) v)"
    and "pkt_nsp p = rc_nsp b" and "sio_handle_socketio_packet p r = r"
    by (auto simp: sio_handle_socketio_packet_def)
qed

text \<open>The emitting client keeps its state; what it sent are the frames of the packet.\<close>

lemma emit_frames:
  assumes "emit_sound (json X) (rc_nsp a) (e, d)" and "is_websocket (es_transport (ss_engine (rc_socket a)))"
    and "raw_emit X e d (a, w) = (Ok (), a', w')"
  obtains p ms where "new_from_payload (json X) d e (rc_nsp a) None = Ok p" "sio_transmittable (json X) p"
    "json_sound (json X) e d (pkt_data p)" "a' = a" "sent w' = sent w @ ms"
    "frames_between w w' = packet_frames p"
proof -
  from assms(1) obtain p where p: "new_from_payload (json X) d e (rc_nsp a) None = Ok p"
    "sio_transmittable (json X) p" "json_sound (json X) e d (pkt_data p)"
    by (auto simp: emit_sound_def split: outcome.splits)
  from assms(3) p(1) obtain s' where s': "sio_socket_send X p (rc_socket a, w) = (Ok (), s', w')"
    "a' = a\<lparr>rc_socket := s'\<rparr>"
    by (auto simp: raw_emit_def on_sio_def sio_socket_emit_def split: prod.splits)
  have sd: "sio_sendable (json X) p" using p(2) by (simp add: sio_transmittable_def)
  from that [OF p] sio_send_Ok [OF assms(2) sio_into_bytes_text [OF sd] s'(1)]
    sent_packet_frames [OF sd assms(2) s'(1)] s'(2) show thesis by auto
qed

lemma event_received:
  assumes "quiet_users Y" and "\<not> rc_locked b" and "0 < loop_fuel Y" and "sio_listening (rc_socket b) v"
    and "new_from_payload (json Y) d e (rc_nsp b) None = Ok p" and "sio_transmittable (json Y) p"
    and "json_sound (json Y) e d (pkt_data p)" and "c = conn_of (rc_socket b)"
    and "relayed Y c (received v c) (ping_deadline (ss_engine (rc_socket b))) (packet_frames p)"
  obtains v1 where "raw_poll Y (b, v) = (Ok (Some p), b\<lparr>rc_socket := fetched (rc_socket b)\<rparr>, v1)"
    "trace v1 = trace (heard b (peer_event e d) (peer_payload (json Y) e d) v)"
    "received v1 c = received v c + length (packet_frames p)" "sio_listening (fetched (rc_socket b)) v1"
proof -
  obtain n where n: "loop_fuel Y = Suc n" using assms(3) by (cases "loop_fuel Y") auto
  note pkt = packet_heard(2,3) [OF assms(1,2,5,7)]
  let ?b = "b\<lparr>rc_socket := fetched (rc_socket b)\<rparr>"
  from packet_received [OF assms(6,4,3), folded assms(8)] assms(9) pkt(2) obtain v1 where v1:
    "on_sio (sio_socket_poll Y) (b, v) = (Ok (Some p), ?b, v1)"
    "only_read c (length (packet_frames p)) v v1" "sio_listening (fetched (rc_socket b)) v1"
    by (auto simp: on_sio_def)
  from packet_heard(1) [OF assms(1) _ _ assms(7), of ?b v1] assms(2,5)
  have "raw_handle_socketio_packet Y p (?b, v1) =
      (Ok (), ?b, heard ?b (peer_event e d) (peer_payload (json Y) e d) v1)" by simp
  with v1 pkt(1) have "raw_poll Y (b, v) =
      (Ok (Some p), ?b, heard ?b (peer_event e d) (peer_payload (json Y) e d) v1)"
    by (simp add: raw_poll_def n)
  from that [OF this] v1 show thesis
    by (simp add: heard_def only_read_def sio_listening_def ws_listening_def)
qed


subsection \<open>A conversation\<close>

fun emit_each :: "ext \<Rightarrow> (event \<times> payload) list \<Rightarrow> raw_state \<Rightarrow> (sio_error, unit) outcome \<times> raw_state" where
  "emit_each X [] aw = (Ok (), aw)"
| "emit_each X ((e, d) # eds) aw = ques (raw_emit X e d aw) (\<lambda>_ aw. emit_each X eds aw)"

text \<open>The callbacks of the events, one event after the other.\<close>

definition heard_all :: "json_lib \<Rightarrow> raw_client \<Rightarrow> (event \<times> payload) list \<Rightarrow> world \<Rightarrow> world" where
  "heard_all J b eds v = fold (\<lambda>(e, d). heard b (peer_event e d) (peer_payload J e d)) eds v"

lemma heard_trace:
  "trace v1 = trace v2 \<Longrightarrow> trace (heard b e d v1) = trace (heard b e d v2)"
  by (simp add: heard_def)

lemma heard_all_trace: "trace v1 = trace v2 \<Longrightarrow> trace (heard_all J b eds v1) = trace (heard_all J b eds v2)"
  unfolding heard_all_def
proof (induction eds arbitrary: v1 v2)
  case (Cons ed eds)
  from Cons.IH [OF heard_trace [OF Cons.prems]] show ?case by (cases ed) simp
qed simp

lemma relayed_append:
  "relayed Y c k dl (ms @ ns) \<longleftrightarrow> relayed Y c k dl ms \<and> relayed Y c (k + length ms) dl ns"
  by (induction ms arbitrary: k) auto

lemma frames_between_trans:
  assumes "sent w1 = sent w @ xs" and "sent w2 = sent w1 @ ys"
  shows "frames_between w w2 = frames_between w w1 @ frames_between w1 w2"
  using assms by (simp add: frames_between_def)

lemma emit_each_sent:
  assumes "list_all (emit_sound (json X) (rc_nsp a)) eds"
    and "is_websocket (es_transport (ss_engine (rc_socket a)))"
    and "emit_each X eds (a, w) = (Ok (), a', w')"
  shows "\<exists>ms. sent w' = sent w @ ms"
  using assms(1,3)
proof (induction eds arbitrary: w)
  case (Cons ed eds)
  obtain e d where ed: "ed = (e, d)" by (cases ed) auto
  obtain r a1 w1 where r: "raw_emit X e d (a, w) = (r, a1, w1)" by (cases "raw_emit X e d (a, w)") auto
  with Cons.prems(2) ed have ok: "r = Ok ()" by (cases r) auto
  from emit_frames [OF _ assms(2) r [unfolded ok]] Cons.prems(1) ed obtain ms where "a1 = a" "sent w1 = sent w @ ms"
    by auto
  with Cons r ok ed show ?case by fastforce
qed auto

text \<open>
  C1. From emit to callback. A client emits a list of events over a websocket, every emit succeeds, and a
  server passes the frames on unchanged, each before the heartbeat deadline of the listening client.
  Then the listener, polled once for each event, calls for each, in the order of the emits, the
  callbacks registered for what the emit says at the peer, and sends nothing. That is the event's name
  read back (\<open>peer_event\<close>) with the emitted arguments (\<open>peer_payload\<close>), but for an event without arguments,
  which reaches the callbacks of \<open>message\<close> with its name as the one argument.
  Conditions: \<open>emit_sound\<close>, so no byte 1E in the text or in an attachment, no empty attachment, a namespace
  without comma, no quote in the event name of a binary payload (with a 1E or an empty attachment the
  claim fails, see \<open>ws_binary_separator_lost\<close>), and a JSON library that parses what it printed; the
  listener's callbacks do not use the client.
\<close>

theorem emits_reach_callbacks:
  assumes "is_websocket (es_transport (ss_engine (rc_socket a)))"
    and "emit_each X eds (a, w) = (Ok (), a', w')"
    and "list_all (emit_sound (json X) (rc_nsp a)) eds"
    and "json Y = json X" and "rc_nsp b = rc_nsp a"
    and "quiet_users Y" and "\<not> rc_locked b" and "0 < loop_fuel Y" and "sio_listening (rc_socket b) v"
    and "relayed Y (conn_of (rc_socket b)) (received v (conn_of (rc_socket b)))
      (ping_deadline (ss_engine (rc_socket b))) (frames_between w w')"
  shows "\<exists>ps b' v'. asked (length eds) (raw_poll Y) (b, v) = (map (\<lambda>p. Ok (Some p)) ps, b', v') \<and>
    trace v' = trace (heard_all (json X) b eds v) \<and> sent v' = sent v"
  using assms(2,3,5,7,9,10)
proof (induction eds arbitrary: b v w)
  case Nil
  then show ?case by (auto simp: heard_all_def)
next
  case (Cons ed eds)
  obtain e d where ed: "ed = (e, d)" by (cases ed) auto
  let ?c = "conn_of (rc_socket b)" and ?dl = "ping_deadline (ss_engine (rc_socket b))"
  obtain r a1 w1 where r: "raw_emit X e d (a, w) = (r, a1, w1)" by (cases "raw_emit X e d (a, w)") auto
  with Cons.prems(1) ed have ok: "r = Ok ()" by (cases r) auto
  from emit_frames [OF _ assms(1) r [unfolded ok]] Cons.prems(2) ed obtain p ms where
    p: "new_from_payload (json X) d e (rc_nsp a) None = Ok p" "sio_transmittable (json X) p"
      "json_sound (json X) e d (pkt_data p)" "a1 = a" "sent w1 = sent w @ ms" "frames_between w w1 = packet_frames p"
    by auto
  have rest: "emit_each X eds (a, w1) = (Ok (), a', w')" using Cons.prems(1) ed r ok p(4) by simp
  with emit_each_sent [OF _ assms(1) rest] Cons.prems(2) frames_between_trans [OF p(5)] p(6)
  have "frames_between w w' = packet_frames p @ frames_between w1 w'" by auto
  with Cons.prems(6) have rel: "relayed Y ?c (received v ?c) ?dl (packet_frames p)"
    "relayed Y ?c (received v ?c + length (packet_frames p)) ?dl (frames_between w1 w')"
    by (auto simp: relayed_append)
  let ?b = "b\<lparr>rc_socket := fetched (rc_socket b)\<rparr>"
  from event_received [OF assms(6) Cons.prems(4) assms(8) Cons.prems(5), of d e p ?c] p assms(4) Cons.prems(3) rel(1)
  obtain v1 where v1: "raw_poll Y (b, v) = (Ok (Some p), ?b, v1)"
    "trace v1 = trace (heard b (peer_event e d) (peer_payload (json X) e d) v)"
    "received v1 ?c = received v ?c + length (packet_frames p)" "sio_listening (fetched (rc_socket b)) v1" by auto
  with Cons.IH [OF rest, of ?b v1] Cons.prems rel(2) obtain ps b' v' where
    ps: "asked (length eds) (raw_poll Y) (?b, v1) = (map (\<lambda>p. Ok (Some p)) ps, b', v')"
      "trace v' = trace (heard_all (json X) ?b eds v1)" "sent v' = sent v1" by auto
  have "heard ?b = heard b" by (intro ext) (simp add: heard_def)
  then have "trace v' = trace (heard_all (json X) b (ed # eds) v)"
    using ps(2) heard_all_trace [OF v1(2), of "json X" b eds] ed by (simp add: heard_all_def)
  moreover have "sent v1 = sent (heard b (peer_event e d) (peer_payload (json X) e d) v)"
    by (simp only: sent_def v1(2))
  with ps(3) have "sent v' = sent v" by simp
  ultimately show ?case
    using ps(1) v1(1) by (intro exI [of _ "p # ps"] exI [of _ b'] exI [of _ v']) simp
qed


text \<open>A server that passes on two events, one of text and one with a picture.\<close>

definition demo_news :: "(event \<times> payload) list" where
  "demo_news = [(EvCustom ''foo'', PText [JNull] None), (EvCustom ''pic'', PBinary ''xy'' None)]"

definition demo_relay :: ext where
  "demo_relay = (demo_parses (JArray [JString ''foo'', JNull]))\<lparr>net_recv := \<lambda>c k.
     nth [(5, WsMsg (WsText (''42['' @ quoted ''foo'' @ '',null]''))),
          (6, WsMsg (WsText (''451-['' @ quoted ''pic'' @ '','' @ placeholder ''0'' @ '']''))),
          (7, WsMsg (WsBinary ''xy''))] k\<rparr>"

definition demo_sender :: raw_client where
  "demo_sender = demo_raw (demo_sio []) Map.empty None"

definition demo_receiver :: raw_client where
  "demo_receiver = demo_raw \<lparr>ss_engine = demo_socket (Websocket demo_ws), ss_connected = True\<rparr>
     [EvCustom ''foo'' \<mapsto> 5, EvCustom ''pic'' \<mapsto> 6] None"

lemma demo_emits:
  "fst (emit_each demo_relay demo_news (demo_sender, demo_world)) = Ok ()"
  "frames_between demo_world (snd (snd (emit_each demo_relay demo_news (demo_sender, demo_world)))) =
     [WsText (''42['' @ quoted ''foo'' @ '',null]''),
      WsText (''451-['' @ quoted ''pic'' @ '','' @ placeholder ''0'' @ '']''), WsBinary ''xy'']"
  "list_all (emit_sound (json demo_relay) (rc_nsp demo_sender)) demo_news"
  by code_simp+

lemma demo_receiver_listens:
  "sio_listening (rc_socket demo_receiver) demo_world" "\<not> rc_locked demo_receiver"
  "conn_of (rc_socket demo_receiver) = 0" "ping_deadline (ss_engine (rc_socket demo_receiver)) = 45"
  "rc_nsp demo_receiver = rc_nsp demo_sender" "is_websocket (es_transport (ss_engine (rc_socket demo_sender)))"
  by (simp_all add: sio_listening_def ws_listening_def ping_deadline_def demo_receiver_def demo_sender_def
      demo_raw_def demo_sio_def demo_ws_def)

lemma demo_relay_simps:
  "quiet_users demo_relay" "0 < loop_fuel demo_relay"
  by (simp_all add: quiet_users_def demo_relay_def demo_parses_def demo_ext_def)

theorem emits_reach_callbacks_witness:
  "\<exists>ps b' v'. asked 2 (raw_poll demo_relay) (demo_receiver, demo_world) = (map (\<lambda>p. Ok (Some p)) ps, b', v') \<and>
     trace v' = [DidCall 5 (ArgPayload (PText [JNull] None)), DidCall 6 (ArgPayload (PBinary ''xy'' None))]"
proof -
  obtain a' w' where run: "emit_each demo_relay demo_news (demo_sender, demo_world) = (Ok (), a', w')"
    using demo_emits(1) by (cases "emit_each demo_relay demo_news (demo_sender, demo_world)") auto
  have rel: "relayed demo_relay 0 0 45 (frames_between demo_world w')"
    using demo_emits(2) run by (simp add: demo_relay_def)
  have heard: "trace (heard_all (json demo_relay) demo_receiver demo_news demo_world) =
      [DidCall 5 (ArgPayload (PText [JNull] None)), DidCall 6 (ArgPayload (PBinary ''xy'' None))]"
    by code_simp
  have two: "length demo_news = 2" by (simp add: demo_news_def)
  from emits_reach_callbacks [OF demo_receiver_listens(6) run demo_emits(3) refl demo_receiver_listens(5)
      demo_relay_simps(1) demo_receiver_listens(2) demo_relay_simps(2) demo_receiver_listens(1)]
    rel heard obtain ps b' v' where
    "asked 2 (raw_poll demo_relay) (demo_receiver, demo_world) = (map (\<lambda>p. Ok (Some p)) ps, b', v')"
    "trace v' = [DidCall 5 (ArgPayload (PText [JNull] None)), DidCall 6 (ArgPayload (PBinary ''xy'' None))]"
    by (auto simp: demo_receiver_listens two)
  then show ?thesis by blast
qed


subsection \<open>An acknowledgement\<close>

text \<open>
  What the callback of an emit is called with when the peer acknowledges it: text as the one JSON
  value its data is, binary as it is.
\<close>

fun acked_payload :: "json_lib \<Rightarrow> i32 \<Rightarrow> payload \<Rightarrow> payload" where
  "acked_payload J i (PBinary b a) = PBinary b (Some i)"
| "acked_payload J i (PText vs a) = PText [JArray vs] (Some i)"
| "acked_payload J i (PString s a) = PText [JArray [string_to_value J s]] (Some i)"

fun json_ack_sound :: "json_lib \<Rightarrow> payload \<Rightarrow> bytes option \<Rightarrow> bool" where
  "json_ack_sound J (PBinary b a) s \<longleftrightarrow> True"
| "json_ack_sound J (PText vs a) s \<longleftrightarrow> map_option (json_from_str J) s = Some (Inr (JArray vs))"
| "json_ack_sound J (PString t a) s \<longleftrightarrow>
     map_option (json_from_str J) s = Some (Inr (JArray [string_to_value J t]))"

definition ack_sound :: "json_lib \<Rightarrow> bytes \<Rightarrow> i32 \<Rightarrow> payload \<Rightarrow> bool" where
  "ack_sound J n i d = (case ack_from_payload J d n (Some i) of
     Ok p \<Rightarrow> sio_transmittable J p \<and> json_ack_sound J d (pkt_data p)
   | _ \<Rightarrow> False)"

lemma ack_heard:
  assumes "quiet_users Y" and "ack_from_payload (json Y) d (rc_nsp b) (Some (ak_id k)) = Ok p"
    and "json_ack_sound (json Y) d (pkt_data p)" and "distinct (map ak_id (rc_acks b))" and "k \<in> set (rc_acks b)"
  shows "raw_handle_socketio_packet Y p (b, v) =
      (Ok (), b\<lparr>rc_acks := filter (\<lambda>x. ak_id x \<noteq> ak_id k) (rc_acks b)\<rparr>,
       if now v - ak_started k < ak_timeout k
       then did (DidCall (ak_callback k) (ArgPayload (acked_payload (json Y) (ak_id k) d))) v else v)"
    and "pkt_nsp p = rc_nsp b" and "sio_handle_socketio_packet p r = r"
proof -
  have "raw_handle_socketio_packet Y p (b, v) =
      (Ok (), b\<lparr>rc_acks := filter (\<lambda>x. ak_id x \<noteq> ak_id k) (rc_acks b)\<rparr>,
       if now v - ak_started k < ak_timeout k
       then did (DidCall (ak_callback k) (ArgPayload (acked_payload (json Y) (ak_id k) d))) v else v) \<and>
     pkt_nsp p = rc_nsp b \<and> packet_type p \<in> {Ack, BinaryAck}"
    using assms take_ack_distinct [OF assms(4,5)]
    by (cases d) (auto simp: sio_packet_new_def raw_handle_socketio_packet_def raw_handle_ack_def
        payload_from_string_def string_to_value_def Let_def split: if_splits)
  then show "raw_handle_socketio_packet Y p (b, v) =
      (Ok (), b\<lparr>rc_acks := filter (\<lambda>x. ak_id x \<noteq> ak_id k) (rc_acks b)\<rparr>,
       if now v - ak_started k < ak_timeout k
       then did (DidCall (ak_callback k) (ArgPayload (acked_payload (json Y) (ak_id k) d))) v else v)"
    and "pkt_nsp p = rc_nsp b" and "sio_handle_socketio_packet p r = r"
    by (auto simp: sio_handle_socketio_packet_def)
qed

text \<open>
  C6. The way back. A client acknowledges an id over a websocket, and the frames are passed on unchanged
  before the heartbeat deadline of the other client. One poll there calls the callback of the emit with
  that id once, with the acknowledged values, if its own timeout has not passed at the instant of
  arrival, and no callback otherwise; the emit is settled in both cases, and the other ones wait on.
  Conditions: \<open>ack_sound\<close>, so an acknowledgement without the byte 1E, not an empty binary one (these
  are cut off and call nothing, see \<open>ws_binary_separator_lost\<close>), in a namespace without comma, and a
  JSON library that parses what it printed; the ids of the outstanding emits are pairwise distinct; the
  callbacks do not use the client.
\<close>

theorem ack_reaches_callback:
  assumes "is_websocket (es_transport (ss_engine (rc_socket a)))"
    and "raw_ack_with_id X (ak_id k) d (a, w) = (Ok (), a', w')"
    and "ack_sound (json X) (rc_nsp a) (ak_id k) d"
    and "json Y = json X" and "rc_nsp b = rc_nsp a"
    and "quiet_users Y" and "0 < loop_fuel Y" and "sio_listening (rc_socket b) v"
    and "relayed Y (conn_of (rc_socket b)) (received v (conn_of (rc_socket b)))
      (ping_deadline (ss_engine (rc_socket b))) (frames_between w w')"
    and "distinct (map ak_id (rc_acks b))" and "k \<in> set (rc_acks b)"
  shows "\<exists>p b' v'. raw_poll Y (b, v) = (Ok (Some p), b', v') \<and>
    now v' \<le> ping_deadline (ss_engine (rc_socket b)) \<and>
    rc_acks b' = filter (\<lambda>x. ak_id x \<noteq> ak_id k) (rc_acks b) \<and>
    trace v' = trace v @ (if now v' - ak_started k < ak_timeout k
      then [DidCall (ak_callback k) (ArgPayload (acked_payload (json X) (ak_id k) d))] else [])"
proof -
  let ?c = "conn_of (rc_socket b)" and ?b = "b\<lparr>rc_socket := fetched (rc_socket b)\<rparr>"
  from assms(3) obtain p where p: "ack_from_payload (json X) d (rc_nsp a) (Some (ak_id k)) = Ok p"
    "sio_transmittable (json X) p" "json_ack_sound (json X) d (pkt_data p)"
    by (auto simp: ack_sound_def split: outcome.splits)
  from assms(2) p(1) obtain s' where s': "sio_socket_send X p (rc_socket a, w) = (Ok (), s', w')"
    by (auto simp: raw_ack_with_id_def on_sio_def sio_socket_ack_def split: prod.splits)
  have "sio_sendable (json X) p" using p(2) by (simp add: sio_transmittable_def)
  from sent_packet_frames [OF this assms(1) s'] assms(9)
  have rel: "relayed Y ?c (received v ?c) (ping_deadline (ss_engine (rc_socket b))) (packet_frames p)" by simp
  note heard = ack_heard [of Y d ?b k p] and pkt = ack_heard(2,3) [of Y d b k p]
  from packet_received [OF _ assms(8,7) rel] p(2) assms(4) pkt(2) assms(5,6,10,11) p(1,3) obtain v1 where v1:
    "on_sio (sio_socket_poll Y) (b, v) = (Ok (Some p), ?b, v1)" "only_read ?c (length (packet_frames p)) v v1"
    "now v1 \<le> ping_deadline (ss_engine (fetched (rc_socket b)))"
    by (auto simp: on_sio_def sio_listening_def ws_listening_def)
  obtain n where n: "loop_fuel Y = Suc n" using assms(7) by (cases "loop_fuel Y") auto
  from heard(1) [of v1] p assms(4,5,6,10,11) pkt(1) v1 show ?thesis
    by (auto simp: raw_poll_def n only_read_def)
qed


text \<open>The answer to an emit that waits for it, for two seconds.\<close>

definition demo_answer :: ext where
  "demo_answer = (demo_parses (JArray [JBool True]))\<lparr>net_recv := \<lambda>c k. (5, WsMsg (WsText ''437[true]''))\<rparr>"

definition demo_waiting :: raw_client where
  "demo_waiting = demo_receiver\<lparr>rc_acks := [demo_ack]\<rparr>"

lemma demo_answered:
  "fst (raw_ack_with_id demo_answer 7 (PText [JBool True] None) (demo_sender, demo_world)) = Ok ()"
  "frames_between demo_world
     (snd (snd (raw_ack_with_id demo_answer 7 (PText [JBool True] None) (demo_sender, demo_world)))) =
     [WsText ''437[true]'']"
  "ack_sound (json demo_answer) (rc_nsp demo_sender) 7 (PText [JBool True] None)"
  by code_simp+

theorem ack_reaches_callback_witness:
  "\<exists>p b' v'. raw_poll demo_answer (demo_waiting, demo_world) = (Ok (Some p), b', v') \<and> rc_acks b' = [] \<and>
     trace v' = [DidCall 3 (ArgPayload (PText [JArray [JBool True]] (Some 7)))]"
proof -
  obtain a' w' where run:
    "raw_ack_with_id demo_answer (ak_id demo_ack) (PText [JBool True] None) (demo_sender, demo_world) = (Ok (), a', w')"
    using demo_answered(1) by (cases "raw_ack_with_id demo_answer 7 (PText [JBool True] None) (demo_sender, demo_world)")
      (auto simp: demo_ack_def)
  have wait: "rc_socket demo_waiting = rc_socket demo_receiver" "rc_acks demo_waiting = [demo_ack]"
    "rc_nsp demo_waiting = rc_nsp demo_sender"
    using demo_receiver_listens(5) by (simp_all add: demo_waiting_def)
  have quiet: "quiet_users demo_answer" "0 < loop_fuel demo_answer"
    by (simp_all add: quiet_users_def demo_answer_def demo_parses_def demo_ext_def)
  have "relayed demo_answer 0 0 45 (frames_between demo_world w')"
    using demo_answered(2) run by (simp add: demo_answer_def demo_ack_def)
  with ack_reaches_callback [OF demo_receiver_listens(6) run _ refl wait(3) quiet, of demo_world]
    demo_answered(3) demo_receiver_listens wait show ?thesis
    by (auto simp: demo_ack_def)
qed

end
