(* ===== verification/Refusals.thy ===== *)
theory Refusals
  imports Sio_Client Sio_Async_Client
begin

text \<open>
  A server that refuses a client says why: with the status and the body of an HTTP response, or with
  the code and the reason of a close frame. The theory follows that answer through the handshake,
  the engine's builder and the builder of the socket.io client, of both kinds: it is the error of
  \<open>connect\<close>, whatever transport the builder was told to use. Last come the servers the
  repository's own tests play.
\<close>


subsection \<open>Refused over HTTP\<close>

text \<open>
  The \<open>n\<close>th request is answered with this status and this body; \<open>refuses\<close> says so of the next two,
  for a status that is not 200.
\<close>

definition refused_at :: "ext \<Rightarrow> u16 \<Rightarrow> bytes \<Rightarrow> nat \<Rightarrow> bool" where
  "refused_at X s b n \<longleftrightarrow> s \<noteq> 200 \<and>
     (\<forall>r. \<exists>d a. net_http X n r = (d, Inr a) \<and> resp_status a = s \<and> resp_text a = Inr b)"

definition refuses :: "ext \<Rightarrow> u16 \<Rightarrow> bytes \<Rightarrow> world \<Rightarrow> bool" where
  "refuses X s b w \<longleftrightarrow> refused_at X s b (http_count w) \<and> refused_at X s b (Suc (http_count w))"

text \<open>Only requests of the kind \<open>GET\<close> were sent, this many.\<close>

fun is_get :: "http_request \<Rightarrow> bool" where
  "is_get (HttpGet u t h c) = True"
| "is_get r = False"

definition gets :: "nat \<Rightarrow> world \<Rightarrow> world \<Rightarrow> bool" where
  "gets k w w' \<longleftrightarrow> http_count w' = http_count w + k \<and>
     (\<exists>rs. sent w' = sent w @ map DidHttp rs \<and> length rs = k \<and> list_all is_get rs)"

lemma gets_trans:
  assumes "gets j w w1" and "gets k w1 w2" shows "gets (j + k) w w2"
proof -
  obtain rs where rs: "sent w1 = sent w @ map DidHttp rs" "length rs = j" "list_all is_get rs"
    using assms(1) by (auto simp: gets_def)
  obtain qs where qs: "sent w2 = sent w1 @ map DidHttp qs" "length qs = k" "list_all is_get qs"
    using assms(2) by (auto simp: gets_def)
  have "http_count w2 = http_count w + (j + k)" using assms by (simp add: gets_def)
  moreover have "\<exists>ps. sent w2 = sent w @ map DidHttp ps \<and> length ps = j + k \<and> list_all is_get ps"
    by (rule exI [of _ "rs @ qs"]) (simp add: rs qs)
  ultimately show ?thesis by (simp add: gets_def)
qed

lemma polling_refused:
  assumes "refused_at X s b (http_count w)"
  shows "\<exists>w'. polling_poll X ms t w = (Err (HttpErrorWithBody s b), w') \<and> gets 1 w w'"
proof -
  let ?u = "url_append_pair X ''t'' (time_hash X (now w)) (pl_url t)"
  let ?r = "HttpGet ?u (Some ms) (pl_headers t) (pl_tls t)"
  from assms obtain d a where "net_http X (http_count w) ?r = (d, Inr a)" "resp_status a = s" "resp_text a = Inr b"
    unfolding refused_at_def by blast
  then have "polling_poll X ms t w = (Err (HttpErrorWithBody s b),
      did (DidHttp ?r) (w\<lparr>now := now w + d, http_count := http_count w + 1\<rparr>))"
    using assms by (auto simp: polling_poll_def stamped_def polling_base_url_def http_send_def
        http_status_error_def refused_at_def)
  moreover have "gets 1 w (did (DidHttp ?r) (w\<lparr>now := now w + d, http_count := http_count w + 1\<rparr>))"
    unfolding gets_def by (intro conjI exI [of _ "[?r]"]) (simp_all add: sent_def)
  ultimately show ?thesis by blast
qed

lemma async_polling_refused:
  assumes "refused_at X s b (http_count w)" and "2 \<le> loop_fuel X" and "ap_state t = PollIdle"
  shows "\<exists>t' w'. async_polling_next X None t w = (Err (HttpErrorWithBody s b), t', w') \<and> gets 1 w w'"
proof -
  obtain n where n: "loop_fuel X = Suc (Suc n)" using assms(2) by (metis Suc_le_D numeral_2_eq_2 Suc_le_mono)
  let ?u = "url_append_pair X ''t'' (time_hash X (now w)) (ap_stream_url t)"
  let ?r = "HttpGet ?u None (ap_headers t) (ap_tls t)"
  from assms obtain d a where a: "net_http X (http_count w) ?r = (d, Inr a)" "resp_status a = s" "resp_text a = Inr b"
    unfolding refused_at_def by blast
  let ?w = "(did (DidHttp ?r) (w\<lparr>http_count := http_count w + 1\<rparr>))\<lparr>now := now w + d\<rparr>"
  from a have "async_polling_next X None t w = (Err (HttpErrorWithBody s b), t\<lparr>ap_state := PollOver\<rparr>, ?w)"
    using assms by (simp add: async_polling_next_def generator_poll_next_def generator_new_def n send_request_def
        async_polling_address_def request_answer_def past_def http_status_error_def refused_at_def)
  moreover have "gets 1 w ?w"
    unfolding gets_def by (intro conjI exI [of _ "[?r]"]) (simp_all add: sent_def)
  ultimately show ?thesis by blast
qed

text \<open>An HTTP client can be built, and the headers are ones it takes.\<close>

definition http_ready :: "ext \<Rightarrow> header_map option \<Rightarrow> bool" where
  "http_ready X h \<longleftrightarrow> (\<exists>hs. convert_headers X h = Ok hs) \<and> (\<forall>t hs. http_client_ok X t hs)"

lemma handshake_refused:
  assumes "refused_at X s b (http_count w)" and "http_ready X (cb_headers B)" and "cb_handshake B = None"
  shows "\<exists>w'. eio_handshake X (B, w) = (Err (HttpErrorWithBody s b), B, w') \<and> gets 1 w w'"
proof -
  from assms(2) have "\<exists>t. and_then (unwrap_headers X (cb_headers B)) (polling_new X (cb_url B) (cb_tls B)) = Ok t"
    by (auto simp: http_ready_def convert_headers_def unwrap_headers_def polling_new_def and_then_Ok_iff split: option.splits)
  then obtain t where "and_then (unwrap_headers X (cb_headers B)) (polling_new X (cb_url B) (cb_tls B)) = Ok t" by blast
  with polling_refused [OF assms(1), of DEFAULT_MAX_POLL_TIMEOUT t] assms(3) show ?thesis
    by (auto simp: eio_handshake_def eio_handshake_with_transport_def)
qed

lemma async_handshake_refused:
  assumes "refused_at X s b (http_count w)" and "http_ready X (cb_headers B)" and "cb_handshake B = None" and "2 \<le> loop_fuel X"
  shows "\<exists>w'. async_handshake X (B, w) = (Err (HttpErrorWithBody s b), B, w') \<and> gets 1 w w'"
proof -
  from assms(2) obtain t where
    t: "and_then (convert_headers X (cb_headers B)) (async_polling_new X (cb_url B) (cb_tls B)) = Ok t"
      "ap_state t = PollIdle"
    by (auto simp: http_ready_def async_polling_new_def and_then_Ok_iff Let_def)
  with async_polling_refused [OF assms(1,4), of t] assms(3) show ?thesis
    by (auto simp: async_handshake_def async_handshake_with_transport_def)
qed

text \<open>
  The requests a refused builder makes: a websocket alone makes none, and the builder that falls back
  to polling makes its handshake twice.
\<close>

fun refused_requests :: "transport_type \<Rightarrow> nat" where
  "refused_requests AnyTransport = 2"
| "refused_requests PollingTransport = 1"
| "refused_requests WebsocketUpgradeTransport = 1"
| "refused_requests WebsocketTransport = 0"

lemma engine_refused:
  assumes "refuses X s b w" and "http_ready X (cb_headers B)" and "cb_handshake B = None" and "t \<noteq> WebsocketTransport"
  shows "\<exists>w'. build_engine X t B w = (Err (HttpErrorWithBody s b), w') \<and> gets (refused_requests t) w w'"
proof -
  obtain w1 where w1: "eio_handshake X (B, w) = (Err (HttpErrorWithBody s b), B, w1)" "gets 1 w w1"
    using handshake_refused [OF _ assms(2,3), of s b w] assms(1) by (auto simp: refuses_def)
  obtain w2 where w2: "eio_handshake X (B, w1) = (Err (HttpErrorWithBody s b), B, w2)" "gets 1 w1 w2"
    using handshake_refused [OF _ assms(2,3), of s b w1] assms(1) w1(2) by (auto simp: refuses_def gets_def)
  from w1 w2 gets_trans [OF w1(2) w2(2)] assms(4) show ?thesis
    by (cases t) (simp_all add: build_engine_def eio_build_with_fallback_def eio_build_def eio_build_polling_def
        eio_build_websocket_with_upgrade_def numeral_2_eq_2)
qed

lemma async_engine_refused:
  assumes "refuses X s b w" and "http_ready X (cb_headers B)" and "cb_handshake B = None" and "2 \<le> loop_fuel X"
    and "t \<noteq> WebsocketTransport"
  shows "\<exists>w'. build_async_engine X t B w = (Err (HttpErrorWithBody s b), w') \<and> gets (refused_requests t) w w'"
proof -
  obtain w1 where w1: "async_handshake X (B, w) = (Err (HttpErrorWithBody s b), B, w1)" "gets 1 w w1"
    using async_handshake_refused [OF _ assms(2-4), of s b w] assms(1) by (auto simp: refuses_def)
  obtain w2 where w2: "async_handshake X (B, w1) = (Err (HttpErrorWithBody s b), B, w2)" "gets 1 w1 w2"
    using async_handshake_refused [OF _ assms(2-4), of s b w1] assms(1) w1(2) by (auto simp: refuses_def gets_def)
  from w1 w2 gets_trans [OF w1(2) w2(2)] assms(5) show ?thesis
    by (cases t) (simp_all add: build_async_engine_def async_build_with_fallback_def async_build_def
        async_build_polling_def async_build_websocket_with_upgrade_def numeral_2_eq_2)
qed

lemma engine_builder_fields [simp]:
  "cb_handshake (engine_builder_of X B u) = None" "cb_headers (engine_builder_of X B u) = sb_headers B"
  by (simp_all add: engine_builder_of_def eio_builder_new_def eio_builder_tls_config_def eio_builder_headers_def
      Let_def split: option.split)

lemma async_engine_builder_fields [simp]:
  "cb_handshake (async_engine_builder_of X A u) = None" "cb_headers (async_engine_builder_of X A u) = ab_headers A"
  by (simp_all add: async_engine_builder_of_def async_builder_new_def async_builder_tls_config_def
      async_builder_headers_def Let_def split: option.split)

text \<open>
  C7. The reason of a refusal reaches the caller. When the server answers the handshake with a status
  other than 200 and a body, \<open>connect\<close> of both builders fails with exactly that status and body,
  with each transport that begins with a handshake over HTTP; it made only \<open>GET\<close> requests, one, or
  two where it tries polling again, and it started no reader or thread.
\<close>

theorem refusal_surfaces:
  assumes "refuses X s b w" and "2 \<le> loop_fuel X"
    and "url_parse X (sb_address B) = Inr u" and "http_ready X (sb_headers B)"
    and "sb_transport B \<noteq> WebsocketTransport"
    and "ab_address A = sb_address B" and "ab_headers A = sb_headers B" and "ab_transport A = sb_transport B"
  shows "\<exists>w1 w2. sio_builder_connect X B w =
      (Err (SioIncompleteResponseFromEngineIo (HttpErrorWithBody s b)), w1) \<and>
    asio_builder_connect X A w = (Err (SioIncompleteResponseFromEngineIo (HttpErrorWithBody s b)), w2) \<and>
    gets (refused_requests (sb_transport B)) w w1 \<and> gets (refused_requests (sb_transport B)) w w2"
proof -
  obtain w1 where w1: "build_engine X (sb_transport B) (engine_builder_of X B u) w = (Err (HttpErrorWithBody s b), w1)"
    "gets (refused_requests (sb_transport B)) w w1"
    using engine_refused [OF assms(1) _ _ assms(5), of "engine_builder_of X B u"] assms(4) by auto
  obtain w2 where w2: "build_async_engine X (ab_transport A) (async_engine_builder_of X A u) w =
      (Err (HttpErrorWithBody s b), w2)" "gets (refused_requests (sb_transport B)) w w2"
    using async_engine_refused [OF assms(1) _ _ assms(2,5), of "async_engine_builder_of X A u"] assms(4,7,8) by auto
  have "sio_builder_connect X B w = (Err (SioIncompleteResponseFromEngineIo (HttpErrorWithBody s b)), w1)"
    using w1(1) assms(3) by (simp add: sio_builder_connect_def sio_client_new_def sio_connect_raw_def)
  moreover have "asio_builder_connect X A w = (Err (SioIncompleteResponseFromEngineIo (HttpErrorWithBody s b)), w2)"
    using w2(1) assms(3,6) by (simp add: asio_builder_connect_def asio_connect_manual_def asio_inner_create_def)
  ultimately show ?thesis using w1(2) w2(2) by blast
qed


subsection \<open>Closed at the start\<close>

text \<open>A URL the \<open>n\<close>th websocket can be opened to, plain or over TLS.\<close>

definition connects :: "ext \<Rightarrow> nat \<Rightarrow> url option \<Rightarrow> bool" where
  "connects X n u = (case u of None \<Rightarrow> False
     | Some v \<Rightarrow> ws_request_ok X v = Inr () \<and> snd (net_connect X n v) = Inr ())"

definition opens_websocket :: "ext \<Rightarrow> nat \<Rightarrow> url \<Rightarrow> bool" where
  "opens_websocket X n u \<longleftrightarrow>
     url_parse X u = Inr u \<and> url_scheme X u \<in> {''http'', ''ws'', ''https'', ''wss''} \<and>
     (\<forall>s\<in>{''ws'', ''wss''}. connects X n (url_set_scheme X s (url_append_pair X ''transport'' ''websocket'' u)))"

text \<open>The first item of a new connection is a close frame, there within the time of a handshake.\<close>

definition closes_at_once :: "ext \<Rightarrow> (u16 \<times> bytes) option \<Rightarrow> world \<Rightarrow> bool" where
  "closes_at_once X f w \<longleftrightarrow> received w (connect_count w) = 0 \<and>
     (\<exists>i. net_recv X (connect_count w) 0 = (i, WsMsg (WsClose f)) \<and> i \<le> now w + unat DEFAULT_MAX_POLL_TIMEOUT)"

lemma ws_opened:
  assumes "opens_websocket X (connect_count w) u"
  shows "\<exists>t w1. async_ws_new X u h w = (Ok t, w1) \<and> ws_conn t = connect_count w \<and>
      now w \<le> now w1 \<and> received w1 = received w"
    and "\<exists>t w1. async_wss_new X u c h w = (Ok t, w1) \<and> ws_conn t = connect_count w \<and>
      now w \<le> now w1 \<and> received w1 = received w"
  using assms
  by (auto simp: opens_websocket_def connects_def async_ws_new_def async_wss_new_def unwrap_def ws_connect_def
      ws_general_new_def did_def case_prod_beta Let_def split: option.splits)

text \<open>Reading it: with the deadline of the blocking client, or without one.\<close>

lemma close_frame_read:
  assumes "net_recv X c (received w c) = (i, WsMsg (WsClose f))" and "0 < loop_fuel X"
    and "\<not> past dl (max (now w) i)"
  shows "fst (ws_general_poll_next X dl c w) = Err (close_frame_to_error f)"
  using assms by (cases "loop_fuel X") (simp_all add: ws_general_poll_next_def ws_poll_loop_Suc ws_recv_def in_time_def Let_def)

lemma ready_closed:
  assumes "closes_at_once X f w" and "ws_conn t = connect_count w" and "now w \<le> now w1" and "received w1 = received w"
    and "0 < loop_fuel X" and "cb_handshake B = None"
    and "poll \<in> {\<lambda>ms. ws_poll X ms t, \<lambda>ms. wss_poll X ms t}"
  shows "fst (eio_websocket_ready X up poll tr B w1) = Err (close_frame_to_error f)"
proof -
  let ?ms = "DEFAULT_MAX_POLL_TIMEOUT"
  from assms obtain i where i: "net_recv X (ws_conn t) (received w1 (ws_conn t)) = (i, WsMsg (WsClose f))"
    "i \<le> now w1 + unat ?ms"
    by (auto simp: closes_at_once_def intro: order_trans)
  then have "fst (ws_general_poll_next X (Some (now w1 + unat ?ms)) (ws_conn t) w1) = Err (close_frame_to_error f)"
    by (intro close_frame_read [OF i(1) assms(5)]) (auto simp: past_def)
  then obtain w2 where w2: "ws_general_poll_next X (Some (now w1 + unat ?ms)) (ws_conn t) w1 =
      (Err (close_frame_to_error f), w2)" by (metis prod.collapse)
  with assms(7) have "poll ?ms w1 = (Err (close_frame_to_error f), w2)"
    by (auto simp: ws_poll_def wss_poll_def async_ws_poll_next_def async_wss_poll_next_def)
  with assms(6) show ?thesis
    by (simp add: eio_websocket_ready_def eio_handshake_with_transport_def)
qed

lemma async_ready_closed:
  assumes "closes_at_once X f w" and "ws_conn t = connect_count w" and "received w1 = received w"
    and "0 < loop_fuel X" and "cb_handshake B = None"
    and "next \<in> {async_ws_stream_next X None t, async_wss_stream_next X None t}"
  shows "fst (async_websocket_ready X up next tr B w1) = Err (close_frame_to_error f)"
proof -
  from assms obtain i where i: "net_recv X (ws_conn t) (received w1 (ws_conn t)) = (i, WsMsg (WsClose f))"
    by (auto simp: closes_at_once_def)
  then have "fst (ws_general_poll_next X None (ws_conn t) w1) = Err (close_frame_to_error f)"
    by (intro close_frame_read [OF i assms(4)]) (simp add: past_def)
  then obtain w2 where w2: "ws_general_poll_next X None (ws_conn t) w1 =
      (Err (close_frame_to_error f), w2)" by (metis prod.collapse)
  with assms(6) have "next w1 = (Err (close_frame_to_error f), w2)"
    by (auto simp: async_ws_stream_next_def async_wss_stream_next_def)
  with assms(5) show ?thesis
    by (simp add: async_websocket_ready_def async_handshake_with_transport_def)
qed

lemma engine_closed:
  assumes "opens_websocket X (connect_count w) (cb_url B)" and "closes_at_once X f w" and "0 < loop_fuel X"
    and "convert_headers X (cb_headers B) = Ok hs" and "cb_handshake B = None"
  shows "runtime_build X = Inr () \<Longrightarrow> fst (eio_build_websocket X B w) = Err (close_frame_to_error f)"
    and "fst (async_build_websocket X B w) = Err (close_frame_to_error f)"
proof -
  have parse: "url_parse X (cb_url B) = Inr (cb_url B)"
      and scheme: "url_scheme X (cb_url B) \<in> {''http'', ''ws''} \<or> url_scheme X (cb_url B) \<in> {''https'', ''wss''}"
    using assms(1) by (auto simp: opens_websocket_def)
  obtain t w1 where t: "async_ws_new X (cb_url B) hs w = (Ok t, w1)" "ws_conn t = connect_count w" "now w \<le> now w1"
    "received w1 = received w" using ws_opened(1) [OF assms(1)] by blast
  obtain s w2 where s: "async_wss_new X (cb_url B) (cb_tls B) hs w = (Ok s, w2)" "ws_conn s = connect_count w"
    "now w \<le> now w2" "received w2 = received w" using ws_opened(2) [OF assms(1)] by blast
  from scheme show "fst (eio_build_websocket X B w) = Err (close_frame_to_error f)" if "runtime_build X = Inr ()"
    using t s ready_closed [OF assms(2) t(2,3,4) assms(3,5), of "\<lambda>ms. ws_poll X ms t"]
      ready_closed [OF assms(2) s(2,3,4) assms(3,5), of "\<lambda>ms. wss_poll X ms s"] that
    by (auto simp: eio_build_websocket_def parse assms(4) ws_new_def wss_new_def)
  from scheme show "fst (async_build_websocket X B w) = Err (close_frame_to_error f)"
    using t s async_ready_closed [OF assms(2) t(2,4) assms(3,5)] async_ready_closed [OF assms(2) s(2,4) assms(3,5)]
    by (auto simp: async_build_websocket_def assms(4))
qed

text \<open>
  C8. So does the code of a close. When the server accepts the websocket and closes it with a code and
  a reason instead of a handshake, \<open>connect\<close> of both builders, told to use a websocket, fails with
  exactly that code and reason, 1005 and the empty reason if the frame has none; over TLS too.
\<close>

theorem close_code_surfaces:
  assumes "closes_at_once X f w" and "0 < loop_fuel X" and "runtime_build X = Inr ()"
    and "url_parse X (sb_address B) = Inr u" and "opens_websocket X (connect_count w) (cb_url (engine_builder_of X B u))"
    and "opens_websocket X (connect_count w) (cb_url (async_engine_builder_of X A u))"
    and "http_ready X (sb_headers B)" and "sb_transport B = WebsocketTransport"
    and "ab_address A = sb_address B" and "ab_headers A = sb_headers B" and "ab_transport A = sb_transport B"
  shows "fst (sio_builder_connect X B w) = Err (SioIncompleteResponseFromEngineIo (close_frame_to_error f)) \<and>
    fst (asio_builder_connect X A w) = Err (SioIncompleteResponseFromEngineIo (close_frame_to_error f))"
proof -
  from assms(7) obtain hs where hs: "convert_headers X (sb_headers B) = Ok hs" by (auto simp: http_ready_def)
  have "fst (eio_build_websocket X (engine_builder_of X B u) w) = Err (close_frame_to_error f)"
    by (rule engine_closed(1) [OF assms(5,1,2), where hs = hs]) (simp_all add: hs assms(3))
  then obtain w1 where w1: "eio_build_websocket X (engine_builder_of X B u) w = (Err (close_frame_to_error f), w1)"
    by (metis prod.collapse)
  have "fst (async_build_websocket X (async_engine_builder_of X A u) w) = Err (close_frame_to_error f)"
    by (rule engine_closed(2) [OF assms(6,1,2), where hs = hs]) (simp_all add: hs assms(10))
  then obtain w2 where w2: "async_build_websocket X (async_engine_builder_of X A u) w = (Err (close_frame_to_error f), w2)"
    by (metis prod.collapse)
  from w1 w2 assms(4,8,9,11) show ?thesis
    by (simp add: sio_builder_connect_def sio_client_new_def sio_connect_raw_def build_engine_def
        asio_builder_connect_def asio_connect_manual_def asio_inner_create_def build_async_engine_def)
qed


subsection \<open>The servers of the tests\<close>

text \<open>
  \<open>spawn_http_error_mock\<close> of both crates: a server that answers its first \<open>k\<close> requests with a status
  and a body; \<open>spawn_close_4900_server\<close>: one that accepts a single websocket and closes it with code 4900.
\<close>

definition http_error_mock :: "nat \<Rightarrow> u16 \<Rightarrow> bytes \<Rightarrow> ext \<Rightarrow> ext" where
  "http_error_mock k s b X = X\<lparr>net_http := \<lambda>n r.
     if n < k then (0, Inr \<lparr>resp_status = s, resp_text = Inr b, resp_bytes = Inr b, resp_chunks = [Inr b]\<rparr>)
     else (0, Inl ''connection refused'')\<rparr>"

definition close_4900_server :: "ext \<Rightarrow> ext" where
  "close_4900_server X = X\<lparr>net_connect := \<lambda>n u. (0, if n = 0 then Inr () else Inl ''connection refused''),
     net_recv := \<lambda>c k. (0, if k = 0 then WsMsg (WsClose (Some (4900, ''version handshake rejected''))) else WsEnd)\<rparr>"

definition mismatch_body :: bytes where
  "mismatch_body = ''{\"code\":4008,\"message\":\"Protocol version mismatch\"}''"

lemma mock_refuses:
  "n < k \<Longrightarrow> s \<noteq> 200 \<Longrightarrow> refused_at (http_error_mock k s b X) s b n"
  by (simp add: refused_at_def http_error_mock_def)

lemma mock_refuses_twice:
  "Suc (http_count w) < k \<Longrightarrow> s \<noteq> 200 \<Longrightarrow> refuses (http_error_mock k s b X) s b w"
  by (simp add: refuses_def mock_refuses)

lemma mock_simps [simp]:
  "url_parse (http_error_mock k s b X) = url_parse X" "loop_fuel (http_error_mock k s b X) = loop_fuel X"
  "http_client_ok (http_error_mock k s b X) = http_client_ok X"
  by (simp_all add: http_error_mock_def)

theorem refusal_surfaces_witness:
  "fst (asio_builder_connect (http_error_mock 4 400 mismatch_body demo_ext) (asio_builder_new ''http://h/'') demo_world) =
     Err (SioIncompleteResponseFromEngineIo (HttpErrorWithBody 400 mismatch_body))"
proof -
  let ?X = "http_error_mock 4 400 mismatch_body demo_ext"
  have "refuses ?X 400 mismatch_body demo_world" by (rule mock_refuses_twice) simp_all
  from refusal_surfaces [OF this, of "sio_builder_new ''http://h/''" "''http://h/''" "asio_builder_new ''http://h/''"]
  show ?thesis
    by (auto simp: sio_builder_new_def asio_builder_new_def http_ready_def convert_headers_def demo_ext_def)
qed

theorem close_code_surfaces_witness:
  "fst (asio_builder_connect (close_4900_server demo_ext)
       (asio_builder_transport_type WebsocketTransport (asio_builder_new ''http://h'')) demo_world) =
     Err (SioIncompleteResponseFromEngineIo (WebsocketClosed 4900 ''version handshake rejected''))"
proof -
  let ?X = "close_4900_server demo_ext" and ?B = "sio_builder_transport_type WebsocketTransport (sio_builder_new ''http://h'')"
    and ?A = "asio_builder_transport_type WebsocketTransport (asio_builder_new ''http://h'')"
  have "opens_websocket ?X (connect_count demo_world) (cb_url (engine_builder_of ?X ?B ''http://h''))" by code_simp
  moreover have "opens_websocket ?X (connect_count demo_world) (cb_url (async_engine_builder_of ?X ?A ''http://h''))" by code_simp
  moreover have "closes_at_once ?X (Some (4900, ''version handshake rejected'')) demo_world"
    by (simp add: closes_at_once_def close_4900_server_def)
  ultimately show ?thesis
    using close_code_surfaces [of ?X "Some (4900, ''version handshake rejected'')" demo_world ?B "''http://h''" ?A]
    by (simp add: sio_builder_new_def asio_builder_new_def sio_builder_transport_type_def asio_builder_transport_type_def
        http_ready_def convert_headers_def close_4900_server_def demo_ext_def)
qed

end
