(* ===== verification/Repository_Tests.thy ===== *)
theory Repository_Tests
  imports Refusals
begin

text \<open>
  The unit tests of the repository that need no server, and those that play one themselves, as
  definitions on the model: \<open>assert\<close>, \<open>assert_eq\<close>, \<open>unwrap\<close> and \<open>expect_err\<close> are the conjuncts. Each is
  shown to pass. The functions of the JSON and base64 crates stay arguments; what a test needs of
  them is \<open>json_facts\<close> and \<open>base64_facts\<close>, the values their documentation gives for its texts.
\<close>


subsection \<open>Assertions\<close>

definition passes :: "('e, 'a) outcome \<Rightarrow> ('a \<Rightarrow> bool) \<Rightarrow> bool" where
  "passes r P \<longleftrightarrow> (case r of Ok a \<Rightarrow> P a | _ \<Rightarrow> False)"

definition fails :: "('e, 'a) outcome \<Rightarrow> ('e \<Rightarrow> bool) \<Rightarrow> bool" where
  "fails r P \<longleftrightarrow> (case r of Err e \<Rightarrow> P e | _ \<Rightarrow> False)"

lemma assertions [simp]:
  "passes (Ok a) P \<longleftrightarrow> P a" "fails (Err e) Q \<longleftrightarrow> Q e"
  by (simp_all add: passes_def fails_def)

subsection \<open>\<open>engineio/src/packet.rs\<close>\<close>

definition test_packet_error :: "base64_engine \<Rightarrow> bool" where
  "test_packet_error B \<longleftrightarrow> fails (eio_packet_try_from B []) (\<lambda>e. True)"

definition test_is_reflexive :: "base64_engine \<Rightarrow> bool" where
  "test_is_reflexive B \<longleftrightarrow> passes (eio_packet_try_from B ''1Hello World'') (\<lambda>p.
     packet_id p = Close \<and> data p = ''Hello World'' \<and> eio_packet_into_bytes B p = ''1Hello World'')"

definition test_binary_packet :: "base64_engine \<Rightarrow> bool" where
  "test_binary_packet B \<longleftrightarrow> passes (eio_packet_try_from B ''bSGVsbG8='') (\<lambda>p.
     packet_id p = MessageBinary \<and> data p = ''Hello'' \<and> eio_packet_into_bytes B p = ''bSGVsbG8='')"

text \<open>\<open>packets[i]\<close>, compared with a packet id and data.\<close>

definition packet_is :: "eio_payload \<Rightarrow> nat \<Rightarrow> eio_packet_id \<Rightarrow> bytes \<Rightarrow> bool" where
  "packet_is ps i t d \<longleftrightarrow>
     passes (eio_payload_index ps i :: (eio_error, eio_packet) outcome) (\<lambda>p. packet_id p = t \<and> data p = d)"

definition test_decode_payload :: "base64_engine \<Rightarrow> bool" where
  "test_decode_payload B \<longleftrightarrow> (let d = ''1Hello'' @ [CHR 0x1E] @ ''1HelloWorld'' in
     passes (eio_payload_try_from B d) (\<lambda>ps.
       packet_is ps 0 Close ''Hello'' \<and> packet_is ps 1 Close ''HelloWorld'' \<and> eio_payload_into_bytes B ps = Ok d))"

definition test_binary_payload :: "base64_engine \<Rightarrow> bool" where
  "test_binary_payload B \<longleftrightarrow>
     (let d = ''bSGVsbG8='' @ [CHR 0x1E] @ ''bSGVsbG9Xb3JsZA=='' @ [CHR 0x1E] @ ''bSGVsbG8='' in
      passes (eio_payload_try_from B d) (\<lambda>ps. length ps = 3 \<and>
        packet_is ps 0 MessageBinary ''Hello'' \<and> packet_is ps 1 MessageBinary ''HelloWorld'' \<and>
        packet_is ps 2 MessageBinary ''Hello'' \<and> eio_payload_into_bytes B ps = Ok d))"

definition test_packet_id_conversion_and_incompl_packet :: "base64_engine \<Rightarrow> bool" where
  "test_packet_id_conversion_and_incompl_packet B \<longleftrightarrow>
     fails (eio_packet_try_from B ''4'') (\<lambda>e. True) \<and> eio_packet_id_display MessageBinary = ''b'' \<and>
     passes (eio_packet_id_try_from 48) (\<lambda>i. i = Open \<and> eio_packet_id_display i = ''0'') \<and>
     passes (eio_packet_id_try_from 49) (\<lambda>i. i = Close \<and> eio_packet_id_display i = ''1'') \<and>
     passes (eio_packet_id_try_from 50) (\<lambda>i. i = Ping \<and> eio_packet_id_display i = ''2'') \<and>
     passes (eio_packet_id_try_from 51) (\<lambda>i. i = Pong \<and> eio_packet_id_display i = ''3'') \<and>
     passes (eio_packet_id_try_from 52) (\<lambda>i. i = Message \<and> eio_packet_id_display i = ''4'') \<and>
     passes (eio_packet_id_try_from 53) (\<lambda>i. i = Upgrade \<and> eio_packet_id_display i = ''5'') \<and>
     passes (eio_packet_id_try_from 54) (\<lambda>i. i = Noop \<and> eio_packet_id_display i = ''6'') \<and>
     fails (eio_packet_id_try_from 42) (\<lambda>e. e = InvalidPacketId 42)"

text \<open>\<open>H\<close> parses the handshake, \<open>S\<close> is what \<open>serde_json::to_string\<close> prints of one.\<close>

definition test_handshake_packet :: "(bytes \<Rightarrow> bytes + handshake_packet) \<Rightarrow> (handshake_packet \<Rightarrow> bytes) \<Rightarrow> bool" where
  "test_handshake_packet H S \<longleftrightarrow>
     fails (handshake_try_from H (eio_packet_new Message ''test'')) (\<lambda>e. True) \<and>
     (let h = \<lparr>sid = ''Test'', upgrades = [''websocket'', ''test''], ping_interval = 10000, ping_timeout = 1000\<rparr> in
      passes (handshake_try_from H (eio_packet_new Message (S h))) (\<lambda>h'. h' = h))"

definition base64_facts :: "base64_engine \<Rightarrow> bool" where
  "base64_facts B \<longleftrightarrow> base64_codec B \<and> base64_encode B ''Hello'' = ''SGVsbG8='' \<and>
     base64_encode B ''HelloWorld'' = ''SGVsbG9Xb3JsZA==''"

subsection \<open>\<open>socketio/src/packet.rs\<close>\<close>

text \<open>The texts of the tests with their packets, in the order of the tests.\<close>

definition decode_cases :: "(bytes \<times> sio_packet) list" where
  "decode_cases =
    [(''0{\"token\":\"123\"}'',
      sio_packet_new Connect ''/'' (Some ''{\"token\":\"123\"}'') None 0 None),
     ((''0/admin'' @ [CHR 0xE2] @ [CHR 0x84] @ [CHR 0xA2] @ '',{\"token'' @ [CHR 0xE2] @ [CHR 0x84] @ [CHR 0xA2] @ ''\":\"123\"}''),
      sio_packet_new Connect (''/admin'' @ [CHR 0xE2] @ [CHR 0x84] @ [CHR 0xA2]) (Some (''{\"token'' @ [CHR 0xE2] @ [CHR 0x84] @ [CHR 0xA2] @ ''\":\"123\"}'')) None 0 None),
     (''1/admin,'',
      sio_packet_new Disconnect ''/admin'' None None 0 None),
     (''2[\"hello\",1]'',
      sio_packet_new Event ''/'' (Some ''[\"hello\",1]'') None 0 None),
     (''2/admin,456[\"project:delete\",123]'',
      sio_packet_new Event ''/admin'' (Some ''[\"project:delete\",123]'') (Some 456) 0 None),
     (''3/admin,456[]'',
      sio_packet_new Ack ''/admin'' (Some ''[]'') (Some 456) 0 None),
     (''4/admin,{\"message\":\"Not authorized\"}'',
      sio_packet_new ConnectError ''/admin'' (Some ''{\"message\":\"Not authorized\"}'') None 0 None),
     (''51-[\"hello\",{\"_placeholder\":true,\"num\":0}]'',
      sio_packet_new BinaryEvent ''/'' (Some ''\"hello\"'') None 1 None),
     (''51-/admin,456[\"project:delete\",{\"_placeholder\":true,\"num\":0}]'',
      sio_packet_new BinaryEvent ''/admin'' (Some ''\"project:delete\"'') (Some 456) 1 None),
     (''61-/admin,456[{\"_placeholder\":true,\"num\":0}]'',
      sio_packet_new BinaryAck ''/admin'' None (Some 456) 1 None)]"

definition test_decode :: "json_lib \<Rightarrow> bool" where
  "test_decode J \<longleftrightarrow> list_all (\<lambda>(d, p). passes (sio_packet_try_from J d) (\<lambda>q. q = p)) decode_cases"

definition encode_cases :: "(bytes \<times> sio_packet) list" where
  "encode_cases =
    [(''0{\"token\":\"123\"}'',
      sio_packet_new Connect ''/'' (Some ''{\"token\":\"123\"}'') None 0 None),
     (''0/admin,{\"token\":\"123\"}'',
      sio_packet_new Connect ''/admin'' (Some ''{\"token\":\"123\"}'') None 0 None),
     (''1/admin,'',
      sio_packet_new Disconnect ''/admin'' None None 0 None),
     (''2[\"hello\",1]'',
      sio_packet_new Event ''/'' (Some ''[\"hello\",1]'') None 0 None),
     (''2/admin,456[\"project:delete\",123]'',
      sio_packet_new Event ''/admin'' (Some ''[\"project:delete\",123]'') (Some 456) 0 None),
     (''3/admin,456[]'',
      sio_packet_new Ack ''/admin'' (Some ''[]'') (Some 456) 0 None),
     (''4/admin,{\"message\":\"Not authorized\"}'',
      sio_packet_new ConnectError ''/admin'' (Some ''{\"message\":\"Not authorized\"}'') None 0 None),
     (''51-[\"hello\",{\"_placeholder\":true,\"num\":0}]'',
      sio_packet_new BinaryEvent ''/'' (Some ''\"hello\"'') None 1 (Some [[CHR 0x01, CHR 0x02, CHR 0x03]])),
     (''51-/admin,456[\"project:delete\",{\"_placeholder\":true,\"num\":0}]'',
      sio_packet_new BinaryEvent ''/admin'' (Some ''\"project:delete\"'') (Some 456) 1 (Some [[CHR 0x01, CHR 0x02, CHR 0x03]])),
     (''61-/admin,456[{\"_placeholder\":true,\"num\":0}]'',
      sio_packet_new BinaryAck ''/admin'' None (Some 456) 1 (Some [[CHR 0x03, CHR 0x02, CHR 0x01]]))]"

definition test_encode :: "bool \<Rightarrow> bool" where
  "test_encode oc \<longleftrightarrow> list_all (\<lambda>(d, p). passes (sio_packet_into_bytes oc p) (\<lambda>b. b = d)) encode_cases"

definition test_illegal_packet_id :: bool where
  "test_illegal_packet_id \<longleftrightarrow> fails (sio_packet_id_try_from_u8 42) (\<lambda>e. True)"

definition nul_four_nine :: bytes where
  "nul_four_nine = [CHR 0x00, CHR 0x04, CHR 0x09]"

definition object_values :: "json list" where
  "object_values = [JString ''String test'', JObject [(''type'', JString ''object'')]]"

definition test_new_from_payload_binary :: "json_lib \<Rightarrow> bool" where
  "test_new_from_payload_binary J \<longleftrightarrow>
     passes (new_from_payload J (PBinary nul_four_nine None) (event_from_str ''test_event'') ''namespace'' None) (\<lambda>p.
       p = \<lparr>packet_type = BinaryEvent, pkt_nsp = ''namespace'', pkt_data = Some ''\"test_event\"'', pkt_id = None,
            attachment_count = 1, attachments = Some [nul_four_nine]\<rparr>)"

definition test_new_from_payload_string :: "json_lib \<Rightarrow> bool" where
  "test_new_from_payload_string J \<longleftrightarrow>
     passes (new_from_payload J (PString ''test'' None) (event_from_str ''other_event'') ''other_namespace'' (Some 10)) (\<lambda>p.
       p = \<lparr>packet_type = Event, pkt_nsp = ''other_namespace'', pkt_data = Some ''[\"other_event\",\"test\"]'',
            pkt_id = Some 10, attachment_count = 0, attachments = None\<rparr>)"

definition test_new_from_payload_json :: "json_lib \<Rightarrow> bool" where
  "test_new_from_payload_json J \<longleftrightarrow>
     passes (new_from_payload J (PText object_values None) (event_from_str ''third_event'') ''/'' (Some 10)) (\<lambda>p.
       p = \<lparr>packet_type = Event, pkt_nsp = ''/'',
            pkt_data = Some ''[\"third_event\",\"String test\",{\"type\":\"object\"}]'',
            pkt_id = Some 10, attachment_count = 0, attachments = None\<rparr>)"

definition test_ack_from_payload_binary :: "json_lib \<Rightarrow> bool" where
  "test_ack_from_payload_binary J \<longleftrightarrow>
     passes (ack_from_payload J (PBinary nul_four_nine None) ''namespace'' None) (\<lambda>p.
       p = \<lparr>packet_type = BinaryAck, pkt_nsp = ''namespace'', pkt_data = None, pkt_id = None,
            attachment_count = 1, attachments = Some [nul_four_nine]\<rparr>)"

definition test_ack_from_payload_string :: "json_lib \<Rightarrow> bool" where
  "test_ack_from_payload_string J \<longleftrightarrow>
     passes (ack_from_payload J (PString ''test'' None) ''other_namespace'' (Some 10)) (\<lambda>p.
       p = \<lparr>packet_type = Ack, pkt_nsp = ''other_namespace'', pkt_data = Some ''[\"test\"]'',
            pkt_id = Some 10, attachment_count = 0, attachments = None\<rparr>)"

definition test_ack_from_payload_json :: "json_lib \<Rightarrow> bool" where
  "test_ack_from_payload_json J \<longleftrightarrow>
     passes (ack_from_payload J (PText object_values None) ''/'' (Some 10)) (\<lambda>p.
       p = \<lparr>packet_type = Ack, pkt_nsp = ''/'', pkt_data = Some ''[\"String test\",{\"type\":\"object\"}]'',
            pkt_id = Some 10, attachment_count = 0, attachments = None\<rparr>)"

subsection \<open>\<open>socketio/src/payload.rs\<close>\<close>

definition foo_tm :: bytes where
  "foo_tm = ''foo '' @ [CHR 0xE2, CHR 0x84, CHR 0xA2]"

definition foo_bar :: json where
  "foo_bar = JArray [JString ''foo'', JString ''bar'']"

definition foo_is_bar :: json where
  "foo_is_bar = JObject [(''foo'', JString ''bar'')]"

definition test_from_string :: "json_lib \<Rightarrow> bool" where
  "test_from_string J \<longleftrightarrow>
     PText [JString foo_tm] None = payload_from_str J foo_tm \<and>
     PText [JString foo_tm] None = payload_from_string J foo_tm \<and>
     PText [JString foo_tm] None = payload_from_value (JString foo_tm)"

definition test_from_multiple_strings :: "json_lib \<Rightarrow> bool" where
  "test_from_multiple_strings J \<longleftrightarrow>
     PText [JString ''one'', JString ''two'', foo_bar] None =
       payload_from_strings J [''one'', ''two'', json_to_string J foo_bar]"

definition test_from_multiple_json :: bool where
  "test_from_multiple_json \<longleftrightarrow>
     (let input = [foo_is_bar, JString ''foo'', foo_bar] in PText input None = payload_from_values input)"

definition test_from_json :: "json_lib \<Rightarrow> bool" where
  "test_from_json J \<longleftrightarrow>
     PText [foo_is_bar] None = payload_from_value foo_is_bar \<and>
     PText [foo_is_bar] None = payload_from_string J (json_to_string J foo_is_bar)"

definition one_two_three :: bytes where
  "one_two_three = [CHR 0x01, CHR 0x02, CHR 0x03]"

definition test_from_binary :: bool where
  "test_from_binary \<longleftrightarrow>
     payload_from_vec one_two_three = PBinary one_two_three None \<and>
     payload_from_slice one_two_three = PBinary one_two_three None \<and>
     payload_from_bytes one_two_three = PBinary one_two_three None"

definition test_payload_with_ack_id :: "json_lib \<Rightarrow> bool" where
  "test_payload_with_ack_id J \<longleftrightarrow>
     (let p = with_ack_id (payload_from_str J ''test'') 123 in
      ack_id p = Some 123 \<and>
      (case p of PText d (Some i) \<Rightarrow> d = [JString ''test''] \<and> i = 123 | _ \<Rightarrow> False))"

definition test_payload_set_ack_id :: bool where
  "test_payload_set_ack_id \<longleftrightarrow>
     (let p = payload_from_vec one_two_three; q = set_ack_id (Some 456) p in
      ack_id p = None \<and> ack_id q = Some 456 \<and> ack_id (set_ack_id None q) = None)"

definition test_payload_data :: bool where
  "test_payload_data \<longleftrightarrow>
     (let p = with_ack_id (payload_from_value (JString ''test'')) 789 in
      (case payload_data p of DText d \<Rightarrow> d = [JString ''test''] | _ \<Rightarrow> False) \<and> ack_id p = Some 789)"

text \<open>
  \<open>test_concurrent_ack.rs\<close> and \<open>test_async_concurrent_ack.rs\<close>, which assert the same. They
  check that a payload keeps its own id; the tasks of the second work on clones and share nothing, so
  there is no interleaving to model and the assertions are stated of the payloads themselves.
\<close>

definition test_payload_ack_id_concurrency :: bool where
  "test_payload_ack_id_concurrency \<longleftrightarrow>
     ack_id (PText [JString ''message1''] (Some 1)) = Some 1 \<and>
     ack_id (PText [JString ''message2''] (Some 2)) = Some 2 \<and>
     ack_id (PBinary one_two_three (Some 3)) = Some 3 \<and>
     (let p = PText [JString ''test''] None in ack_id p = None \<and> ack_id (set_ack_id (Some 42) p) = Some 42) \<and>
     ack_id (with_ack_id (PText [JString ''base''] None) 100) = Some 100"

definition test_concurrent_ack_scenario :: bool where
  "test_concurrent_ack_scenario \<longleftrightarrow>
     (let ms = [PText [JString ''msg1''] (Some 10), PText [JString ''msg2''] (Some 11),
                PBinary [CHR 0x04, CHR 0x05, CHR 0x06] (Some 12)] in
      list_all (\<lambda>(i, m). ack_id m = Some (10 + of_nat i)) (enumerate 0 ms) \<and>
      ack_id (set_ack_id (Some 999) (ms ! 0)) = Some 999 \<and> ack_id (ms ! 1) = Some 11)"

definition test_async_payload_ack_id_concurrency :: bool where
  "test_async_payload_ack_id_concurrency \<longleftrightarrow>
     ack_id (PText [JString ''message1''] (Some 1)) = Some 1 \<and>
     ack_id (PText [JString ''message2''] (Some 2)) = Some 2 \<and>
     ack_id (PBinary one_two_three (Some 3)) = Some 3 \<and>
     (let p = PText [JString ''test''] None in ack_id p = None \<and> ack_id (set_ack_id (Some 42) p) = Some 42) \<and>
     ack_id (with_ack_id (PText [JString ''base''] None) 100) = Some 100"

definition test_async_concurrent_ack_scenario :: bool where
  "test_async_concurrent_ack_scenario \<longleftrightarrow>
     (let ms = [PText [JString ''msg1''] (Some 10), PText [JString ''msg2''] (Some 11),
                PBinary [CHR 0x04, CHR 0x05, CHR 0x06] (Some 12)];
          handle1 = ack_id (set_ack_id (Some 999) (ms ! 0)); handle2 = ack_id (ms ! 1) in
      list_all (\<lambda>(i, m). ack_id m = Some (10 + of_nat i)) (enumerate 0 ms) \<and>
      handle1 = Some 999 \<and> handle2 = Some 11)"

subsection \<open>What the tests need of JSON\<close>

text \<open>The text the decoder asks the JSON library about, for a packet it is to return.\<close>

definition json_text_of :: "sio_packet \<Rightarrow> bytes option" where
  "json_text_of p = (if is_binary_type (packet_type p) then Some (sio_binary_body (pkt_data p)) else pkt_data p)"

definition json_facts :: "json_lib \<Rightarrow> bool" where
  "json_facts J \<longleftrightarrow>
     list_all (\<lambda>(d, p). case json_text_of p of None \<Rightarrow> True | Some s \<Rightarrow> json_is_valid J s) decode_cases \<and>
     \<not> json_is_valid J ''test'' \<and>
     list_all (\<lambda>s. isl (json_from_str J s)) [foo_tm, ''one'', ''two'', ''test''] \<and>
     list_all (\<lambda>v. json_from_str J (json_to_string J v) = Inr v) [foo_bar, foo_is_bar] \<and>
     json_to_string J (JString ''test_event'') = ''\"test_event\"'' \<and>
     json_to_string J (JArray (JString ''third_event'' # object_values)) =
       ''[\"third_event\",\"String test\",{\"type\":\"object\"}]'' \<and>
     json_to_string J (JArray object_values) = ''[\"String test\",{\"type\":\"object\"}]''"

subsection \<open>The tests of the formats pass\<close>

lemma wf_of_plain:
  assumes "sio_packet_wf plain_json_lib p" and "case json_text_of p of None \<Rightarrow> True | Some s \<Rightarrow> json_is_valid J s"
  shows "sio_packet_wf J p"
  using assms
  by (auto simp: sio_packet_wf_def body_ok_def json_text_of_def json_is_valid_def split: option.splits if_splits)

lemma decode_cases_plain:
  "list_all (\<lambda>(d, p). sio_packet_wf plain_json_lib p \<and> sio_text p = d) decode_cases"
  by code_simp

lemma test_decode_passes:
  assumes "json_facts J" shows "test_decode J"
proof -
  have "sio_packet_try_from J d = Ok p" if "(d, p) \<in> set decode_cases" for d p
  proof -
    have "list_all (\<lambda>(d, p). case json_text_of p of None \<Rightarrow> True | Some s \<Rightarrow> json_is_valid J s) decode_cases"
      using assms by (simp only: json_facts_def)
    with that have "case json_text_of p of None \<Rightarrow> True | Some s \<Rightarrow> json_is_valid J s"
      unfolding list_all_iff by blast
    moreover from that decode_cases_plain have "sio_packet_wf plain_json_lib p" "sio_text p = d"
      unfolding list_all_iff by blast+
    ultimately show ?thesis using sio_packet_dec_enc [OF wf_of_plain] by blast
  qed
  then show ?thesis by (auto simp: test_decode_def list_all_iff)
qed

lemma test_encode_passes: "test_encode oc"
  by (cases oc) (simp_all only:, code_simp+)

lemma eio_tests_pass:
  assumes "base64_facts B"
  shows "test_packet_error B" "test_is_reflexive B" "test_binary_packet B" "test_decode_payload B"
    "test_binary_payload B" "test_packet_id_conversion_and_incompl_packet B"
proof -
  have enc: "base64_encode B ''Hello'' = ''SGVsbG8=''" "base64_encode B ''HelloWorld'' = ''SGVsbG9Xb3JsZA==''"
    and codec: "base64_decode B (base64_encode B d) = Inr d" for d
    using assms by (simp_all only: base64_facts_def base64_codec_def)
  have dec: "base64_decode B ''SGVsbG8='' = Inr ''Hello''" "base64_decode B ''SGVsbG9Xb3JsZA=='' = Inr ''HelloWorld''"
    using codec [of "''Hello''"] codec [of "''HelloWorld''"] unfolding enc by simp_all
  have one: "eio_packet_try_from B (CHR ''1'' # s) = Ok (eio_packet_new Close s)" for s
    by (simp add: eio_packet_try_from_Cons byte_u8_def eio_packet_id_try_from_def)
  have b: "eio_packet_try_from B ''bSGVsbG8='' = Ok (eio_packet_new MessageBinary ''Hello'')"
    "eio_packet_try_from B ''bSGVsbG9Xb3JsZA=='' = Ok (eio_packet_new MessageBinary ''HelloWorld'')"
    by (simp_all add: eio_packet_try_from_Cons byte_u8_def dec)
  have chars: "char_of (49::nat) = CHR ''1''" "char_of (98::nat) = CHR ''b''" "char_of (48::nat) = CHR ''0''"
    "char_of (50::nat) = CHR ''2''" "char_of (51::nat) = CHR ''3''" "char_of (52::nat) = CHR ''4''"
    "char_of (53::nat) = CHR ''5''" "char_of (54::nat) = CHR ''6''" by code_simp+
  have bytes: "eio_packet_into_bytes B (eio_packet_new Close s) = CHR ''1'' # s"
    "eio_packet_into_bytes B (eio_packet_new MessageBinary s) = CHR ''b'' # base64_encode B s" for s
    by (simp_all add: eio_packet_into_bytes_def eio_packet_new_def to_string_byte_cases u8_byte_def chars)
  have split: "split_on SEPARATOR (''1Hello'' @ [CHR 0x1E] @ ''1HelloWorld'') = [''1Hello'', ''1HelloWorld'']"
    "split_on SEPARATOR (''bSGVsbG8='' @ [CHR 0x1E] @ ''bSGVsbG9Xb3JsZA=='' @ [CHR 0x1E] @ ''bSGVsbG8='') =
      [''bSGVsbG8='', ''bSGVsbG9Xb3JsZA=='', ''bSGVsbG8='']" by code_simp+
  show "test_packet_error B" by (simp add: test_packet_error_def eio_packet_try_from_def)
  show "test_is_reflexive B" unfolding test_is_reflexive_def one by (simp add: bytes) (simp add: eio_packet_new_def)
  show "test_binary_packet B" unfolding test_binary_packet_def b by (simp add: bytes enc) (simp add: eio_packet_new_def)
  show "test_decode_payload B"
    unfolding test_decode_payload_def Let_def eio_payload_try_from_def split
    by (simp add: one bytes eio_payload_index_def packet_is_def) (simp add: eio_packet_new_def)
  show "test_binary_payload B"
    unfolding test_binary_payload_def Let_def eio_payload_try_from_def split
    by (simp add: b bytes enc eio_payload_index_def packet_is_def) (simp add: eio_packet_new_def)
  show "test_packet_id_conversion_and_incompl_packet B"
    by (simp add: test_packet_id_conversion_and_incompl_packet_def eio_packet_try_from_Cons byte_u8_def
        eio_packet_id_try_from_def eio_packet_id_display_def to_string_byte_cases u8_byte_def chars)
qed

lemma sio_packet_tests_pass:
  assumes "json_facts J"
  shows "test_illegal_packet_id" "test_new_from_payload_binary J" "test_new_from_payload_string J"
    "test_new_from_payload_json J" "test_ack_from_payload_binary J" "test_ack_from_payload_string J"
    "test_ack_from_payload_json J"
proof -
  have ev: "event_from_str ''test_event'' = EvCustom ''test_event''" "event_from_str ''other_event'' = EvCustom ''other_event''"
    "event_from_str ''third_event'' = EvCustom ''third_event''" by code_simp+
  show "test_illegal_packet_id" by code_simp
  show "test_new_from_payload_binary J" "test_new_from_payload_string J"
    "test_new_from_payload_json J" "test_ack_from_payload_binary J" "test_ack_from_payload_string J"
    "test_ack_from_payload_json J"
    using assms ev
    by (simp_all add: test_new_from_payload_binary_def test_new_from_payload_string_def test_new_from_payload_json_def
        test_ack_from_payload_binary_def test_ack_from_payload_string_def test_ack_from_payload_json_def
        json_facts_def sio_packet_new_def event_into_string_def event_display_def event_as_str_def quoted_def)
qed

lemma payload_tests_pass:
  assumes "json_facts J"
  shows "test_from_string J" "test_from_multiple_strings J" "test_from_multiple_json" "test_from_json J"
    "test_from_binary" "test_payload_with_ack_id J" "test_payload_set_ack_id" "test_payload_data"
  using assms
  by (auto simp: test_from_string_def test_from_multiple_strings_def test_from_multiple_json_def test_from_json_def
      test_from_binary_def test_payload_with_ack_id_def test_payload_set_ack_id_def test_payload_data_def
      payload_from_str_def payload_from_string_def payload_from_strings_def payload_from_values_def payload_from_value_def
      payload_from_vec_def payload_from_slice_def payload_from_bytes_def string_to_value_def json_facts_def
      split: sum.splits)

lemma concurrent_ack_tests_pass:
  "test_payload_ack_id_concurrency" "test_concurrent_ack_scenario"
  "test_async_payload_ack_id_concurrency" "test_async_concurrent_ack_scenario"
  by code_simp+


lemma test_handshake_packet_passes:
  assumes "isl (H ''test'')" and "\<And>h. H (S h) = Inr h"
  shows "test_handshake_packet H S"
  using assms by (auto simp: test_handshake_packet_def handshake_try_from_def eio_packet_new_def isl_def)

text \<open>
  All of these at once. (The test of the handshake, which compares with a handshake of the JSON library,
  is \<open>test_handshake_packet_passes\<close>.) A regression suite: the values are those of the tests.
\<close>

lemma format_tests_pass:
  assumes "json_facts J" and "base64_facts B"
  shows "test_packet_error B \<and> test_is_reflexive B \<and> test_binary_packet B \<and> test_decode_payload B \<and>
    test_binary_payload B \<and> test_packet_id_conversion_and_incompl_packet B \<and>
    test_decode J \<and> test_encode oc \<and> test_illegal_packet_id \<and>
    test_new_from_payload_binary J \<and> test_new_from_payload_string J \<and> test_new_from_payload_json J \<and>
    test_ack_from_payload_binary J \<and> test_ack_from_payload_string J \<and> test_ack_from_payload_json J \<and>
    test_from_string J \<and> test_from_multiple_strings J \<and> test_from_multiple_json \<and> test_from_json J \<and>
    test_from_binary \<and> test_payload_with_ack_id J \<and> test_payload_set_ack_id \<and> test_payload_data \<and>
    test_payload_ack_id_concurrency \<and> test_concurrent_ack_scenario \<and>
    test_async_payload_ack_id_concurrency \<and> test_async_concurrent_ack_scenario"
  using eio_tests_pass [OF assms(2)] test_decode_passes [OF assms(1)] test_encode_passes
    sio_packet_tests_pass [OF assms(1)] payload_tests_pass [OF assms(1)] concurrent_ack_tests_pass
  by simp

text \<open>A JSON library with these values: it accepts everything but the plain words and parses what it is asked for.\<close>

definition demo_test_json :: json_lib where
  "demo_test_json = plain_json_lib\<lparr>
     json_valid := \<lambda>s. if s = ''test'' then Inl ''expected ident'' else Inr (),
     json_from_str := \<lambda>s. if s = plain_json foo_bar then Inr foo_bar else if s = plain_json foo_is_bar then Inr foo_is_bar
       else Inl ''expected value''\<rparr>"

text \<open>An engine with the two values of base64, and the letters of \<open>letters_engine\<close> for all other bytes.\<close>

definition demo_test_base64 :: base64_engine where
  "demo_test_base64 = \<lparr>
     base64_encode = \<lambda>d. if d = ''Hello'' then ''SGVsbG8='' else if d = ''HelloWorld'' then ''SGVsbG9Xb3JsZA==''
       else base64_encode letters_engine d,
     base64_decode = \<lambda>s. if s = ''SGVsbG8='' then Inr ''Hello'' else if s = ''SGVsbG9Xb3JsZA=='' then Inr ''HelloWorld''
       else base64_decode letters_engine s\<rparr>"

lemma demo_test_json_facts: "json_facts demo_test_json"
  by code_simp

lemma letters_without_S: "CHR ''S'' \<notin> set (letters_encode d)"
proof (induction d)
  case (Cons c d)
  have "CHR ''S'' \<noteq> nibble_char n" if "n < 16" for n
  proof
    assume "CHR ''S'' = nibble_char n"
    then have "(of_char (nibble_char n) :: nat) = of_char (CHR ''S'')" by simp
    also have "\<dots> = 83" by code_simp
    finally have "(of_char (nibble_char n) :: nat) = 83" .
    with that show False by simp
  qed
  with Cons show ?case by (simp add: letters_encode_def)
qed (simp add: letters_encode_def)

lemma demo_test_base64_facts: "base64_facts demo_test_base64"
proof -
  have "letters_encode d \<noteq> CHR ''S'' # s" for d s
    using letters_without_S [of d] by (metis list.set_intros(1))
  moreover have "SEPARATOR \<notin> set ''SGVsbG8=''" "SEPARATOR \<notin> set ''SGVsbG9Xb3JsZA==''" by code_simp+
  ultimately show ?thesis
    using letters_encode_no_sep letters_decode_encode
    by (auto simp: base64_facts_def base64_codec_def demo_test_base64_def letters_engine_def)
qed

lemma format_tests_pass_demo: "test_decode demo_test_json \<and> test_binary_payload demo_test_base64"
  using format_tests_pass [OF demo_test_json_facts demo_test_base64_facts] by blast


subsection \<open>The tests with a server of their own\<close>

text \<open>\<open>u\<close> is the URL of the server. The world is that of a test at its start: nothing was asked yet.\<close>

definition starts :: "world \<Rightarrow> bool" where
  "starts w \<longleftrightarrow> http_count w = 0 \<and> connect_count w = 0 \<and> received w 0 = 0"

definition polling_transport_emit_returns_http_error_with_body :: "ext \<Rightarrow> url \<Rightarrow> world \<Rightarrow> bool" where
  "polling_transport_emit_returns_http_error_with_body X u w \<longleftrightarrow>
     (let Y = http_error_mock 8 400 mismatch_body X in
      passes (polling_new Y u None None) (\<lambda>t.
        fails (fst (polling_emit Y t ''hello'' False w)) (\<lambda>e. e = HttpErrorWithBody 400 mismatch_body)))"

definition polling_transport_poll_returns_http_error_with_body :: "ext \<Rightarrow> url \<Rightarrow> world \<Rightarrow> bool" where
  "polling_transport_poll_returns_http_error_with_body X u w \<longleftrightarrow>
     (let Y = http_error_mock 8 400 mismatch_body X in
      passes (polling_new Y u None None) (\<lambda>t.
        fails (fst (polling_poll Y 2000 t w)) (\<lambda>e. e = HttpErrorWithBody 400 mismatch_body)))"

definition async_polling_transport_emit_returns_http_error_with_body :: "ext \<Rightarrow> url \<Rightarrow> world \<Rightarrow> bool" where
  "async_polling_transport_emit_returns_http_error_with_body X u w \<longleftrightarrow>
     (let Y = http_error_mock 8 400 mismatch_body X in
      passes (async_polling_new Y u None None) (\<lambda>t.
        fails (fst (async_polling_emit Y t ''hello'' False w)) (\<lambda>e. e = HttpErrorWithBody 400 mismatch_body)))"

definition async_polling_transport_get_returns_http_error_with_body :: "ext \<Rightarrow> url \<Rightarrow> world \<Rightarrow> bool" where
  "async_polling_transport_get_returns_http_error_with_body X u w \<longleftrightarrow>
     (let Y = http_error_mock 8 400 mismatch_body X in
      passes (async_polling_new Y u None None) (\<lambda>t.
        fails (fst (async_polling_next Y None t w)) (\<lambda>e. e = HttpErrorWithBody 400 mismatch_body)))"

definition websocket_close_code_surfaced_via_poll_next :: "ext \<Rightarrow> url \<Rightarrow> world \<Rightarrow> bool" where
  "websocket_close_code_surfaced_via_poll_next X u w \<longleftrightarrow>
     (let Y = close_4900_server X; (r, w) = async_ws_new Y u None w in
      passes r (\<lambda>t. fails (fst (async_ws_poll_next Y None t w))
        (\<lambda>e. e = WebsocketClosed 4900 ''version handshake rejected'')))"

definition websocket_close_code_surfaced_via_build_handshake :: "ext \<Rightarrow> url \<Rightarrow> world \<Rightarrow> bool" where
  "websocket_close_code_surfaced_via_build_handshake X u w \<longleftrightarrow>
     (let Y = close_4900_server X in
      fails (fst (async_build_websocket Y (async_builder_new Y u) w))
        (\<lambda>e. e = WebsocketClosed 4900 ''version handshake rejected''))"

definition websocket_close_code_surfaced_via_stream_impl :: "ext \<Rightarrow> url \<Rightarrow> world \<Rightarrow> bool" where
  "websocket_close_code_surfaced_via_stream_impl X u w \<longleftrightarrow>
     (let Y = close_4900_server X; (r, w) = async_ws_new Y u None w in
      passes r (\<lambda>t. fails (fst (async_ws_stream_next Y None t w))
        (\<lambda>e. e = WebsocketClosed 4900 ''version handshake rejected'')))"

definition connect_surfaces_http_error_body_through_socketio_error :: "ext \<Rightarrow> bytes \<Rightarrow> world \<Rightarrow> bool" where
  "connect_surfaces_http_error_body_through_socketio_error X a w \<longleftrightarrow>
     (let Y = http_error_mock 4 400 mismatch_body X in
      fails (fst (asio_builder_connect Y (asio_builder_transport_type PollingTransport (asio_builder_new a)) w))
        (\<lambda>e. e = SioIncompleteResponseFromEngineIo (HttpErrorWithBody 400 mismatch_body)))"

lemma http_server_tests_pass:
  assumes "starts w" and "2 \<le> loop_fuel X" and "\<And>t h. http_client_ok X t h" and "url_parse X a = Inr u"
  shows "polling_transport_emit_returns_http_error_with_body X u w"
    "polling_transport_poll_returns_http_error_with_body X u w"
    "async_polling_transport_emit_returns_http_error_with_body X u w"
    "async_polling_transport_get_returns_http_error_with_body X u w"
    "connect_surfaces_http_error_body_through_socketio_error X a w"
proof -
  let ?Y = "http_error_mock 8 400 mismatch_body X" and ?Z = "http_error_mock 4 400 mismatch_body X"
  have r8: "refused_at ?Y 400 mismatch_body (http_count w)" and r4: "refused_at ?Z 400 mismatch_body (http_count w)"
    using assms(1) by (simp_all add: starts_def mock_refuses)
  have count: "http_count w = 0" using assms(1) by (simp add: starts_def)
  show "polling_transport_emit_returns_http_error_with_body X u w"
    using assms(3) count
    by (simp add: polling_transport_emit_returns_http_error_with_body_def polling_new_def polling_emit_def stamped_def
        polling_base_url_def http_send_def http_error_mock_def http_status_error_def Let_def)
  show "async_polling_transport_emit_returns_http_error_with_body X u w"
    using assms(3) count
    by (simp add: async_polling_transport_emit_returns_http_error_with_body_def async_polling_new_def async_polling_emit_def
        http_send_def http_error_mock_def http_status_error_def stamped_def async_polling_address_def
        async_polling_base_url_def Let_def)
  show "polling_transport_poll_returns_http_error_with_body X u w"
    using polling_refused [OF r8] assms(3)
    by (auto simp: polling_transport_poll_returns_http_error_with_body_def polling_new_def Let_def) (metis assertions(2) fst_conv)
  obtain t where t: "async_polling_new ?Y u None None = Ok t" "ap_state t = PollIdle"
    using assms(3) by (auto simp: async_polling_new_def Let_def)
  with async_polling_refused [OF r8 _ t(2)] assms(2)
  show "async_polling_transport_get_returns_http_error_with_body X u w"
    by (auto simp: async_polling_transport_get_returns_http_error_with_body_def Let_def)
  let ?A = "asio_builder_transport_type PollingTransport (asio_builder_new a)"
  have "http_ready ?Z (cb_headers (async_engine_builder_of ?Z ?A u))"
    using assms(3) by (simp add: http_ready_def convert_headers_def asio_builder_transport_type_def asio_builder_new_def)
  moreover have "refuses ?Z 400 mismatch_body w" using count by (simp add: mock_refuses_twice)
  ultimately obtain w1 where "build_async_engine ?Z PollingTransport (async_engine_builder_of ?Z ?A u) w =
      (Err (HttpErrorWithBody 400 mismatch_body), w1)"
    using async_engine_refused [of ?Z 400 mismatch_body w "async_engine_builder_of ?Z ?A u" PollingTransport] assms(2) by auto
  then show "connect_surfaces_http_error_body_through_socketio_error X a w"
    using assms(4)
    by (simp add: connect_surfaces_http_error_body_through_socketio_error_def asio_builder_connect_def
        asio_connect_manual_def asio_inner_create_def asio_builder_transport_type_def asio_builder_new_def)
qed

text \<open>The server accepts the websocket of the test; the rest of the URL functions are those of \<open>X\<close>.\<close>

lemma websocket_server_tests_pass:
  assumes "starts w" and "0 < loop_fuel X" and "opens_websocket (close_4900_server X) 0 u"
    and "opens_websocket (close_4900_server X) 0 (cb_url (async_builder_new (close_4900_server X) u))"
  shows "websocket_close_code_surfaced_via_poll_next X u w"
    "websocket_close_code_surfaced_via_stream_impl X u w"
    "websocket_close_code_surfaced_via_build_handshake X u w"
proof -
  let ?Y = "close_4900_server X" and ?f = "Some (4900, ''version handshake rejected'') :: (u16 \<times> bytes) option"
  have w: "connect_count w = 0" "received w 0 = 0" using assms(1) by (simp_all add: starts_def)
  have fuel: "0 < loop_fuel ?Y" using assms(2) by (simp add: close_4900_server_def)
  obtain t w1 where t: "async_ws_new ?Y u None w = (Ok t, w1)" "ws_conn t = 0" "received w1 = received w"
    using ws_opened(1) [of ?Y w u None] assms(3) w by auto
  obtain i where "net_recv ?Y 0 (received w1 0) = (i, WsMsg (WsClose ?f))"
    by (simp add: close_4900_server_def t(3) w)
  from close_frame_read [OF this fuel, of None]
  have read: "fst (ws_general_poll_next ?Y None 0 w1) = Err (WebsocketClosed 4900 ''version handshake rejected'')"
    by (simp add: past_def)
  with t show "websocket_close_code_surfaced_via_poll_next X u w" "websocket_close_code_surfaced_via_stream_impl X u w"
    by (simp_all add: websocket_close_code_surfaced_via_poll_next_def websocket_close_code_surfaced_via_stream_impl_def
        async_ws_poll_next_def async_ws_stream_next_def)
  have "closes_at_once ?Y ?f w" by (simp add: closes_at_once_def close_4900_server_def w)
  from engine_closed(2) [of ?Y w "async_builder_new ?Y u", OF _ this fuel, of None] assms(4) w
  show "websocket_close_code_surfaced_via_build_handshake X u w"
    by (simp add: websocket_close_code_surfaced_via_build_handshake_def async_builder_new_def convert_headers_def Let_def)
qed

text \<open>In the concrete environment every one of them passes.\<close>

lemma server_tests_pass_demo:
  "polling_transport_emit_returns_http_error_with_body demo_ext ''http://h/'' demo_world"
  "async_polling_transport_get_returns_http_error_with_body demo_ext ''http://h/'' demo_world"
  "connect_surfaces_http_error_body_through_socketio_error demo_ext ''http://h/'' demo_world"
  "websocket_close_code_surfaced_via_poll_next demo_ext ''ws://h/'' demo_world"
  "websocket_close_code_surfaced_via_build_handshake demo_ext ''ws://h/'' demo_world"
proof -
  have start: "starts demo_world" by (simp add: starts_def)
  have demo: "2 \<le> loop_fuel demo_ext" "http_client_ok demo_ext t h" "url_parse demo_ext a = Inr a" for t h a
    by (simp_all add: demo_ext_def)
  show "polling_transport_emit_returns_http_error_with_body demo_ext ''http://h/'' demo_world"
    "async_polling_transport_get_returns_http_error_with_body demo_ext ''http://h/'' demo_world"
    "connect_surfaces_http_error_body_through_socketio_error demo_ext ''http://h/'' demo_world"
    using http_server_tests_pass [OF start demo] by blast+
  have fuel: "0 < loop_fuel demo_ext" using demo(1) by simp
  have "opens_websocket (close_4900_server demo_ext) 0 ''ws://h/''"
    "opens_websocket (close_4900_server demo_ext) 0 (cb_url (async_builder_new (close_4900_server demo_ext) ''ws://h/''))"
    by code_simp+
  from websocket_server_tests_pass [OF start fuel this]
  show "websocket_close_code_surfaced_via_poll_next demo_ext ''ws://h/'' demo_world"
    "websocket_close_code_surfaced_via_build_handshake demo_ext ''ws://h/'' demo_world" by blast+
qed

end
