(* ===== verification/Spec2Isabelle.thy ===== *)
theory Spec2Isabelle
  imports Sio_Client_Sessions Sio_Async_Sessions Sio_Async_Whole_Steps Sio_Agreement End_To_End
    Repository_Tests
begin

text \<open>
  \<^bold>\<open>A model of the socket.io client and its engine.io transport layer.\<close>

  \<^bold>\<open>The program.\<close> The repository holds two crates, each with a blocking and an asynchronous version.
  \<^item> \<open>engineio\<close>: packets and payloads, the transports (HTTP long polling and websockets, plain and
    over TLS), the socket with its heartbeat, and the client and builder that do the handshake and
    the upgrade from polling to a websocket.
  \<^item> \<open>socketio\<close>: events and payloads, packets with their text format and attachments, the socket that
    reads and writes them over an engine.io client, the client with its callbacks and
    acknowledgements, and the layer that reconnects.
  A call goes down this list (\<open>Client\<close>, \<open>RawClient\<close>, socket.io \<open>Socket\<close>, engine.io \<open>Client\<close>,
  engine.io \<open>Socket\<close>, transport); packets come up it when the client is polled, and each layer
  calls the user's callbacks on the way.

  \<^bold>\<open>Conventions.\<close> A Rust call yields an \<open>outcome\<close>: \<open>Ok\<close>, \<open>Err\<close>, \<open>Panic\<close>, or \<open>Hang\<close> when it has not
  returned. Bytes and strings are lists of bytes; machine integers are words of their width. A
  stateful operation maps a pair of the component's record and the \<open>world\<close> to an outcome and a new
  pair. The \<open>world\<close> (theory \<open>World\<close>) has the clock, the position in the answers of the network and
  the trace of everything the program did outside itself: requests, frames, callbacks, sleeps. A
  callback called in place and one spawned as a task of its own (the engine callbacks of the
  asynchronous engine) are different effects; of a spawned one the trace has the instant of the spawn,
  and nothing says when it runs.
  The record \<open>ext\<close> holds what is not in the repository: the functions of the URL, HTTP, websocket,
  TLS, JSON, base64, random and back-off crates, the answers of the network, and what the user's
  callbacks do. Theorems are for every \<open>ext\<close>; where one relies on a documented behaviour (base64
  decodes what it encodes, JSON text printed by the library is accepted by it) this is a named
  predicate among its hypotheses, and its witness uses \<open>demo_ext\<close>, a concrete one.

  \<^bold>\<open>Theories and sources.\<close>
  \<^item> \<open>Prelude\<close>, \<open>Std_Str\<close>: outcomes and the \<open>?\<close> operator, words, and the functions of the standard
    library on strings that the sources call, each executable.
  \<^item> \<open>Errors\<close>: both \<open>error.rs\<close>, with the texts and the conversions.
  \<^item> \<open>Codec\<close>, \<open>Connection\<close>: the contracts of a wire format and of a connection, as locales. Both
    packet formats are interpretations of the first, four sockets and the raw client of the second.
  \<^item> \<open>Eio_Packet\<close>: \<open>engineio/src/packet.rs\<close>. Decoding is the inverse of encoding for packets and
    payloads; what the decoder accepts is given exactly.
  \<^item> \<open>Eio_Header\<close>: \<open>header.rs\<close> and the callbacks of the engine.
  \<^item> \<open>Eio_Websocket\<close>, \<open>Eio_Polling\<close>, \<open>Eio_Transport\<close>: everything under \<open>transports/\<close> and
    \<open>async_transports/\<close>, \<open>generator.rs\<close>, and the traits, whose contract is the locale
    \<open>transport_contract\<close> with both enumerations as interpretations. The two ways to
    read a websocket, \<open>poll_next\<close> and the stream, are equal.
  \<^item> \<open>Eio_Socket\<close>, \<open>Eio_Client\<close>: \<open>socket.rs\<close>, \<open>client/client.rs\<close>. The poll loop delivers the packets
    of every payload in order, asks the transport only within the deadline of the heartbeat, and a
    socket that was disconnected refuses every further use; the upgrade sends the probe, waits for
    its answer and then sends the upgrade packet.
  \<^item> \<open>Eio_Async_Socket\<close>, \<open>Eio_Async_Client\<close>: \<open>engineio/src/asynchronous/\<close>. Operations that await
    between two uses of the shared state are split there, and \<open>async_step\<close> interleaves the parts of
    any number of tasks: a socket that was retired sends nothing but its close packet. Its callbacks are
    spawned.
  \<^item> \<open>Json\<close>, \<open>Sio_Event\<close>, \<open>Sio_Payload\<close>, \<open>Sio_Packet\<close>: the data of \<open>socketio/src/event.rs\<close>,
    \<open>payload.rs\<close> and \<open>packet.rs\<close>, the text format and its round trips, and the cases in which the
    format loses something.
  \<^item> \<open>Sio_Socket\<close>: \<open>socketio/src/socket.rs\<close>. Sending writes the packet and its attachments as
    consecutive frames; polling collects the announced attachments in their order.
  \<^item> \<open>Sio_Raw_Client\<close>: \<open>client/raw_client.rs\<close>, \<open>client/callback.rs\<close>. A callback's code may act on the
    client it is handed (\<open>run_actions\<close>); the mutexes of the callback tables are state, so that
    locking them twice on one thread is a \<open>Hang\<close>.
  \<^item> \<open>Sio_Builder\<close>, \<open>Sio_Client\<close>: \<open>client/builder.rs\<close>, \<open>client/client.rs\<close>: the builder whose tables
    all of its clients share, the attempts to reconnect, and the thread that polls, which
    keeps the shared tables and starts at most one session in a turn.
  \<^item> \<open>Sio_Client_Threads\<close>: that client with its two threads. The polling thread is cut where it waits
    (\<open>poller\<close>, \<open>poller_step\<close>), and \<open>threads_step\<close> interleaves it with the calls of the user's thread;
    \<open>poll_thread_reaches\<close> ties it to the model of whole turns. \<open>Sio_Client_Sessions\<close>: only a connect of
    the thread that succeeds changes the session; when a disconnect of the user is final, and when the
    thread undoes it.
  \<^item> \<open>Sio_Async_Socket\<close>, \<open>Sio_Async_Builder\<close>, \<open>Sio_Async_Client\<close>: \<open>socketio/src/asynchronous/\<close>. A
    packet is dispatched as a task; \<open>asio_step\<close> is any interleaving of the tasks, the reader and
    the user's calls. On every packet the asynchronous client does what the blocking one does.
  \<^item> \<open>Sio_Async_Sessions\<close>: the session a close of that client names is always one that has begun.
  \<^item> \<open>Sio_Async_Teardown\<close>: the same client with a \<open>disconnect\<close> and an attempt to reconnect cut at
    their awaits, so that they run into each other. The abort of the reader is asked for in one step and
    takes effect in a later one, which the disconnect waits for. After a disconnect has returned nothing
    happens any more; one that runs alone is over within two seconds; the \<open>on_reconnect\<close> callback is not
    lost. \<open>Sio_Async_Whole_Steps\<close> ties it to \<open>Sio_Async_Client\<close>, which takes both as single steps.
  \<^item> \<open>Eio_Agreement\<close>, \<open>Sio_Agreement\<close>: the two engines give the same packets and leave the same world
    once a spawned callback is read as a call, and the asynchronous socket.io client has a schedule for
    each run of the blocking one, on inputs without empty text frames and without two outstanding
    acknowledgements of one id, where the two differ.
  \<^item> \<open>End_To_End\<close>: a client that emits and one that listens, with a server between them that passes the
    frames on. Events and acknowledgements that the wire can carry (no separator byte, no empty
    attachment) arrive through all layers of both.
  \<^item> \<open>Refusals\<close>: the answer of a server that refuses a client is the error of \<open>connect\<close>.
  \<^item> \<open>Repository_Tests\<close>: the unit tests of the formats and of refused connections, as definitions
    that hold: a regression suite for the model, not a property of the program.

  \<^bold>\<open>Loops and fuel.\<close> Loops over data are structural. A loop that waits for the network takes fuel, the
  field \<open>loop_fuel\<close> of \<open>ext\<close>, and is \<open>Hang\<close> without it. A theorem that such a loop returns names
  the fuel it needs: one unit for the answer and one for every empty answer before it in the poll loops,
  256 for the attempts to reconnect, because their counter is a byte, and one unit per nested call
  for a callback that disconnects. A theorem that a loop never ends holds for every fuel.

  \<^bold>\<open>What the model leaves out.\<close> A request to the network is a single step, so a teardown that cancels
  one in its middle is not seen (it cancels an attempt to reconnect between its requests). It takes a
  time of its own, as long as one likes but finite: one that never ends is not a run, which matters
  only where no timeout is around it. Tasks of the asynchronous client run one at a time from await to
  await, as on tokio's current-thread runtime: an aborted dispatch task is suspended when it is aborted
  and never runs again. With several runtime threads it may finish the piece it is in; the code of a
  callback, and each call it makes on its client, is one such piece. Rules may be taken but need not be,
  so a task that waits for a lock is one whose rule is not taken yet: the safety properties hold of such
  runs, and no property says that a wait comes to an end. A lock is held or free on one thread, and the two threads of the blocking client alternate only where
  the polling one waits, so neither finds a lock of the other taken; a callback it calls is finished
  before the user's next call. Poisoning is the outcome of the panic that causes it. \<open>Debug\<close> instances, logging, the boxing of callbacks
  and the re-exports of \<open>lib.rs\<close> have no model. The order in which a \<open>HashMap\<close> iterates is the order
  of an association list. Benches, examples and the tests that need one of the servers of \<open>ci\<close> are
  not modelled.

  \<^bold>\<open>What could be added.\<close> The cancellation of a request in its middle; the engine's stream cut at its
  awaits, as the client of \<open>Sio_Async_Teardown\<close> is; the user's calls in the middle of a callback that
  the polling thread runs.
\<close>

end
